(* ===== verification/Prelude.thy ===== *)
theory Prelude
  imports Main "HOL-Library.Word"
begin

text \<open>
  Shared vocabulary of the development: the machine integer types, the exceptions the library
  raises, results of C++ expressions (a value, a thrown exception, or undefined behaviour),
  state-passing actions with their sequencing, the standard library's associative containers as
  far as the session uses them, and the generic facts about all of these that the component
  theories rely on.
\<close>

section \<open>Types\<close>

type_synonym byte = "8 word"
type_synonym u32 = "32 word"
type_synonym u64 = "64 word"

text \<open>
  Exceptions.  The first two constructors are the classes of \<open>autobahn/exceptions.hpp\<close>; the
  next two are the standard exceptions the library constructs itself.  \<open>Library_Error\<close> stands
  for an exception raised by msgpack or boost, all of which derive from \<open>std::exception\<close>.
  \<open>User_Error\<close> is a \<open>std::exception\<close> thrown by a user callback and \<open>Non_Std_Exception\<close> any
  thrown value that does not derive from \<open>std::exception\<close>.
\<close>

datatype library_exn =
    Msgpack_Type_Error
  | Msgpack_Parse_Error
  | Promise_Already_Satisfied
  | Future_Already_Retrieved
  | Broken_Promise
  | System_Error

datatype exn =
    Protocol_Error string
  | No_Session_Error
  | Out_Of_Range string
  | Runtime_Error string
  | Library_Error library_exn
  | User_Error string
  | Non_Std_Exception

text \<open>
  \<open>e.what()\<close>, for the exceptions a \<open>catch (const std::exception& e)\<close> clause accepts.  The
  texts of the exceptions of third-party libraries are a parameter.
\<close>

fun exn_what :: "(library_exn \<Rightarrow> string) \<Rightarrow> exn \<Rightarrow> string option" where
  "exn_what w (Protocol_Error m) = Some m"
| "exn_what w No_Session_Error = Some ''session not joined''"
| "exn_what w (Out_Of_Range m) = Some m"
| "exn_what w (Runtime_Error m) = Some m"
| "exn_what w (Library_Error e) = Some (w e)"
| "exn_what w (User_Error m) = Some m"
| "exn_what w Non_Std_Exception = None"

datatype 'a result =
    Ok 'a
  | Throw exn
  | Undefined_Behaviour

fun is_Ok :: "'a result \<Rightarrow> bool" where
  "is_Ok (Ok _) = True"
| "is_Ok _ = False"

text \<open>An optional result of a library conversion; \<open>None\<close> means that it throws \<open>e\<close>.\<close>

definition or_throw :: "'a option \<Rightarrow> exn \<Rightarrow> 'a result" where
  "or_throw x e = (case x of Some v \<Rightarrow> Ok v | None \<Rightarrow> Throw e)"

lemma or_throw_simps [simp]:
  "or_throw (Some v) e = Ok v"
  "or_throw None e = Throw e"
  by (simp_all add: or_throw_def)

lemma or_throw_eq_Ok [simp]: "or_throw x e = Ok v \<longleftrightarrow> x = Some v"
  by (auto simp: or_throw_def split: option.splits)

lemma or_throw_not_UB [simp]: "or_throw x e \<noteq> Undefined_Behaviour"
  by (auto simp: or_throw_def split: option.splits)

section \<open>State-passing actions\<close>

text \<open>
  A member function that reads and writes an object is a function from the object's state to a
  result and the state afterwards.  The state survives an exception: what was written before the
  throw stays written, as in C++.
\<close>

type_synonym ('s, 'a) action = "'s \<Rightarrow> 'a result \<times> 's"

definition ret :: "'a \<Rightarrow> ('s, 'a) action" where
  "ret a s = (Ok a, s)"

definition raise :: "exn \<Rightarrow> ('s, 'a) action" where
  "raise e s = (Throw e, s)"

definition lift_result :: "'a result \<Rightarrow> ('s, 'a) action" where
  "lift_result r s = (r, s)"

definition bind_act :: "('s, 'a) action \<Rightarrow> ('a \<Rightarrow> ('s, 'b) action) \<Rightarrow> ('s, 'b) action" where
  "bind_act m f s =
     (case m s of
        (Ok a, s') \<Rightarrow> f a s'
      | (Throw e, s') \<Rightarrow> (Throw e, s')
      | (Undefined_Behaviour, s') \<Rightarrow> (Undefined_Behaviour, s'))"

definition and_then :: "('s, 'a) action \<Rightarrow> ('s, 'b) action \<Rightarrow> ('s, 'b) action" where
  "and_then m n = bind_act m (\<lambda>_. n)"

definition update :: "('s \<Rightarrow> 's) \<Rightarrow> ('s, unit) action" where
  "update f s = (Ok (), f s)"

definition with_state :: "('s \<Rightarrow> ('s, 'a) action) \<Rightarrow> ('s, 'a) action" where
  "with_state f s = f s s"

text \<open>\<open>try { m } catch\<close>: the handler runs in the state the exception left behind.\<close>

definition try_catch :: "('s, 'a) action \<Rightarrow> (exn \<Rightarrow> ('s, 'a) action) \<Rightarrow> ('s, 'a) action" where
  "try_catch m h s =
     (case m s of
        (Ok a, s') \<Rightarrow> (Ok a, s')
      | (Throw e, s') \<Rightarrow> h e s'
      | (Undefined_Behaviour, s') \<Rightarrow> (Undefined_Behaviour, s'))"

named_theorems action_defs "definitions of the sequencing operators"

lemmas [action_defs] =
  ret_def raise_def lift_result_def bind_act_def and_then_def update_def try_catch_def
  with_state_def

subsection \<open>Actions that keep a predicate\<close>

definition keeps :: "('s \<Rightarrow> bool) \<Rightarrow> ('s, 'a) action \<Rightarrow> bool" where
  "keeps P m \<longleftrightarrow> (\<forall>s. P s \<longrightarrow> P (snd (m s)))"

named_theorems keep_intros "introduction rules for keeps"

lemma keepsI: "(\<And>s. P s \<Longrightarrow> P (snd (m s))) \<Longrightarrow> keeps P m"
  by (simp add: keeps_def)

lemma keepsD: "keeps P m \<Longrightarrow> P s \<Longrightarrow> P (snd (m s))"
  by (simp add: keeps_def)

lemma keepsD_eq: "keeps P m \<Longrightarrow> P s \<Longrightarrow> m s = (r, s') \<Longrightarrow> P s'"
  by (drule keepsD [of P m s]) simp_all

lemma keeps_ret [keep_intros]: "keeps P (ret a)"
  by (simp add: keeps_def ret_def)

lemma keeps_raise [keep_intros]: "keeps P (raise e)"
  by (simp add: keeps_def raise_def)

lemma keeps_lift_result [keep_intros]: "keeps P (lift_result r)"
  by (simp add: keeps_def lift_result_def)

lemma keeps_bind [keep_intros]:
  "keeps P m \<Longrightarrow> (\<And>a. keeps P (f a)) \<Longrightarrow> keeps P (bind_act m f)"
  unfolding keeps_def bind_act_def
  by (force split: prod.splits result.splits)

lemma keeps_and_then [keep_intros]:
  "keeps P m \<Longrightarrow> keeps P n \<Longrightarrow> keeps P (and_then m n)"
  by (simp add: and_then_def keeps_bind)

lemma keeps_update: "(\<And>s. P s \<Longrightarrow> P (f s)) \<Longrightarrow> keeps P (update f)"
  by (simp add: keeps_def update_def)

lemma keeps_with_state [keep_intros]: "(\<And>s0. keeps P (f s0)) \<Longrightarrow> keeps P (with_state f)"
  by (simp add: keeps_def with_state_def)

lemma keeps_with_stateI:
  "(\<And>s. P s \<Longrightarrow> P (snd (f s s))) \<Longrightarrow> keeps P (with_state f)"
  by (simp add: keeps_def with_state_def)

lemma keeps_try_catch [keep_intros]:
  "keeps P m \<Longrightarrow> (\<And>e. keeps P (h e)) \<Longrightarrow> keeps P (try_catch m h)"
  unfolding keeps_def try_catch_def
  by (force split: prod.splits result.splits)

lemma keeps_if [keep_intros]:
  "(b \<Longrightarrow> keeps P m) \<Longrightarrow> (\<not> b \<Longrightarrow> keeps P n) \<Longrightarrow> keeps P (if b then m else n)"
  by simp

lemma keeps_case_option [keep_intros]:
  "(x = None \<Longrightarrow> keeps P m) \<Longrightarrow> (\<And>v. x = Some v \<Longrightarrow> keeps P (f v)) \<Longrightarrow>
   keeps P (case x of None \<Rightarrow> m | Some v \<Rightarrow> f v)"
  by (cases x) simp_all

lemma keeps_conj: "keeps P m \<Longrightarrow> keeps Q m \<Longrightarrow> keeps (\<lambda>s. P s \<and> Q s) m"
  by (simp add: keeps_def)

section \<open>Reachable states\<close>

inductive reach :: "('s \<Rightarrow> bool) \<Rightarrow> ('s \<Rightarrow> 's \<Rightarrow> bool) \<Rightarrow> 's \<Rightarrow> bool"
  for init :: "'s \<Rightarrow> bool" and step :: "'s \<Rightarrow> 's \<Rightarrow> bool" where
  reach_init: "init s \<Longrightarrow> reach init step s"
| reach_step: "reach init step s \<Longrightarrow> step s s' \<Longrightarrow> reach init step s'"

lemma reach_invariant:
  assumes "reach init step s"
    and "\<And>s. init s \<Longrightarrow> I s"
    and "\<And>s s'. reach init step s \<Longrightarrow> I s \<Longrightarrow> step s s' \<Longrightarrow> I s'"
  shows "I s"
  using assms by (induction rule: reach.induct) blast+

section \<open>Containers of the standard library\<close>

text \<open>
  \<open>std::map::emplace\<close> inserts only when the key is absent; \<open>std::map::erase\<close> of a key.
  \<open>std::map::find\<close> is application.
\<close>

definition map_emplace :: "('k \<rightharpoonup> 'v) \<Rightarrow> 'k \<Rightarrow> 'v \<Rightarrow> ('k \<rightharpoonup> 'v)" where
  "map_emplace m k v = (case m k of None \<Rightarrow> m(k \<mapsto> v) | Some _ \<Rightarrow> m)"

definition map_erase :: "('k \<rightharpoonup> 'v) \<Rightarrow> 'k \<Rightarrow> ('k \<rightharpoonup> 'v)" where
  "map_erase m k = m(k := None)"

lemma map_emplace_fresh [simp]: "m k = None \<Longrightarrow> map_emplace m k v = m(k \<mapsto> v)"
  by (simp add: map_emplace_def)

lemma map_emplace_present [simp]: "m k = Some w \<Longrightarrow> map_emplace m k v = m"
  by (simp add: map_emplace_def)

lemma map_emplace_taken: "m k \<noteq> None \<Longrightarrow> map_emplace m k v = m"
  by auto

lemma map_emplace_Some:
  "map_emplace m k v j = Some w \<Longrightarrow> m j = Some w \<or> (j = k \<and> w = v \<and> m k = None)"
  by (auto simp: map_emplace_def split: option.splits if_splits)

lemma map_emplace_mono: "m j = Some w \<Longrightarrow> map_emplace m k v j = Some w"
  by (auto simp: map_emplace_def split: option.splits)

lemma dom_map_emplace [simp]: "dom (map_emplace m k v) = insert k (dom m)"
  by (auto simp: map_emplace_def split: option.splits)

lemma map_erase_same [simp]: "map_erase m k k = None"
  by (simp add: map_erase_def)

lemma map_erase_other [simp]: "j \<noteq> k \<Longrightarrow> map_erase m k j = m j"
  by (simp add: map_erase_def)

lemma map_erase_Some [simp]: "map_erase m k j = Some v \<longleftrightarrow> j \<noteq> k \<and> m j = Some v"
  by (simp add: map_erase_def)

lemma dom_map_erase [simp]: "dom (map_erase m k) = dom m - {k}"
  by (simp add: map_erase_def)

text \<open>
  \<open>std::multimap\<close>: the sequence of its elements in iteration order.  An inserted element goes
  to the upper bound of its key's range (C++11, [associative.reqmts]), so elements with equal
  keys stay in insertion order.  \<open>lower_bound\<close> and \<open>upper_bound\<close> are positions; here, the
  remaining sequence from that position.
\<close>

type_synonym ('k, 'v) multimap = "('k \<times> 'v) list"

fun mm_lower_bound :: "'k::linorder \<Rightarrow> ('k, 'v) multimap \<Rightarrow> ('k, 'v) multimap" where
  "mm_lower_bound k [] = []"
| "mm_lower_bound k ((j, v) # ps) = (if j < k then mm_lower_bound k ps else (j, v) # ps)"

fun mm_upper_bound :: "'k::linorder \<Rightarrow> ('k, 'v) multimap \<Rightarrow> ('k, 'v) multimap" where
  "mm_upper_bound k [] = []"
| "mm_upper_bound k ((j, v) # ps) = (if j \<le> k then mm_upper_bound k ps else (j, v) # ps)"

fun mm_insert :: "'k::linorder \<Rightarrow> 'v \<Rightarrow> ('k, 'v) multimap \<Rightarrow> ('k, 'v) multimap" where
  "mm_insert k v [] = [(k, v)]"
| "mm_insert k v ((j, w) # ps) = (if j \<le> k then (j, w) # mm_insert k v ps else (k, v) # (j, w) # ps)"

text \<open>The elements between two positions of one sequence, the second a suffix of the first.\<close>

definition mm_between :: "('k, 'v) multimap \<Rightarrow> ('k, 'v) multimap \<Rightarrow> ('k, 'v) multimap" where
  "mm_between from_it to_it = take (length from_it - length to_it) from_it"

definition mm_range :: "'k::linorder \<Rightarrow> ('k, 'v) multimap \<Rightarrow> 'v list" where
  "mm_range k m = map snd (mm_between (mm_lower_bound k m) (mm_upper_bound k m))"

definition mm_sorted :: "('k::linorder, 'v) multimap \<Rightarrow> bool" where
  "mm_sorted m \<longleftrightarrow> sorted (map fst m)"

definition mm_values :: "'k \<Rightarrow> ('k, 'v) multimap \<Rightarrow> 'v list" where
  "mm_values k m = map snd (filter (\<lambda>p. fst p = k) m)"

lemma mm_sorted_Nil [simp]: "mm_sorted []"
  by (simp add: mm_sorted_def)

lemma mm_sorted_Cons [simp]:
  "mm_sorted ((k, v) # m) \<longleftrightarrow> (\<forall>p \<in> set m. k \<le> fst p) \<and> mm_sorted m"
  by (auto simp: mm_sorted_def)

lemma mm_values_simps [simp]:
  "mm_values k [] = []"
  "mm_values k ((j, v) # m) = (if j = k then v # mm_values k m else mm_values k m)"
  by (simp_all add: mm_values_def)

lemma mm_values_Nil_iff: "mm_values k m = [] \<longleftrightarrow> k \<notin> fst ` set m"
  by (auto simp: mm_values_def filter_empty_conv)

lemma set_mm_insert [simp]: "set (mm_insert k v m) = insert (k, v) (set m)"
  by (induction m) (auto split: if_splits)

lemma mm_sorted_insert: "mm_sorted m \<Longrightarrow> mm_sorted (mm_insert k v m)"
proof (induction m)
  case (Cons p m)
  then show ?case by (cases p) (force simp: not_le)
qed simp

lemma mm_values_not_in: "k \<notin> fst ` set m \<Longrightarrow> mm_values k m = []"
  by (simp add: mm_values_Nil_iff)

lemma mm_values_insert:
  "mm_sorted m \<Longrightarrow>
   mm_values j (mm_insert k v m) = (if j = k then mm_values k m @ [v] else mm_values j m)"
proof (induction m)
  case (Cons p m)
  obtain i w where p: "p = (i, w)" by (cases p)
  show ?case
  proof (cases "i \<le> k")
    case False
    with Cons.prems p have "k \<notin> fst ` set ((i, w) # m)" by force
    then have "mm_values k ((i, w) # m) = []" by (rule mm_values_not_in)
    with False p show ?thesis by auto
  next
    case True
    with Cons p show ?thesis by (cases "i = k"; cases "j = k") simp_all
  qed
qed simp

lemma mm_upper_bound_all_greater:
  "(\<forall>p \<in> set m. k < fst p) \<Longrightarrow> mm_upper_bound k m = m"
  by (cases m) auto

lemma mm_length_upper_bound: "length (mm_upper_bound k m) \<le> length m"
  by (induction m) auto

lemma mm_between_from_start:
  "mm_sorted m \<Longrightarrow> (\<forall>p \<in> set m. k \<le> fst p) \<Longrightarrow>
   map snd (mm_between m (mm_upper_bound k m)) = mm_values k m"
proof (induction m)
  case (Cons p m)
  obtain i w where p: "p = (i, w)" by (cases p)
  show ?case
  proof (cases "i = k")
    case True
    with Cons p show ?thesis
      by (simp add: mm_between_def Suc_diff_le mm_length_upper_bound)
  next
    case False
    with Cons.prems p have gt: "\<forall>q \<in> set ((i, w) # m). k < fst q" by force
    then have "mm_upper_bound k ((i, w) # m) = (i, w) # m"
      by (rule mm_upper_bound_all_greater)
    moreover have "mm_values k ((i, w) # m) = []"
      using gt by (intro mm_values_not_in) force
    ultimately show ?thesis using p by (simp add: mm_between_def)
  qed
qed (simp add: mm_between_def)

lemma mm_range_eq_values: "mm_sorted m \<Longrightarrow> mm_range k m = mm_values k m"
proof (induction m)
  case (Cons p m)
  obtain i w where p: "p = (i, w)" by (cases p)
  show ?case
  proof (cases "i < k")
    case True
    with Cons p show ?thesis by (auto simp: mm_range_def)
  next
    case False
    with Cons.prems p have "\<forall>q \<in> set ((i, w) # m). k \<le> fst q" by force
    with Cons.prems p False show ?thesis
      by (simp only: mm_range_def mm_lower_bound.simps if_False mm_between_from_start)
  qed
qed (simp add: mm_range_def mm_between_def)

section \<open>Decimal numbers\<close>

text \<open>\<open>boost::lexical_cast<std::string>\<close> of an unsigned number: its decimal digits.\<close>

definition digit_char :: "nat \<Rightarrow> char" where
  "digit_char d = char_of (48 + d)"

fun decimal :: "nat \<Rightarrow> string" where
  "decimal n = (if n < 10 then [digit_char n] else decimal (n div 10) @ [digit_char (n mod 10)])"

declare decimal.simps [simp del]

end
