(* ===== verification/Promise.thy ===== *)
theory Promise
  imports Prelude
begin

text \<open>
  \<open>boost::promise\<close>, used by the session to hand results to the application.  It implements the
  interface of the standard library's \<open>std::promise\<close>, whose semantics is modelled: a shared state
  that is set at most once, to a value or to an exception, and a future that is retrieved at most
  once.  A second attempt throws.  A promise that is destroyed before it has been set leaves the
  exception \<open>broken_promise\<close> in its shared state.  The laws are stated as the locale \<open>one_shot\<close>, in which the
  facts the session's proofs need are derived once.
\<close>

datatype 'a promise_state =
    Pending
  | Has_Value 'a
  | Has_Exception exn

record 'a promise =
  shared_state :: "'a promise_state"
  future_retrieved :: bool

definition new_promise :: "'a promise" where
  "new_promise = \<lparr>shared_state = Pending, future_retrieved = False\<rparr>"

definition set_value :: "'a \<Rightarrow> ('a promise, unit) action" where
  "set_value v p =
     (case shared_state p of
        Pending \<Rightarrow> (Ok (), p\<lparr>shared_state := Has_Value v\<rparr>)
      | _ \<Rightarrow> (Throw (Library_Error Promise_Already_Satisfied), p))"

definition set_exception :: "exn \<Rightarrow> ('a promise, unit) action" where
  "set_exception e p =
     (case shared_state p of
        Pending \<Rightarrow> (Ok (), p\<lparr>shared_state := Has_Exception e\<rparr>)
      | _ \<Rightarrow> (Throw (Library_Error Promise_Already_Satisfied), p))"

definition get_future :: "('a promise, unit) action" where
  "get_future p =
     (if future_retrieved p then (Throw (Library_Error Future_Already_Retrieved), p)
      else (Ok (), p\<lparr>future_retrieved := True\<rparr>))"

text \<open>\<open>~promise()\<close>: what its future finds in the shared state.\<close>

definition abandon :: "'a promise \<Rightarrow> 'a promise" where
  "abandon p =
     (case shared_state p of
        Pending \<Rightarrow> p\<lparr>shared_state := Has_Exception (Library_Error Broken_Promise)\<rparr>
      | _ \<Rightarrow> p)"

section \<open>The contract\<close>

text \<open>
  A cell that is filled once: \<open>put\<close> fills an unfilled cell and throws on a filled one without
  changing it.
\<close>

locale one_shot =
  fixes filled :: "'p \<Rightarrow> bool"
    and put :: "'v \<Rightarrow> ('p, unit) action"
  assumes put_fresh: "\<not> filled p \<Longrightarrow> fst (put v p) = Ok () \<and> filled (snd (put v p))"
    and put_filled: "filled p \<Longrightarrow> (\<exists>e. fst (put v p) = Throw e) \<and> snd (put v p) = p"
begin

lemma put_ok_iff: "fst (put v p) = Ok () \<longleftrightarrow> \<not> filled p"
  using put_fresh [of p v] put_filled [of p v] by (cases "filled p") auto

lemma put_fills: "filled (snd (put v p))"
  using put_fresh [of p v] put_filled [of p v] by (cases "filled p") auto

lemma put_stable: "filled p \<Longrightarrow> snd (put v p) = p"
  using put_filled by blast

lemma put_twice_throws: "\<exists>e. fst (put w (snd (put v p))) = Throw e"
  using put_fills put_filled by blast

lemma put_not_UB: "fst (put v p) \<noteq> Undefined_Behaviour"
  using put_fresh [of p v] put_filled [of p v] by (cases "filled p") auto

end

definition satisfied :: "'a promise \<Rightarrow> bool" where
  "satisfied p \<longleftrightarrow> shared_state p \<noteq> Pending"

interpretation value_cell: one_shot satisfied set_value
  by unfold_locales (auto simp: satisfied_def set_value_def split: promise_state.splits)

interpretation exception_cell: one_shot satisfied set_exception
  by unfold_locales (auto simp: satisfied_def set_exception_def split: promise_state.splits)

interpretation future_cell: one_shot future_retrieved "\<lambda>_::unit. get_future"
  by unfold_locales (auto simp: get_future_def)

lemma satisfied_new [simp]: "\<not> satisfied new_promise"
  by (simp add: satisfied_def new_promise_def)

lemma new_promise_simps [simp]:
  "shared_state new_promise = Pending"
  "future_retrieved new_promise = False"
  by (simp_all add: new_promise_def)

lemma satisfied_simps [simp]:
  "satisfied (p\<lparr>shared_state := Has_Value v\<rparr>)"
  "satisfied (p\<lparr>shared_state := Has_Exception e\<rparr>)"
  "satisfied (p\<lparr>future_retrieved := b\<rparr>) = satisfied p"
  by (simp_all add: satisfied_def)

lemma abandon_simps [simp]:
  "satisfied (abandon p)"
  "future_retrieved (abandon p) = future_retrieved p"
  "shared_state (abandon p) = Has_Value v \<longleftrightarrow> shared_state p = Has_Value v"
  by (simp_all add: abandon_def satisfied_def split: promise_state.split)

lemma abandon_satisfied: "satisfied p \<Longrightarrow> abandon p = p"
  by (auto simp: abandon_def satisfied_def split: promise_state.split)

lemma set_value_pending:
  "\<not> satisfied p \<Longrightarrow> set_value v p = (Ok (), p\<lparr>shared_state := Has_Value v\<rparr>)"
  by (simp add: satisfied_def set_value_def)

lemma set_value_satisfied:
  "satisfied p \<Longrightarrow> set_value v p = (Throw (Library_Error Promise_Already_Satisfied), p)"
  by (auto simp: satisfied_def set_value_def split: promise_state.splits)

lemma set_exception_pending:
  "\<not> satisfied p \<Longrightarrow> set_exception e p = (Ok (), p\<lparr>shared_state := Has_Exception e\<rparr>)"
  by (simp add: satisfied_def set_exception_def)

lemma set_exception_satisfied:
  "satisfied p \<Longrightarrow> set_exception e p = (Throw (Library_Error Promise_Already_Satisfied), p)"
  by (auto simp: satisfied_def set_exception_def split: promise_state.splits)

lemma set_value_cases:
  "set_value v p =
     (if satisfied p then (Throw (Library_Error Promise_Already_Satisfied), p)
      else (Ok (), p\<lparr>shared_state := Has_Value v\<rparr>))"
  by (simp add: set_value_pending set_value_satisfied)

lemma set_exception_cases:
  "set_exception e p =
     (if satisfied p then (Throw (Library_Error Promise_Already_Satisfied), p)
      else (Ok (), p\<lparr>shared_state := Has_Exception e\<rparr>))"
  by (simp add: set_exception_pending set_exception_satisfied)

end
