(* ===== verification/Msgpack.thy ===== *)
theory Msgpack
  imports Prelude
begin

text \<open>
  The boundary to msgpack-c, which is not part of the repository.  The variant type
  \<open>msgpack::object\<close> is inspected field by field in the sources (\<open>type\<close>, \<open>via.array\<close>,
  \<open>via.map\<close>, \<open>via.str\<close>), so it is a datatype with one constructor per type tag.  Everything
  the library computes (conversions \<open>as<T>()\<close>, the byte encoding, the streaming decoder) is a
  record of functions, the parameter \<open>mp\<close> of the model; \<open>msgpack_ok\<close> collects the documented
  facts about the conversions that some theorems need, and \<open>msgpack_example\<close> is a concrete
  instance for witnesses.  A buffer under construction is the sequence of calls made on its
  \<open>msgpack::packer\<close>; \<open>packed_object\<close> says which object such a sequence writes, if it writes
  exactly one.
\<close>

section \<open>Objects\<close>

datatype msgobj =
    NIL
  | BOOLEAN bool
  | POSITIVE_INTEGER u64
  | NEGATIVE_INTEGER u64
  | FLOAT u64
  | STR_OBJ string
  | BIN string
  | ARRAY "msgobj list"
  | MAP "(msgobj \<times> msgobj) list"
  | EXT byte string

fun is_positive_integer :: "msgobj \<Rightarrow> bool" where
  "is_positive_integer (POSITIVE_INTEGER _) = True"
| "is_positive_integer _ = False"

fun is_str :: "msgobj \<Rightarrow> bool" where
  "is_str (STR_OBJ _) = True"
| "is_str _ = False"

fun is_array :: "msgobj \<Rightarrow> bool" where
  "is_array (ARRAY _) = True"
| "is_array _ = False"

fun is_map :: "msgobj \<Rightarrow> bool" where
  "is_map (MAP _) = True"
| "is_map _ = False"

lemma is_positive_integer_iff: "is_positive_integer x \<longleftrightarrow> (\<exists>n. x = POSITIVE_INTEGER n)"
  by (cases x) auto

lemma is_str_iff: "is_str x \<longleftrightarrow> (\<exists>s. x = STR_OBJ s)"
  by (cases x) auto

lemma is_array_iff: "is_array x \<longleftrightarrow> (\<exists>xs. x = ARRAY xs)"
  by (cases x) auto

lemma is_map_iff: "is_map x \<longleftrightarrow> (\<exists>kvs. x = MAP kvs)"
  by (cases x) auto

section \<open>Packer calls\<close>

text \<open>
  The member functions of \<open>msgpack::packer\<close> the sources call.  \<open>Pack_Object\<close> packs a value the
  library user supplies (an argument list, a keyword dictionary, registration options); such a
  value is represented by the object it packs as.
\<close>

datatype pack_call =
    Pack_Array nat
  | Pack_Map nat
  | Pack_Int int
  | Pack_Uint64 u64
  | Pack_String string
  | Pack_Object msgobj

type_synonym buffer = "pack_call list"

text \<open>
  Which object a sequence of packer calls writes.  An open array or map header waits for its
  declared number of elements; completing the outermost value must coincide with the end of the
  sequence, otherwise the buffer does not hold exactly one object.
\<close>

datatype pack_frame =
    In_Array nat "msgobj list"
  | In_Map nat "(msgobj \<times> msgobj) list" "msgobj option"

fun pack_put :: "msgobj \<Rightarrow> pack_frame list \<Rightarrow> msgobj + pack_frame list" where
  "pack_put v [] = Inl v"
| "pack_put v (In_Array n vs # fs) =
     (if n \<le> 1 then pack_put (ARRAY (rev (v # vs))) fs else Inr (In_Array (n - 1) (v # vs) # fs))"
| "pack_put v (In_Map n kvs None # fs) = Inr (In_Map n kvs (Some v) # fs)"
| "pack_put v (In_Map n kvs (Some k) # fs) =
     (if n \<le> 1 then pack_put (MAP (rev ((k, v) # kvs))) fs
      else Inr (In_Map (n - 1) ((k, v) # kvs) None # fs))"

definition int_object :: "int \<Rightarrow> msgobj" where
  "int_object i = (if 0 \<le> i then POSITIVE_INTEGER (word_of_int i) else NEGATIVE_INTEGER (word_of_int i))"

fun pack_step :: "pack_call \<Rightarrow> pack_frame list \<Rightarrow> msgobj + pack_frame list" where
  "pack_step (Pack_Array n) fs = (if n = 0 then pack_put (ARRAY []) fs else Inr (In_Array n [] # fs))"
| "pack_step (Pack_Map n) fs = (if n = 0 then pack_put (MAP []) fs else Inr (In_Map n [] None # fs))"
| "pack_step (Pack_Int i) fs = pack_put (int_object i) fs"
| "pack_step (Pack_Uint64 w) fs = pack_put (POSITIVE_INTEGER w) fs"
| "pack_step (Pack_String s) fs = pack_put (STR_OBJ s) fs"
| "pack_step (Pack_Object v) fs = pack_put v fs"

fun pack_run :: "pack_frame list \<Rightarrow> buffer \<Rightarrow> msgobj option" where
  "pack_run fs [] = None"
| "pack_run fs (t # ts) =
     (case pack_step t fs of
        Inl v \<Rightarrow> (if ts = [] then Some v else None)
      | Inr fs' \<Rightarrow> pack_run fs' ts)"

definition packed_object :: "buffer \<Rightarrow> msgobj option" where
  "packed_object b = pack_run [] b"

section \<open>The library parameter\<close>

text \<open>
  A conversion that returns \<open>None\<close> throws \<open>msgpack::type_error\<close>.  \<open>unpack_next\<close> is
  \<open>unpacker::next\<close> on the bytes received and not yet consumed: \<open>Ok None\<close> when they hold no
  complete object, \<open>Ok (Some (v, rest))\<close> for the first object and the bytes after it.
\<close>

record msgpack =
  as_uint64 :: "msgobj \<Rightarrow> u64 option"
  as_int :: "msgobj \<Rightarrow> int option"
  as_string :: "msgobj \<Rightarrow> string option"
  as_string_map :: "msgobj \<Rightarrow> (string \<rightharpoonup> string) option"
  encode :: "buffer \<Rightarrow> byte list"
  unpack_next :: "byte list \<Rightarrow> (msgobj \<times> byte list) option result"
  library_what :: "library_exn \<Rightarrow> string"

definition msgpack_ok :: "msgpack \<Rightarrow> bool" where
  "msgpack_ok mp \<longleftrightarrow>
     (\<forall>n. as_uint64 mp (POSITIVE_INTEGER n) = Some n) \<and>
     (\<forall>n. as_int mp (POSITIVE_INTEGER n) = (if uint n < 2 ^ 31 then Some (uint n) else None)) \<and>
     (\<forall>s. as_string mp (STR_OBJ s) = Some s)"

text \<open>The decoder consumes at least one byte for every object it returns.\<close>

definition unpack_consumes :: "msgpack \<Rightarrow> bool" where
  "unpack_consumes mp \<longleftrightarrow>
     (\<forall>b v r. unpack_next mp b = Ok (Some (v, r)) \<longrightarrow> length r < length b)"

lemma msgpack_conversions:
  assumes "msgpack_ok mp"
  shows "as_uint64 mp (POSITIVE_INTEGER n) = Some n"
    and "as_int mp (POSITIVE_INTEGER n) = (if uint n < 2 ^ 31 then Some (uint n) else None)"
    and "as_string mp (STR_OBJ s) = Some s"
  using assms unfolding msgpack_ok_def by blast+

declare msgpack_conversions [simp]

section \<open>A concrete instance for witnesses\<close>

fun example_uint64 :: "msgobj \<Rightarrow> u64 option" where
  "example_uint64 (POSITIVE_INTEGER n) = Some n"
| "example_uint64 _ = None"

fun example_int :: "msgobj \<Rightarrow> int option" where
  "example_int (POSITIVE_INTEGER n) = (if uint n < 2 ^ 31 then Some (uint n) else None)"
| "example_int _ = None"

fun example_string :: "msgobj \<Rightarrow> string option" where
  "example_string (STR_OBJ s) = Some s"
| "example_string _ = None"

fun example_pairs :: "(msgobj \<times> msgobj) list \<Rightarrow> (string \<rightharpoonup> string) option" where
  "example_pairs [] = Some Map.empty"
| "example_pairs ((STR_OBJ k, STR_OBJ v) # kvs) =
     (case example_pairs kvs of None \<Rightarrow> None | Some m \<Rightarrow> Some (m(k \<mapsto> v)))"
| "example_pairs (_ # kvs) = None"

fun example_string_map :: "msgobj \<Rightarrow> (string \<rightharpoonup> string) option" where
  "example_string_map (MAP kvs) = example_pairs kvs"
| "example_string_map _ = None"

text \<open>One byte per packer call, and one byte per decoded object: a small nonnegative integer.\<close>

definition example_encode :: "buffer \<Rightarrow> byte list" where
  "example_encode b = map (\<lambda>_. 0) b"

fun example_next :: "byte list \<Rightarrow> (msgobj \<times> byte list) option result" where
  "example_next [] = Ok None"
| "example_next (b # bs) =
     (if b = 0xC1 then Throw (Library_Error Msgpack_Parse_Error)
      else Ok (Some (ARRAY [POSITIVE_INTEGER (ucast b)], bs)))"

definition msgpack_example :: msgpack where
  "msgpack_example =
     \<lparr>as_uint64 = example_uint64, as_int = example_int, as_string = example_string,
      as_string_map = example_string_map, encode = example_encode,
      unpack_next = example_next, library_what = (\<lambda>_. ''std::exception'')\<rparr>"

lemma msgpack_example_simps [simp]:
  "as_uint64 msgpack_example = example_uint64"
  "as_int msgpack_example = example_int"
  "as_string msgpack_example = example_string"
  "as_string_map msgpack_example = example_string_map"
  "encode msgpack_example = example_encode"
  "unpack_next msgpack_example = example_next"
  "library_what msgpack_example = (\<lambda>_. ''std::exception'')"
  by (simp_all add: msgpack_example_def)

lemma msgpack_example_ok [simp]: "msgpack_ok msgpack_example"
  by (simp add: msgpack_ok_def)

lemma example_next_shorter: "example_next b = Ok (Some (v, r)) \<Longrightarrow> length r < length b"
  by (cases b) (auto split: if_splits)

lemma msgpack_example_consumes [simp]: "unpack_consumes msgpack_example"
  by (simp add: unpack_consumes_def example_next_shorter)

end
