(* ===== verification/Arguments.thy ===== *)
theory Arguments
  imports Msgpack
begin

text \<open>
  \<open>autobahn/wamp_arguments.hpp\<close> and the accessor interface that \<open>wamp_event\<close>,
  \<open>wamp_call_result\<close> and \<open>wamp_invocation\<close> share: positional arguments by index, keyword
  arguments by a linear scan over the map, each with an overload for \<open>std::string\<close> and one for
  \<open>char*\<close> keys.  The locale \<open>argument_holder\<close> states what a client may rely on; each of the
  three classes interprets it on its own accessors.
\<close>

definition EMPTY_ARGUMENTS :: msgobj where
  "EMPTY_ARGUMENTS = ARRAY []"

definition EMPTY_KW_ARGUMENTS :: msgobj where
  "EMPTY_KW_ARGUMENTS = MAP []"

definition type_error :: exn where
  "type_error = Library_Error Msgpack_Type_Error"

section \<open>The scan for a keyword\<close>

text \<open>
  The loop \<open>for (i = 0; i < via.map.size; ++i)\<close> of the keyed accessors: the first entry whose
  key is a string equal to \<open>key\<close> is converted and returned; \<open>None\<close> when the loop ends.
  \<open>conv\<close> is the conversion \<open>as<T>()\<close>.
\<close>

fun kw_scan :: "(msgobj \<Rightarrow> 'a option) \<Rightarrow> string \<Rightarrow> (msgobj \<times> msgobj) list \<Rightarrow> 'a result option" where
  "kw_scan conv key [] = None"
| "kw_scan conv key ((k, v) # kvs) =
     (if k = STR_OBJ key then Some (or_throw (conv v) type_error) else kw_scan conv key kvs)"

text \<open>
  The \<open>char*\<close> overloads measure the key with \<open>strlen\<close>: the bytes before the first NUL.
\<close>

definition c_string :: "string \<Rightarrow> string" where
  "c_string p = takeWhile (\<lambda>c. c \<noteq> char_of (0 :: nat)) p"

definition nul_free :: "string \<Rightarrow> bool" where
  "nul_free s \<longleftrightarrow> char_of (0 :: nat) \<notin> set s"

lemma c_string_nul_free: "nul_free s \<Longrightarrow> c_string s = s"
  unfolding c_string_def nul_free_def by (rule takeWhile_eq_all_conv [THEN iffD2]) auto

text \<open>
  The outcome of \<open>kw_argument_or\<close>: a returned value, a thrown value of the argument's own type
  (the \<open>char*\<close> overload executes \<open>throw fallback\<close>), or an exception.
\<close>

datatype 'a kw_outcome =
    Returned 'a
  | Thrown_Value 'a
  | Raised exn

fun kw_returned :: "'a result \<Rightarrow> 'a kw_outcome" where
  "kw_returned (Ok v) = Returned v"
| "kw_returned (Throw e) = Raised e"
| "kw_returned Undefined_Behaviour = Raised type_error"

definition no_argument :: "nat \<Rightarrow> exn" where
  "no_argument i = Out_Of_Range (''no argument at index '' @ decimal i)"

definition no_keyword :: "string \<Rightarrow> exn" where
  "no_keyword key = Out_Of_Range (key @ '' keyword argument doesn't exist'')"

section \<open>Specification of the scan\<close>

text \<open>The entries with string keys, as an association list; other entries are not addressable.\<close>

fun string_entries :: "(msgobj \<times> msgobj) list \<Rightarrow> (string \<times> msgobj) list" where
  "string_entries [] = []"
| "string_entries ((STR_OBJ k, v) # kvs) = (k, v) # string_entries kvs"
| "string_entries (_ # kvs) = string_entries kvs"

lemma kw_scan_eq:
  "kw_scan conv key kvs =
     map_option (\<lambda>v. or_throw (conv v) type_error) (map_of (string_entries kvs) key)"
  by (induction kvs rule: string_entries.induct) auto

lemma kw_scan_not_UB: "kw_scan conv key kvs = Some r \<Longrightarrow> r \<noteq> Undefined_Behaviour"
  by (auto simp: kw_scan_eq)

lemma string_entries_append [simp]:
  "string_entries (kvs @ kvs') = string_entries kvs @ string_entries kvs'"
  by (induction kvs rule: string_entries.induct) auto

section \<open>The accessor contract\<close>

locale argument_holder =
  fixes args_of :: "'c \<Rightarrow> msgobj"
    and kw_of :: "'c \<Rightarrow> msgobj"
    and n_args :: "'c \<Rightarrow> nat"
    and n_kw :: "'c \<Rightarrow> nat"
    and get_arg :: "(msgobj \<Rightarrow> 'a option) \<Rightarrow> 'c \<Rightarrow> nat \<Rightarrow> 'a result"
    and get_kw :: "(msgobj \<Rightarrow> 'a option) \<Rightarrow> 'c \<Rightarrow> string \<Rightarrow> 'a result"
    and get_kw_c :: "(msgobj \<Rightarrow> 'a option) \<Rightarrow> 'c \<Rightarrow> string \<Rightarrow> 'a result"
    and get_kw_or :: "(msgobj \<Rightarrow> 'a option) \<Rightarrow> 'c \<Rightarrow> string \<Rightarrow> 'a \<Rightarrow> 'a kw_outcome"
    and get_kw_or_c :: "(msgobj \<Rightarrow> 'a option) \<Rightarrow> 'c \<Rightarrow> string \<Rightarrow> 'a \<Rightarrow> 'a kw_outcome"
  assumes args_count: "args_of c = ARRAY xs \<Longrightarrow> n_args c = length xs"
    and args_count_other: "\<not> is_array (args_of c) \<Longrightarrow> n_args c = 0"
    and kw_count: "kw_of c = MAP kvs \<Longrightarrow> n_kw c = length kvs"
    and arg_in_range: "args_of c = ARRAY xs \<Longrightarrow> i < length xs \<Longrightarrow>
      get_arg conv c i = or_throw (conv (xs ! i)) type_error"
    and arg_out_of_range: "n_args c \<le> i \<Longrightarrow> get_arg conv c i = Throw (no_argument i)"
    and kw_lookup: "kw_of c = MAP kvs \<Longrightarrow>
      get_kw conv c key =
        (case map_of (string_entries kvs) key of
           Some v \<Rightarrow> or_throw (conv v) type_error
         | None \<Rightarrow> Throw (no_keyword key))"
    and kw_lookup_c: "nul_free key \<Longrightarrow> get_kw_c conv c key = get_kw conv c key"
    and kw_or_lookup: "kw_of c = MAP kvs \<Longrightarrow>
      get_kw_or conv c key d =
        (case map_of (string_entries kvs) key of
           Some v \<Rightarrow> kw_returned (or_throw (conv v) type_error)
         | None \<Rightarrow> Returned d)"
    and kw_or_lookup_c: "kw_of c = MAP kvs \<Longrightarrow> nul_free key \<Longrightarrow>
      get_kw_or_c conv c key d =
        (case map_of (string_entries kvs) key of
           Some v \<Rightarrow> kw_returned (or_throw (conv v) type_error)
         | None \<Rightarrow> Thrown_Value d)"
begin

lemma arg_in_bounds_iff:
  "get_arg conv c i = Throw (no_argument i) \<longleftrightarrow> n_args c \<le> i"
proof
  assume thrown: "get_arg conv c i = Throw (no_argument i)"
  show "n_args c \<le> i"
  proof (rule ccontr)
    assume less: "\<not> n_args c \<le> i"
    then obtain xs where xs: "args_of c = ARRAY xs"
      using args_count_other [of c] by (auto simp: is_array_iff)
    with less have "get_arg conv c i = or_throw (conv (xs ! i)) type_error"
      by (simp add: args_count arg_in_range)
    with thrown show False
      by (auto simp: or_throw_def no_argument_def type_error_def split: option.splits)
  qed
qed (rule arg_out_of_range)

lemma arg_value_iff:
  "get_arg conv c i = Ok v \<longleftrightarrow>
     (\<exists>xs. args_of c = ARRAY xs \<and> i < length xs \<and> conv (xs ! i) = Some v)"
proof (cases "n_args c \<le> i")
  case True
  then show ?thesis by (auto simp: arg_out_of_range args_count)
next
  case False
  then obtain xs where "args_of c = ARRAY xs"
    using args_count_other [of c] by (auto simp: is_array_iff)
  with False show ?thesis by (simp add: arg_in_range args_count)
qed

text \<open>A present keyword wins over the fallback in both overloads.\<close>

lemma kw_or_present:
  assumes "kw_of c = MAP kvs" and "get_kw conv c key = Ok v"
  shows "get_kw_or conv c key d = Returned v"
  using assms by (auto simp: kw_lookup kw_or_lookup split: option.splits)

lemma kw_or_missing:
  assumes "kw_of c = MAP kvs" and "map_of (string_entries kvs) key = None"
  shows "get_kw_or conv c key d = Returned d" and "get_kw conv c key = Throw (no_keyword key)"
  using assms by (simp_all add: kw_lookup kw_or_lookup)

lemma kw_or_missing_c:
  assumes "kw_of c = MAP kvs" and "map_of (string_entries kvs) key = None" and "nul_free key"
  shows "get_kw_or_c conv c key d = Thrown_Value d"
  using assms by (simp add: kw_or_lookup_c)

lemma kw_first_match:
  assumes "kw_of c = MAP (kvs @ (STR_OBJ key, v) # kvs')"
    and "map_of (string_entries kvs) key = None" and "conv v = Some x"
  shows "get_kw conv c key = Ok x"
  using assms by (simp add: kw_lookup map_add_def)

end

end
