(* ===== verification/Call_Result.thy ===== *)
theory Call_Result
  imports Arguments
begin

text \<open>
  \<open>class wamp_call_result\<close> (\<open>autobahn/wamp_call_result.hpp\<close>, \<open>.ipp\<close>).  The object owns a
  msgpack zone (\<open>m_zone\<close>, a unique pointer) and holds two \<open>msgpack::object\<close>s, which are
  references into some zone or into static storage.  Copies are deep, into a fresh zone; moves
  transfer the zone and leave the source with the static empty objects.  Objects live in a store
  indexed by address, so that self-assignment and the lifetime of zones can be stated: reading a
  reference whose zone was freed is undefined behaviour.
\<close>

section \<open>The object and its accessors\<close>

text \<open>A \<open>msgpack::object\<close> with the zone its payload lives in; \<open>None\<close> is static storage.\<close>

datatype obj_ref = Obj_Ref (home: "nat option") (obj: msgobj)

record wamp_call_result =
  cr_arguments :: obj_ref
  cr_kw_arguments :: obj_ref
  cr_zone :: "nat option"

definition static_arguments :: obj_ref where
  "static_arguments = Obj_Ref None EMPTY_ARGUMENTS"

definition static_kw_arguments :: obj_ref where
  "static_kw_arguments = Obj_Ref None EMPTY_KW_ARGUMENTS"

definition new_call_result :: wamp_call_result where
  "new_call_result =
     \<lparr>cr_arguments = static_arguments, cr_kw_arguments = static_kw_arguments, cr_zone = None\<rparr>"

definition call_result_with_zone :: "nat option \<Rightarrow> wamp_call_result" where
  "call_result_with_zone zone =
     \<lparr>cr_arguments = static_arguments, cr_kw_arguments = static_kw_arguments, cr_zone = zone\<rparr>"

definition call_result_set_arguments :: "obj_ref \<Rightarrow> wamp_call_result \<Rightarrow> wamp_call_result" where
  "call_result_set_arguments a r = r\<lparr>cr_arguments := a\<rparr>"

definition call_result_set_kw_arguments :: "obj_ref \<Rightarrow> wamp_call_result \<Rightarrow> wamp_call_result" where
  "call_result_set_kw_arguments a r = r\<lparr>cr_kw_arguments := a\<rparr>"

definition call_result_number_of_arguments :: "wamp_call_result \<Rightarrow> nat" where
  "call_result_number_of_arguments r =
     (case obj (cr_arguments r) of ARRAY xs \<Rightarrow> length xs | _ \<Rightarrow> 0)"

definition call_result_number_of_kw_arguments :: "wamp_call_result \<Rightarrow> nat" where
  "call_result_number_of_kw_arguments r =
     (case obj (cr_kw_arguments r) of MAP kvs \<Rightarrow> length kvs | _ \<Rightarrow> 0)"

definition call_result_argument ::
    "(msgobj \<Rightarrow> 'a option) \<Rightarrow> wamp_call_result \<Rightarrow> nat \<Rightarrow> 'a result" where
  "call_result_argument conv r index =
     (case obj (cr_arguments r) of
        ARRAY xs \<Rightarrow> (if length xs \<le> index then Throw (no_argument index)
                     else or_throw (conv (xs ! index)) type_error)
      | _ \<Rightarrow> Throw (no_argument index))"

definition call_result_arguments_as :: "(msgobj \<Rightarrow> 'a option) \<Rightarrow> wamp_call_result \<Rightarrow> 'a result" where
  "call_result_arguments_as conv r = or_throw (conv (obj (cr_arguments r))) type_error"

definition call_result_kw_argument ::
    "(msgobj \<Rightarrow> 'a option) \<Rightarrow> wamp_call_result \<Rightarrow> string \<Rightarrow> 'a result" where
  "call_result_kw_argument conv r key =
     (case obj (cr_kw_arguments r) of
        MAP kvs \<Rightarrow> (case kw_scan conv key kvs of
                      Some v \<Rightarrow> v
                    | None \<Rightarrow> Throw (no_keyword key))
      | _ \<Rightarrow> Throw type_error)"

definition call_result_kw_argument_c ::
    "(msgobj \<Rightarrow> 'a option) \<Rightarrow> wamp_call_result \<Rightarrow> string \<Rightarrow> 'a result" where
  "call_result_kw_argument_c conv r key =
     (case obj (cr_kw_arguments r) of
        MAP kvs \<Rightarrow> (case kw_scan conv (c_string key) kvs of
                      Some v \<Rightarrow> v
                    | None \<Rightarrow> Throw (no_keyword (c_string key)))
      | _ \<Rightarrow> Throw type_error)"

definition call_result_kw_argument_or ::
    "(msgobj \<Rightarrow> 'a option) \<Rightarrow> wamp_call_result \<Rightarrow> string \<Rightarrow> 'a \<Rightarrow> 'a kw_outcome" where
  "call_result_kw_argument_or conv r key fallback =
     (case obj (cr_kw_arguments r) of
        MAP kvs \<Rightarrow> (case kw_scan conv key kvs of
                      Some v \<Rightarrow> kw_returned v
                    | None \<Rightarrow> Returned fallback)
      | _ \<Rightarrow> Raised type_error)"

definition call_result_kw_argument_or_c ::
    "(msgobj \<Rightarrow> 'a option) \<Rightarrow> wamp_call_result \<Rightarrow> string \<Rightarrow> 'a \<Rightarrow> 'a kw_outcome" where
  "call_result_kw_argument_or_c conv r key fallback =
     (case obj (cr_kw_arguments r) of
        MAP kvs \<Rightarrow> (case kw_scan conv (c_string key) kvs of
                      Some v \<Rightarrow> kw_returned v
                    | None \<Rightarrow> Thrown_Value fallback)
      | _ \<Rightarrow> Raised type_error)"

definition call_result_kw_arguments_as ::
    "(msgobj \<Rightarrow> 'a option) \<Rightarrow> wamp_call_result \<Rightarrow> 'a result" where
  "call_result_kw_arguments_as conv r = or_throw (conv (obj (cr_kw_arguments r))) type_error"

interpretation call_result: argument_holder "\<lambda>r. obj (cr_arguments r)" "\<lambda>r. obj (cr_kw_arguments r)"
  call_result_number_of_arguments call_result_number_of_kw_arguments call_result_argument
  call_result_kw_argument call_result_kw_argument_c
  call_result_kw_argument_or call_result_kw_argument_or_c
  by unfold_locales
    (auto simp: call_result_number_of_arguments_def call_result_number_of_kw_arguments_def
       call_result_argument_def call_result_kw_argument_def call_result_kw_argument_c_def
       call_result_kw_argument_or_def call_result_kw_argument_or_c_def kw_scan_eq
       c_string_nul_free split: msgobj.splits option.splits)

section \<open>Lifetime: construction, copy, move, destruction\<close>

record result_store =
  results :: "nat \<rightharpoonup> wamp_call_result"
  zone_live :: "nat \<Rightarrow> bool"
  zone_next :: nat

definition empty_store :: result_store where
  "empty_store = \<lparr>results = Map.empty, zone_live = (\<lambda>_. False), zone_next = 0\<rparr>"

definition new_zone :: "result_store \<Rightarrow> nat \<times> result_store" where
  "new_zone st =
     (zone_next st,
      st\<lparr>zone_live := (zone_live st)(zone_next st := True), zone_next := Suc (zone_next st)\<rparr>)"

definition free_zone :: "nat option \<Rightarrow> result_store \<Rightarrow> result_store" where
  "free_zone z st =
     (case z of None \<Rightarrow> st | Some n \<Rightarrow> st\<lparr>zone_live := (zone_live st)(n := False)\<rparr>)"

text \<open>Following a reference: \<open>None\<close> when its zone has been freed.\<close>

definition deref :: "result_store \<Rightarrow> obj_ref \<Rightarrow> msgobj option" where
  "deref st r =
     (case home r of
        None \<Rightarrow> Some (obj r)
      | Some z \<Rightarrow> (if zone_live st z then Some (obj r) else None))"

text \<open>\<open>msgpack::object(other, zone)\<close>: a deep copy into the zone.\<close>

definition clone_into :: "nat \<Rightarrow> wamp_call_result \<Rightarrow> nat \<Rightarrow> (result_store, unit) action" where
  "clone_into z other this st =
     (case (deref st (cr_arguments other), deref st (cr_kw_arguments other)) of
        (Some a, Some k) \<Rightarrow>
          (Ok (), st\<lparr>results := (results st)
             (this \<mapsto> \<lparr>cr_arguments = Obj_Ref (Some z) a, cr_kw_arguments = Obj_Ref (Some z) k,
                       cr_zone = Some z\<rparr>)\<rparr>)
      | _ \<Rightarrow> (Undefined_Behaviour, st))"

definition construct_default :: "nat \<Rightarrow> (result_store, unit) action" where
  "construct_default this st = (Ok (), st\<lparr>results := (results st)(this \<mapsto> new_call_result)\<rparr>)"

text \<open>
  The use in \<open>wamp_session::process_call_result\<close>: the zone of a freshly unpacked message is
  moved into a new result, and the message's argument objects, which live in that zone, are set.
\<close>

definition construct_from_message :: "nat \<Rightarrow> msgobj \<Rightarrow> msgobj \<Rightarrow> (result_store, unit) action" where
  "construct_from_message this a k st =
     (let (z, st1) = new_zone st;
          r = call_result_with_zone (Some z);
          r1 = call_result_set_arguments (Obj_Ref (Some z) a) r;
          r2 = call_result_set_kw_arguments (Obj_Ref (Some z) k) r1
      in (Ok (), st1\<lparr>results := (results st1)(this \<mapsto> r2)\<rparr>))"

definition construct_copy :: "nat \<Rightarrow> nat \<Rightarrow> (result_store, unit) action" where
  "construct_copy this other st =
     (case results st other of
        None \<Rightarrow> (Undefined_Behaviour, st)
      | Some r \<Rightarrow> (let (z, st1) = new_zone st in clone_into z r this st1))"

definition moved_from :: "wamp_call_result \<Rightarrow> wamp_call_result" where
  "moved_from r =
     r\<lparr>cr_arguments := static_arguments, cr_kw_arguments := static_kw_arguments, cr_zone := None\<rparr>"

definition construct_move :: "nat \<Rightarrow> nat \<Rightarrow> (result_store, unit) action" where
  "construct_move this other st =
     (case results st other of
        None \<Rightarrow> (Undefined_Behaviour, st)
      | Some r \<Rightarrow> (Ok (), st\<lparr>results := (results st)(this \<mapsto> r, other \<mapsto> moved_from r)\<rparr>))"

text \<open>
  \<open>operator=(const wamp_call_result&)\<close>: nothing for self-assignment; otherwise
  \<open>m_zone.reset(new zone)\<close> frees the zone this object owned before the copy is made.
\<close>

definition assign_copy :: "nat \<Rightarrow> nat \<Rightarrow> (result_store, unit) action" where
  "assign_copy this other st =
     (if this = other then (Ok (), st)
      else case (results st this, results st other) of
        (Some t, Some r) \<Rightarrow>
          (let (z, st1) = new_zone st;
               st2 = free_zone (cr_zone t) st1
           in clone_into z r this st2)
      | _ \<Rightarrow> (Undefined_Behaviour, st))"

definition assign_move :: "nat \<Rightarrow> nat \<Rightarrow> (result_store, unit) action" where
  "assign_move this other st =
     (if this = other then (Ok (), st)
      else case (results st this, results st other) of
        (Some t, Some r) \<Rightarrow>
          (Ok (), (free_zone (cr_zone t) st)
             \<lparr>results := (results st)(this \<mapsto> r, other \<mapsto> moved_from r)\<rparr>)
      | _ \<Rightarrow> (Undefined_Behaviour, st))"

definition destruct :: "nat \<Rightarrow> (result_store, unit) action" where
  "destruct this st =
     (case results st this of
        None \<Rightarrow> (Undefined_Behaviour, st)
      | Some t \<Rightarrow> (Ok (), (free_zone (cr_zone t) st)\<lparr>results := (results st)(this := None)\<rparr>))"

section \<open>No dangling references\<close>

text \<open>
  Each result's references point into static storage or into the zone it owns; owned zones are
  live and have one owner.
\<close>

definition refs_own :: "wamp_call_result \<Rightarrow> bool" where
  "refs_own r \<longleftrightarrow>
     home (cr_arguments r) \<in> {None, cr_zone r} \<and> home (cr_kw_arguments r) \<in> {None, cr_zone r}"

definition store_safe :: "result_store \<Rightarrow> bool" where
  "store_safe st \<longleftrightarrow>
     (\<forall>a r. results st a = Some r \<longrightarrow> refs_own r) \<and>
     (\<forall>a r z. results st a = Some r \<longrightarrow> cr_zone r = Some z \<longrightarrow> zone_live st z \<and> z < zone_next st) \<and>
     (\<forall>a b r r' z. results st a = Some r \<longrightarrow> results st b = Some r' \<longrightarrow>
        cr_zone r = Some z \<longrightarrow> cr_zone r' = Some z \<longrightarrow> a = b)"

lemma store_safe_refs: "store_safe st \<Longrightarrow> results st a = Some r \<Longrightarrow> refs_own r"
  unfolding store_safe_def by blast

lemma store_safe_live:
  "store_safe st \<Longrightarrow> results st a = Some r \<Longrightarrow> cr_zone r = Some z \<Longrightarrow>
   zone_live st z \<and> z < zone_next st"
  unfolding store_safe_def by blast

lemma store_safe_owner:
  "store_safe st \<Longrightarrow> results st a = Some r \<Longrightarrow> results st b = Some r' \<Longrightarrow>
   cr_zone r = Some z \<Longrightarrow> cr_zone r' = Some z \<Longrightarrow> a = b"
  unfolding store_safe_def by blast

lemma store_safeI:
  assumes "\<And>a r. results st a = Some r \<Longrightarrow> refs_own r"
    and "\<And>a r z. results st a = Some r \<Longrightarrow> cr_zone r = Some z \<Longrightarrow> zone_live st z \<and> z < zone_next st"
    and "\<And>a b r r' z. results st a = Some r \<Longrightarrow> results st b = Some r' \<Longrightarrow>
           cr_zone r = Some z \<Longrightarrow> cr_zone r' = Some z \<Longrightarrow> a = b"
  shows "store_safe st"
  using assms unfolding store_safe_def by blast

lemma deref_live:
  "home x = None \<or> (\<exists>z. home x = Some z \<and> zone_live st z) \<Longrightarrow> deref st x = Some (obj x)"
  by (auto simp: deref_def)

text \<open>The references of a safe store's result can be followed while its own zone is live.\<close>

lemma deref_own:
  assumes "refs_own r" and "\<And>z. cr_zone r = Some z \<Longrightarrow> zone_live st z"
  shows "deref st (cr_arguments r) = Some (obj (cr_arguments r))"
    and "deref st (cr_kw_arguments r) = Some (obj (cr_kw_arguments r))"
  using assms by (cases "cr_zone r"; auto simp: refs_own_def intro!: deref_live)+

lemma store_safe_empty [simp]: "store_safe empty_store"
  by (simp add: store_safe_def empty_store_def)

text \<open>The three ways an operation changes a store.\<close>

lemma store_safe_fresh_zone:
  assumes safe: "store_safe st"
    and own: "refs_own r" "cr_zone r = Some (zone_next st)"
  shows "store_safe (st\<lparr>results := (results st)(a \<mapsto> r),
           zone_live := (zone_live st)(zone_next st := True), zone_next := Suc (zone_next st)\<rparr>)"
proof (rule store_safeI, goal_cases)
  case (1 b s)
  with own store_safe_refs [OF safe] show ?case by (auto split: if_splits)
next
  case (2 b s z)
  with own store_safe_live [OF safe] show ?case by (fastforce split: if_splits)
next
  case (3 b c s s' z)
  with own store_safe_live [OF safe] store_safe_owner [OF safe] show ?case
    by (force split: if_splits)
qed

lemma store_safe_no_zone:
  assumes safe: "store_safe st" and own: "refs_own r" "cr_zone r = None"
  shows "store_safe (st\<lparr>results := (results st)(a \<mapsto> r)\<rparr>)"
proof (rule store_safeI, goal_cases)
  case (1 b s)
  with own store_safe_refs [OF safe] show ?case by (auto split: if_splits)
next
  case (2 b s z)
  with own store_safe_live [OF safe] show ?case by (fastforce split: if_splits)
next
  case (3 b c s s' z)
  with own store_safe_owner [OF safe] show ?case by (fastforce split: if_splits)
qed

lemma store_safe_free:
  assumes safe: "store_safe st" and a: "results st a = Some t"
  shows "store_safe ((free_zone (cr_zone t) st)\<lparr>results := (results st)(a := None)\<rparr>)"
proof (rule store_safeI, goal_cases)
  case (1 b s)
  with store_safe_refs [OF safe] show ?case by (auto split: if_splits)
next
  case (2 b s z)
  then have b: "results st b = Some s" "b \<noteq> a" by (auto split: if_splits)
  with 2 have "cr_zone t \<noteq> Some z" using store_safe_owner [OF safe a b(1)] by blast
  with store_safe_live [OF safe b(1)] 2 show ?case
    by (auto simp: free_zone_def split: option.splits)
next
  case (3 b c s s' z)
  with store_safe_owner [OF safe] show ?case by (fastforce split: if_splits)
qed

lemma refs_own_moved [simp]: "refs_own (moved_from r)" "cr_zone (moved_from r) = None"
  by (simp_all add: moved_from_def refs_own_def static_arguments_def static_kw_arguments_def)

lemma store_safe_transfer:
  assumes safe: "store_safe st" and r: "results st other = Some r" and neq: "this \<noteq> other"
    and free: "results st this = None"
  shows "store_safe (st\<lparr>results := (results st)(this \<mapsto> r, other \<mapsto> moved_from r)\<rparr>)"
proof (rule store_safeI, goal_cases)
  case (1 b s)
  with store_safe_refs [OF safe] r show ?case by (auto split: if_splits)
next
  case (2 b s z)
  with store_safe_live [OF safe] r show ?case by (fastforce split: if_splits)
next
  case (3 b c s s' z)
  with store_safe_owner [OF safe r] store_safe_owner [OF safe] free show ?case
    by (fastforce split: if_splits)
qed

section \<open>Sequences of operations\<close>

datatype result_op =
    Construct_Default nat
  | Construct_From_Message nat msgobj msgobj
  | Construct_Copy nat nat
  | Construct_Move nat nat
  | Assign_Copy nat nat
  | Assign_Move nat nat
  | Destruct nat

fun run_result_op :: "result_op \<Rightarrow> (result_store, unit) action" where
  "run_result_op (Construct_Default a) = construct_default a"
| "run_result_op (Construct_From_Message a x y) = construct_from_message a x y"
| "run_result_op (Construct_Copy a b) = construct_copy a b"
| "run_result_op (Construct_Move a b) = construct_move a b"
| "run_result_op (Assign_Copy a b) = assign_copy a b"
| "run_result_op (Assign_Move a b) = assign_move a b"
| "run_result_op (Destruct a) = destruct a"

text \<open>
  What the language asks of the caller: objects are constructed at unused addresses, and every
  other operation is applied to constructed objects.
\<close>

fun result_op_legal :: "result_op \<Rightarrow> result_store \<Rightarrow> bool" where
  "result_op_legal (Construct_Default a) st = (results st a = None)"
| "result_op_legal (Construct_From_Message a x y) st = (results st a = None)"
| "result_op_legal (Construct_Copy a b) st = (results st a = None \<and> results st b \<noteq> None)"
| "result_op_legal (Construct_Move a b) st = (results st a = None \<and> results st b \<noteq> None)"
| "result_op_legal (Assign_Copy a b) st = (results st a \<noteq> None \<and> results st b \<noteq> None)"
| "result_op_legal (Assign_Move a b) st = (results st a \<noteq> None \<and> results st b \<noteq> None)"
| "result_op_legal (Destruct a) st = (results st a \<noteq> None)"

fun run_result_ops :: "result_op list \<Rightarrow> (result_store, unit) action" where
  "run_result_ops [] st = (Ok (), st)"
| "run_result_ops (op # ops) st = and_then (run_result_op op) (run_result_ops ops) st"

fun result_ops_legal :: "result_op list \<Rightarrow> result_store \<Rightarrow> bool" where
  "result_ops_legal [] st = True"
| "result_ops_legal (op # ops) st =
     (result_op_legal op st \<and> result_ops_legal ops (snd (run_result_op op st)))"

definition cloned :: "nat \<Rightarrow> wamp_call_result \<Rightarrow> wamp_call_result" where
  "cloned z r =
     \<lparr>cr_arguments = Obj_Ref (Some z) (obj (cr_arguments r)),
      cr_kw_arguments = Obj_Ref (Some z) (obj (cr_kw_arguments r)), cr_zone = Some z\<rparr>"

lemma cloned_simps [simp]:
  "refs_own (cloned z r)" "cr_zone (cloned z r) = Some z"
  "obj (cr_arguments (cloned z r)) = obj (cr_arguments r)"
  "obj (cr_kw_arguments (cloned z r)) = obj (cr_kw_arguments r)"
  by (simp_all add: cloned_def refs_own_def)

lemma clone_into_eq:
  assumes "refs_own r" and "\<And>y. cr_zone r = Some y \<Longrightarrow> zone_live st y"
  shows "clone_into z r a st = (Ok (), st\<lparr>results := (results st)(a \<mapsto> cloned z r)\<rparr>)"
  by (simp add: clone_into_def deref_own [OF assms] cloned_def)

lemma construct_copy_eq:
  assumes safe: "store_safe st" and b: "results st b = Some r"
  shows "construct_copy a b st =
    (Ok (), st\<lparr>results := (results st)(a \<mapsto> cloned (zone_next st) r),
               zone_live := (zone_live st)(zone_next st := True),
               zone_next := Suc (zone_next st)\<rparr>)"
proof -
  have "zone_live (snd (new_zone st)) y" if "cr_zone r = Some y" for y
    using store_safe_live [OF safe b that] by (simp add: new_zone_def)
  then show ?thesis
    using b store_safe_refs [OF safe b]
    by (simp add: construct_copy_def new_zone_def clone_into_eq)
qed

lemma assign_copy_eq:
  assumes safe: "store_safe st" and a: "results st a = Some t" and b: "results st b = Some r"
    and neq: "a \<noteq> b"
  defines "st0 \<equiv> (free_zone (cr_zone t) st)\<lparr>results := (results st)(a := None)\<rparr>"
  shows "assign_copy a b st =
    (Ok (), st0\<lparr>results := (results st0)(a \<mapsto> cloned (zone_next st0) r),
               zone_live := (zone_live st0)(zone_next st0 := True),
               zone_next := Suc (zone_next st0)\<rparr>)"
proof -
  have next_zone: "zone_next st0 = zone_next st"
    by (simp add: st0_def free_zone_def split: option.splits)
  have t_less: "z \<noteq> zone_next st" if "cr_zone t = Some z" for z
    using store_safe_live [OF safe a that] by simp
  have live: "zone_live (free_zone (cr_zone t) (snd (new_zone st))) y" if "cr_zone r = Some y" for y
  proof -
    have "cr_zone t \<noteq> Some y" using store_safe_owner [OF safe a b _ that] neq by blast
    then show ?thesis
      using store_safe_live [OF safe b that] by (auto simp: new_zone_def free_zone_def split: option.splits)
  qed
  have "assign_copy a b st =
      clone_into (zone_next st) r a (free_zone (cr_zone t) (snd (new_zone st)))"
    using a b neq by (simp add: assign_copy_def new_zone_def)
  also have "\<dots> = (Ok (), (free_zone (cr_zone t) (snd (new_zone st)))
      \<lparr>results := (results st)(a \<mapsto> cloned (zone_next st) r)\<rparr>)"
    using clone_into_eq [OF store_safe_refs [OF safe b] live]
    by (auto simp: new_zone_def free_zone_def split: option.splits)
  finally show ?thesis
    using t_less next_zone
    by (auto simp: st0_def new_zone_def free_zone_def fun_upd_twist split: option.splits)
qed

lemma run_result_op_safe:
  assumes safe: "store_safe st" and legal: "result_op_legal op st"
  shows "\<exists>st'. run_result_op op st = (Ok (), st') \<and> store_safe st'"
proof (cases op)
  case (Construct_Default a)
  then show ?thesis
    using store_safe_no_zone [OF safe, of new_call_result a]
    by (simp add: construct_default_def new_call_result_def refs_own_def static_arguments_def
        static_kw_arguments_def)
next
  case (Construct_From_Message a x y)
  define r where "r = \<lparr>cr_arguments = Obj_Ref (Some (zone_next st)) x,
    cr_kw_arguments = Obj_Ref (Some (zone_next st)) y, cr_zone = Some (zone_next st)\<rparr>"
  have "refs_own r" "cr_zone r = Some (zone_next st)" by (simp_all add: r_def refs_own_def)
  from store_safe_fresh_zone [OF safe this, of a] Construct_From_Message show ?thesis
    by (cases st) (simp add: construct_from_message_def new_zone_def call_result_with_zone_def r_def
        call_result_set_arguments_def call_result_set_kw_arguments_def)
next
  case (Construct_Copy a b)
  with legal obtain r where "results st b = Some r" by auto
  from construct_copy_eq [OF safe this, of a] Construct_Copy show ?thesis
    using store_safe_fresh_zone [OF safe, of "cloned (zone_next st) r"] by simp
next
  case (Construct_Move a b)
  with legal obtain r where r: "results st b = Some r" "results st a = None" by auto
  then have "a \<noteq> b" by auto
  from store_safe_transfer [OF safe r(1) this r(2)] r Construct_Move show ?thesis
    by (simp add: construct_move_def)
next
  case (Assign_Copy a b)
  show ?thesis
  proof (cases "a = b")
    case True
    with safe Assign_Copy show ?thesis by (simp add: assign_copy_def)
  next
    case False
    with legal Assign_Copy obtain t r where tr: "results st a = Some t" "results st b = Some r"
      by auto
    show ?thesis
      using assign_copy_eq [OF safe tr False] Assign_Copy
        store_safe_fresh_zone [OF store_safe_free [OF safe tr(1)],
          of "cloned (zone_next (free_zone (cr_zone t) st)) r" a]
      by simp
  qed
next
  case (Assign_Move a b)
  show ?thesis
  proof (cases "a = b")
    case True
    with safe Assign_Move show ?thesis by (simp add: assign_move_def)
  next
    case False
    with legal Assign_Move obtain t r where tr: "results st a = Some t" "results st b = Some r" by auto
    have "store_safe ((free_zone (cr_zone t) st)
        \<lparr>results := ((results st)(a := None))(a \<mapsto> r, b \<mapsto> moved_from r)\<rparr>)"
      using store_safe_transfer [OF store_safe_free [OF safe tr(1)], of b r a] tr False by simp
    with tr False Assign_Move show ?thesis by (simp add: assign_move_def)
  qed
next
  case (Destruct a)
  with legal obtain t where "results st a = Some t" by auto
  with store_safe_free [OF safe this] Destruct show ?thesis by (simp add: destruct_def)
qed

lemma run_result_ops_safe:
  "store_safe st \<Longrightarrow> result_ops_legal ops st \<Longrightarrow>
   \<exists>st'. run_result_ops ops st = (Ok (), st') \<and> store_safe st'"
proof (induction ops arbitrary: st)
  case (Cons op ops)
  then obtain st' where "run_result_op op st = (Ok (), st')" "store_safe st'"
    using run_result_op_safe by fastforce
  with Cons show ?case by (simp add: action_defs)
qed simp

section \<open>No leaks\<close>

text \<open>Every live zone has an owner.\<close>

definition zones_owned :: "result_store \<Rightarrow> bool" where
  "zones_owned st \<longleftrightarrow> (\<forall>z. zone_live st z \<longrightarrow> (\<exists>a r. results st a = Some r \<and> cr_zone r = Some z))"

lemma zone_owner:
  "zones_owned st \<Longrightarrow> zone_live st z \<Longrightarrow> \<exists>a r. results st a = Some r \<and> cr_zone r = Some z"
  by (simp add: zones_owned_def)

lemma zones_owned_put:
  assumes "zones_owned st" and "results st a = None"
  shows "zones_owned (st\<lparr>results := (results st)(a \<mapsto> r)\<rparr>)"
  unfolding zones_owned_def
proof (intro allI impI)
  fix z assume "zone_live (st\<lparr>results := (results st)(a \<mapsto> r)\<rparr>) z"
  then have "zone_live st z" by simp
  then obtain c r' where "results st c = Some r'" "cr_zone r' = Some z"
    using zone_owner [OF assms(1)] by blast
  moreover from this assms(2) have "c \<noteq> a" by auto
  ultimately show "\<exists>c r'. results (st\<lparr>results := (results st)(a \<mapsto> r)\<rparr>) c = Some r' \<and> cr_zone r' = Some z"
    by (intro exI [of _ c] exI [of _ r']) simp
qed

lemma zones_owned_put_fresh:
  assumes "zones_owned st" and "results st a = None" and "cr_zone r = Some (zone_next st)"
  shows "zones_owned (st\<lparr>results := (results st)(a \<mapsto> r),
      zone_live := (zone_live st)(zone_next st := True), zone_next := Suc (zone_next st)\<rparr>)"
  using zones_owned_put [OF assms(1,2), of r] assms(3) by (auto simp: zones_owned_def)

lemma zones_owned_free:
  assumes "zones_owned st" and "results st a = Some t"
  shows "zones_owned ((free_zone (cr_zone t) st)\<lparr>results := (results st)(a := None)\<rparr>)"
proof -
  have "\<exists>b r. b \<noteq> a \<and> results st b = Some r \<and> cr_zone r = Some z"
    if "zone_live st z" "cr_zone t \<noteq> Some z" for z
    using assms that by (metis option.inject zones_owned_def)
  then show ?thesis by (fastforce simp: zones_owned_def free_zone_def split: option.splits if_splits)
qed

lemma zones_owned_transfer:
  assumes "zones_owned st" and "results st a = None" and "results st b = Some r"
  shows "zones_owned (st\<lparr>results := (results st)(a \<mapsto> r, b \<mapsto> moved_from r)\<rparr>)"
proof -
  have "\<exists>c r'. ((results st)(a \<mapsto> r, b \<mapsto> moved_from r)) c = Some r' \<and> cr_zone r' = Some z"
    if live: "zone_live st z" for z
  proof -
    obtain c r' where c: "results st c = Some r'" "cr_zone r' = Some z"
      using zone_owner [OF assms(1) live] by blast
    show ?thesis
    proof (cases "c = b")
      case True
      with c assms have "((results st)(a \<mapsto> r, b \<mapsto> moved_from r)) a = Some r \<and> cr_zone r = Some z"
        by auto
      then show ?thesis by blast
    next
      case False
      with c assms have "((results st)(a \<mapsto> r, b \<mapsto> moved_from r)) c = Some r' \<and> cr_zone r' = Some z"
        by auto
      then show ?thesis by blast
    qed
  qed
  then show ?thesis by (simp add: zones_owned_def)
qed

lemma run_result_op_owned:
  assumes safe: "store_safe st" and owned: "zones_owned st" and legal: "result_op_legal op st"
  shows "zones_owned (snd (run_result_op op st))"
proof (cases op)
  case (Construct_Default a)
  with legal show ?thesis by (simp add: construct_default_def zones_owned_put [OF owned])
next
  case (Construct_From_Message a x y)
  define r where "r = \<lparr>cr_arguments = Obj_Ref (Some (zone_next st)) x,
    cr_kw_arguments = Obj_Ref (Some (zone_next st)) y, cr_zone = Some (zone_next st)\<rparr>"
  from legal Construct_From_Message have "results st a = None" by simp
  from zones_owned_put_fresh [OF owned this, of r] Construct_From_Message show ?thesis
    by (cases st) (simp add: construct_from_message_def new_zone_def call_result_with_zone_def r_def
        call_result_set_arguments_def call_result_set_kw_arguments_def)
next
  case (Construct_Copy a b)
  with legal obtain r where "results st b = Some r" "results st a = None" by auto
  with Construct_Copy show ?thesis
    by (simp add: construct_copy_eq [OF safe] zones_owned_put_fresh [OF owned])
next
  case (Construct_Move a b)
  with legal obtain r where "results st b = Some r" "results st a = None" by auto
  with Construct_Move show ?thesis
    by (simp add: construct_move_def zones_owned_transfer [OF owned])
next
  case (Assign_Copy a b)
  show ?thesis
  proof (cases "a = b")
    case False
    with legal Assign_Copy obtain t r where tr: "results st a = Some t" "results st b = Some r"
      by auto
    show ?thesis
      using assign_copy_eq [OF safe tr False] Assign_Copy
        zones_owned_put_fresh [OF zones_owned_free [OF owned tr(1)], of a]
      by simp
  qed (use owned Assign_Copy in \<open>simp add: assign_copy_def\<close>)
next
  case (Assign_Move a b)
  show ?thesis
  proof (cases "a = b")
    case False
    with legal Assign_Move obtain t r where tr: "results st a = Some t" "results st b = Some r" by auto
    have "zones_owned ((free_zone (cr_zone t) st)
        \<lparr>results := ((results st)(a := None))(a \<mapsto> r, b \<mapsto> moved_from r)\<rparr>)"
      using zones_owned_transfer [OF zones_owned_free [OF owned tr(1)], of a b r] tr False by simp
    with tr False Assign_Move show ?thesis by (simp add: assign_move_def)
  qed (use owned Assign_Move in \<open>simp add: assign_move_def\<close>)
next
  case (Destruct a)
  with legal obtain t where "results st a = Some t" by auto
  with zones_owned_free [OF owned this] Destruct show ?thesis by (simp add: destruct_def)
qed

lemma run_result_ops_owned:
  "store_safe st \<Longrightarrow> zones_owned st \<Longrightarrow> result_ops_legal ops st \<Longrightarrow>
   zones_owned (snd (run_result_ops ops st))"
proof (induction ops arbitrary: st)
  case (Cons op ops)
  then obtain st' where op: "run_result_op op st = (Ok (), st')" and "store_safe st'"
    using run_result_op_safe by fastforce
  moreover from Cons op have "zones_owned st'" using run_result_op_owned [of st op] by simp
  ultimately show ?case using Cons by (simp add: action_defs)
qed simp

end
