(* ===== verification/Event.thy ===== *)
theory Event
  imports Arguments
begin

text \<open>
  \<open>class wamp_event\<close> (\<open>autobahn/wamp_event.hpp\<close>, \<open>.ipp\<close>): the positional and keyword
  payload of a received event, and its accessors.  The interpretation \<open>event\<close> discharges the
  accessor contract.
\<close>

record wamp_event =
  ev_arguments :: msgobj
  ev_kw_arguments :: msgobj

definition new_event :: wamp_event where
  "new_event = \<lparr>ev_arguments = EMPTY_ARGUMENTS, ev_kw_arguments = EMPTY_KW_ARGUMENTS\<rparr>"

definition event_number_of_arguments :: "wamp_event \<Rightarrow> nat" where
  "event_number_of_arguments ev = (case ev_arguments ev of ARRAY xs \<Rightarrow> length xs | _ \<Rightarrow> 0)"

definition event_number_of_kw_arguments :: "wamp_event \<Rightarrow> nat" where
  "event_number_of_kw_arguments ev = (case ev_kw_arguments ev of MAP kvs \<Rightarrow> length kvs | _ \<Rightarrow> 0)"

definition event_argument :: "(msgobj \<Rightarrow> 'a option) \<Rightarrow> wamp_event \<Rightarrow> nat \<Rightarrow> 'a result" where
  "event_argument conv ev index =
     (case ev_arguments ev of
        ARRAY xs \<Rightarrow> (if length xs \<le> index then Throw (no_argument index)
                     else or_throw (conv (xs ! index)) type_error)
      | _ \<Rightarrow> Throw (no_argument index))"

definition event_arguments_as :: "(msgobj \<Rightarrow> 'a option) \<Rightarrow> wamp_event \<Rightarrow> 'a result" where
  "event_arguments_as conv ev = or_throw (conv (ev_arguments ev)) type_error"

definition event_kw_argument :: "(msgobj \<Rightarrow> 'a option) \<Rightarrow> wamp_event \<Rightarrow> string \<Rightarrow> 'a result" where
  "event_kw_argument conv ev key =
     (case ev_kw_arguments ev of
        MAP kvs \<Rightarrow> (case kw_scan conv key kvs of
                      Some r \<Rightarrow> r
                    | None \<Rightarrow> Throw (no_keyword key))
      | _ \<Rightarrow> Throw type_error)"

definition event_kw_argument_c :: "(msgobj \<Rightarrow> 'a option) \<Rightarrow> wamp_event \<Rightarrow> string \<Rightarrow> 'a result" where
  "event_kw_argument_c conv ev key =
     (case ev_kw_arguments ev of
        MAP kvs \<Rightarrow> (case kw_scan conv (c_string key) kvs of
                      Some r \<Rightarrow> r
                    | None \<Rightarrow> Throw (no_keyword (c_string key)))
      | _ \<Rightarrow> Throw type_error)"

definition event_kw_argument_or ::
    "(msgobj \<Rightarrow> 'a option) \<Rightarrow> wamp_event \<Rightarrow> string \<Rightarrow> 'a \<Rightarrow> 'a kw_outcome" where
  "event_kw_argument_or conv ev key fallback =
     (case ev_kw_arguments ev of
        MAP kvs \<Rightarrow> (case kw_scan conv key kvs of
                      Some r \<Rightarrow> kw_returned r
                    | None \<Rightarrow> Returned fallback)
      | _ \<Rightarrow> Raised type_error)"

definition event_kw_argument_or_c ::
    "(msgobj \<Rightarrow> 'a option) \<Rightarrow> wamp_event \<Rightarrow> string \<Rightarrow> 'a \<Rightarrow> 'a kw_outcome" where
  "event_kw_argument_or_c conv ev key fallback =
     (case ev_kw_arguments ev of
        MAP kvs \<Rightarrow> (case kw_scan conv (c_string key) kvs of
                      Some r \<Rightarrow> kw_returned r
                    | None \<Rightarrow> Thrown_Value fallback)
      | _ \<Rightarrow> Raised type_error)"

definition event_kw_arguments_as :: "(msgobj \<Rightarrow> 'a option) \<Rightarrow> wamp_event \<Rightarrow> 'a result" where
  "event_kw_arguments_as conv ev = or_throw (conv (ev_kw_arguments ev)) type_error"

definition event_set_arguments :: "msgobj \<Rightarrow> wamp_event \<Rightarrow> wamp_event" where
  "event_set_arguments a ev = ev\<lparr>ev_arguments := a\<rparr>"

definition event_set_kw_arguments :: "msgobj \<Rightarrow> wamp_event \<Rightarrow> wamp_event" where
  "event_set_kw_arguments a ev = ev\<lparr>ev_kw_arguments := a\<rparr>"

interpretation event: argument_holder ev_arguments ev_kw_arguments
  event_number_of_arguments event_number_of_kw_arguments event_argument
  event_kw_argument event_kw_argument_c event_kw_argument_or event_kw_argument_or_c
  by unfold_locales
    (auto simp: event_number_of_arguments_def event_number_of_kw_arguments_def event_argument_def
       event_kw_argument_def event_kw_argument_c_def event_kw_argument_or_def
       event_kw_argument_or_c_def kw_scan_eq c_string_nul_free
       split: msgobj.splits option.splits)

lemma event_set_simps [simp]:
  "ev_arguments (event_set_arguments a ev) = a"
  "ev_kw_arguments (event_set_arguments a ev) = ev_kw_arguments ev"
  "ev_arguments (event_set_kw_arguments a ev) = ev_arguments ev"
  "ev_kw_arguments (event_set_kw_arguments a ev) = a"
  by (simp_all add: event_set_arguments_def event_set_kw_arguments_def)

lemma new_event_simps [simp]:
  "ev_arguments new_event = EMPTY_ARGUMENTS"
  "ev_kw_arguments new_event = EMPTY_KW_ARGUMENTS"
  by (simp_all add: new_event_def)

end
