(* ===== verification/Message_Type.thy ===== *)
theory Message_Type
  imports Prelude
begin

text \<open>
  \<open>autobahn/wamp_message_type.hpp\<close>: the WAMP message codes.  A \<open>static_cast\<close> of an integer to
  the enumeration keeps the integer; \<open>message_type_of\<close> is the enumerator it equals, if any.
\<close>

datatype message_type =
    HELLO | WELCOME | ABORT | CHALLENGE | AUTHENTICATE | GOODBYE | HEARTBEAT | ERROR
  | PUBLISH | PUBLISHED | SUBSCRIBE | SUBSCRIBED | UNSUBSCRIBE | UNSUBSCRIBED | EVENT
  | CALL | CANCEL | RESULT | REGISTER | REGISTERED | UNREGISTER | UNREGISTERED
  | INVOCATION | INTERRUPT | YIELD

fun message_code :: "message_type \<Rightarrow> int" where
  "message_code HELLO = 1"
| "message_code WELCOME = 2"
| "message_code ABORT = 3"
| "message_code CHALLENGE = 4"
| "message_code AUTHENTICATE = 5"
| "message_code GOODBYE = 6"
| "message_code HEARTBEAT = 7"
| "message_code ERROR = 8"
| "message_code PUBLISH = 16"
| "message_code PUBLISHED = 17"
| "message_code SUBSCRIBE = 32"
| "message_code SUBSCRIBED = 33"
| "message_code UNSUBSCRIBE = 34"
| "message_code UNSUBSCRIBED = 35"
| "message_code EVENT = 36"
| "message_code CALL = 48"
| "message_code CANCEL = 49"
| "message_code RESULT = 50"
| "message_code REGISTER = 64"
| "message_code REGISTERED = 65"
| "message_code UNREGISTER = 66"
| "message_code UNREGISTERED = 67"
| "message_code INVOCATION = 68"
| "message_code INTERRUPT = 69"
| "message_code YIELD = 70"

definition all_message_types :: "message_type list" where
  "all_message_types =
     [HELLO, WELCOME, ABORT, CHALLENGE, AUTHENTICATE, GOODBYE, HEARTBEAT, ERROR,
      PUBLISH, PUBLISHED, SUBSCRIBE, SUBSCRIBED, UNSUBSCRIBE, UNSUBSCRIBED, EVENT,
      CALL, CANCEL, RESULT, REGISTER, REGISTERED, UNREGISTER, UNREGISTERED,
      INVOCATION, INTERRUPT, YIELD]"

definition message_type_of :: "int \<Rightarrow> message_type option" where
  "message_type_of code = find (\<lambda>t. message_code t = code) all_message_types"

lemma all_message_types_complete: "t \<in> set all_message_types"
  by (cases t) (simp_all add: all_message_types_def)

lemma message_type_of_Some: "message_type_of code = Some t \<Longrightarrow> message_code t = code"
  by (auto simp: message_type_of_def find_Some_iff)

lemma message_type_of_None:
  "message_type_of code = None \<longleftrightarrow> (\<forall>t. message_code t \<noteq> code)"
  using all_message_types_complete by (auto simp: message_type_of_def find_None_iff)

lemma message_type_of_code [simp]: "message_type_of (message_code t) = Some t"
  by (cases t) (simp_all add: message_type_of_def all_message_types_def)

lemma message_type_of_literal [simp]:
  "message_type_of 1 = Some HELLO" "message_type_of 2 = Some WELCOME"
  "message_type_of 3 = Some ABORT" "message_type_of 6 = Some GOODBYE"
  "message_type_of 8 = Some ERROR" "message_type_of 32 = Some SUBSCRIBE"
  "message_type_of 33 = Some SUBSCRIBED" "message_type_of 35 = Some UNSUBSCRIBED"
  "message_type_of 36 = Some EVENT" "message_type_of 48 = Some CALL"
  "message_type_of 50 = Some RESULT" "message_type_of 65 = Some REGISTERED"
  "message_type_of 68 = Some INVOCATION"
  by (simp_all add: message_type_of_def all_message_types_def)

lemma message_code_bounds: "1 \<le> message_code t \<and> message_code t \<le> 70"
  by (cases t) simp_all

lemma message_code_inject: "message_code t = message_code u \<longleftrightarrow> t = u"
  using message_type_of_code by (metis option.inject)

end
