(* ===== verification/Invocation.thy ===== *)
theory Invocation
  imports Arguments Message_Type
begin

text \<open>
  \<open>class wamp_invocation_impl\<close> (\<open>autobahn/wamp_invocation.hpp\<close>, \<open>.ipp\<close>): the request id,
  details and arguments of a received INVOCATION, and the reply operations.  A reply packs a
  YIELD or ERROR message and hands it to the function object the session installed
  (\<open>m_send_result_fn\<close>), which is then cleared, so that a second reply throws.  The function
  object is represented by a tag; \<open>call_fn\<close> gives its behaviour on the surrounding state.  The
  template parameters \<open>List\<close> and \<open>Map\<close> stand for any types that pack as an array and as a map.
\<close>

datatype send_result_fn = Send_Via_Session

record wamp_invocation =
  inv_details :: msgobj
  inv_arguments :: msgobj
  inv_kw_arguments :: msgobj
  inv_send_result_fn :: "send_result_fn option"
  inv_request_id :: u64
  inv_zone :: "nat option"

definition EMPTY_DETAILS :: msgobj where
  "EMPTY_DETAILS = MAP []"

definition new_invocation :: wamp_invocation where
  "new_invocation =
     \<lparr>inv_details = EMPTY_DETAILS, inv_arguments = EMPTY_ARGUMENTS,
      inv_kw_arguments = EMPTY_KW_ARGUMENTS, inv_send_result_fn = None,
      inv_request_id = 0, inv_zone = None\<rparr>"

section \<open>Accessors\<close>

definition no_detail :: "string \<Rightarrow> exn" where
  "no_detail key = Out_Of_Range (key @ '' detail doesn't exist'')"

definition invocation_details_key ::
    "(msgobj \<Rightarrow> 'a option) \<Rightarrow> wamp_invocation \<Rightarrow> string \<Rightarrow> 'a result" where
  "invocation_details_key conv iv key =
     (case inv_details iv of
        MAP kvs \<Rightarrow> (case kw_scan conv key kvs of
                      Some r \<Rightarrow> r
                    | None \<Rightarrow> Throw (no_detail key))
      | _ \<Rightarrow> Throw type_error)"

definition invocation_detail ::
    "(msgobj \<Rightarrow> 'a option) \<Rightarrow> wamp_invocation \<Rightarrow> string \<Rightarrow> 'a result" where
  "invocation_detail conv iv key =
     (case inv_details iv of
        MAP kvs \<Rightarrow> (case kw_scan conv (c_string key) kvs of
                      Some r \<Rightarrow> r
                    | None \<Rightarrow> Throw (no_detail (c_string key)))
      | _ \<Rightarrow> Throw type_error)"

definition invocation_details_as :: "(msgobj \<Rightarrow> 'a option) \<Rightarrow> wamp_invocation \<Rightarrow> 'a result" where
  "invocation_details_as conv iv = or_throw (conv (inv_details iv)) type_error"

definition invocation_number_of_arguments :: "wamp_invocation \<Rightarrow> nat" where
  "invocation_number_of_arguments iv = (case inv_arguments iv of ARRAY xs \<Rightarrow> length xs | _ \<Rightarrow> 0)"

definition invocation_number_of_kw_arguments :: "wamp_invocation \<Rightarrow> nat" where
  "invocation_number_of_kw_arguments iv =
     (case inv_kw_arguments iv of MAP kvs \<Rightarrow> length kvs | _ \<Rightarrow> 0)"

definition invocation_argument ::
    "(msgobj \<Rightarrow> 'a option) \<Rightarrow> wamp_invocation \<Rightarrow> nat \<Rightarrow> 'a result" where
  "invocation_argument conv iv index =
     (case inv_arguments iv of
        ARRAY xs \<Rightarrow> (if length xs \<le> index then Throw (no_argument index)
                     else or_throw (conv (xs ! index)) type_error)
      | _ \<Rightarrow> Throw (no_argument index))"

definition invocation_arguments_as :: "(msgobj \<Rightarrow> 'a option) \<Rightarrow> wamp_invocation \<Rightarrow> 'a result" where
  "invocation_arguments_as conv iv = or_throw (conv (inv_arguments iv)) type_error"

definition invocation_kw_argument ::
    "(msgobj \<Rightarrow> 'a option) \<Rightarrow> wamp_invocation \<Rightarrow> string \<Rightarrow> 'a result" where
  "invocation_kw_argument conv iv key =
     (case inv_kw_arguments iv of
        MAP kvs \<Rightarrow> (case kw_scan conv key kvs of
                      Some r \<Rightarrow> r
                    | None \<Rightarrow> Throw (no_keyword key))
      | _ \<Rightarrow> Throw type_error)"

definition invocation_kw_argument_c ::
    "(msgobj \<Rightarrow> 'a option) \<Rightarrow> wamp_invocation \<Rightarrow> string \<Rightarrow> 'a result" where
  "invocation_kw_argument_c conv iv key =
     (case inv_kw_arguments iv of
        MAP kvs \<Rightarrow> (case kw_scan conv (c_string key) kvs of
                      Some r \<Rightarrow> r
                    | None \<Rightarrow> Throw (no_keyword (c_string key)))
      | _ \<Rightarrow> Throw type_error)"

definition invocation_kw_argument_or ::
    "(msgobj \<Rightarrow> 'a option) \<Rightarrow> wamp_invocation \<Rightarrow> string \<Rightarrow> 'a \<Rightarrow> 'a kw_outcome" where
  "invocation_kw_argument_or conv iv key fallback =
     (case inv_kw_arguments iv of
        MAP kvs \<Rightarrow> (case kw_scan conv key kvs of
                      Some r \<Rightarrow> kw_returned r
                    | None \<Rightarrow> Returned fallback)
      | _ \<Rightarrow> Raised type_error)"

definition invocation_kw_argument_or_c ::
    "(msgobj \<Rightarrow> 'a option) \<Rightarrow> wamp_invocation \<Rightarrow> string \<Rightarrow> 'a \<Rightarrow> 'a kw_outcome" where
  "invocation_kw_argument_or_c conv iv key fallback =
     (case inv_kw_arguments iv of
        MAP kvs \<Rightarrow> (case kw_scan conv (c_string key) kvs of
                      Some r \<Rightarrow> kw_returned r
                    | None \<Rightarrow> Thrown_Value fallback)
      | _ \<Rightarrow> Raised type_error)"

definition invocation_kw_arguments_as :: "(msgobj \<Rightarrow> 'a option) \<Rightarrow> wamp_invocation \<Rightarrow> 'a result" where
  "invocation_kw_arguments_as conv iv = or_throw (conv (inv_kw_arguments iv)) type_error"

interpretation invocation: argument_holder inv_arguments inv_kw_arguments
  invocation_number_of_arguments invocation_number_of_kw_arguments invocation_argument
  invocation_kw_argument invocation_kw_argument_c
  invocation_kw_argument_or invocation_kw_argument_or_c
  by unfold_locales
    (auto simp: invocation_number_of_arguments_def invocation_number_of_kw_arguments_def
       invocation_argument_def invocation_kw_argument_def invocation_kw_argument_c_def
       invocation_kw_argument_or_def invocation_kw_argument_or_c_def kw_scan_eq c_string_nul_free
       split: msgobj.splits option.splits)

section \<open>Replies\<close>

definition yield_empty_message :: "u64 \<Rightarrow> buffer" where
  "yield_empty_message request_id =
     [Pack_Array 3, Pack_Int (message_code YIELD), Pack_Uint64 request_id, Pack_Map 0]"

definition yield_message :: "msgobj list \<Rightarrow> u64 \<Rightarrow> buffer" where
  "yield_message arguments request_id =
     [Pack_Array 4, Pack_Int (message_code YIELD), Pack_Uint64 request_id, Pack_Map 0,
      Pack_Object (ARRAY arguments)]"

definition yield_kw_message :: "msgobj list \<Rightarrow> (msgobj \<times> msgobj) list \<Rightarrow> u64 \<Rightarrow> buffer" where
  "yield_kw_message arguments kw_arguments request_id =
     [Pack_Array 5, Pack_Int (message_code YIELD), Pack_Uint64 request_id, Pack_Map 0,
      Pack_Object (ARRAY arguments), Pack_Object (MAP kw_arguments)]"

definition error_message :: "string \<Rightarrow> u64 \<Rightarrow> buffer" where
  "error_message error_uri request_id =
     [Pack_Array 5, Pack_Int (message_code ERROR), Pack_Int (message_code INVOCATION),
      Pack_Uint64 request_id, Pack_Map 0, Pack_String error_uri]"

definition error_args_message :: "string \<Rightarrow> msgobj list \<Rightarrow> u64 \<Rightarrow> buffer" where
  "error_args_message error_uri arguments request_id =
     [Pack_Array 6, Pack_Int (message_code ERROR), Pack_Int (message_code INVOCATION),
      Pack_Uint64 request_id, Pack_Map 0, Pack_String error_uri, Pack_Object (ARRAY arguments)]"

definition error_kw_message ::
    "string \<Rightarrow> msgobj list \<Rightarrow> (msgobj \<times> msgobj) list \<Rightarrow> u64 \<Rightarrow> buffer" where
  "error_kw_message error_uri arguments kw_arguments request_id =
     [Pack_Array 7, Pack_Int (message_code ERROR), Pack_Int (message_code INVOCATION),
      Pack_Uint64 request_id, Pack_Map 0, Pack_String error_uri, Pack_Object (ARRAY arguments),
      Pack_Object (MAP kw_arguments)]"

definition sendable :: "wamp_invocation \<Rightarrow> bool" where
  "sendable iv \<longleftrightarrow> inv_send_result_fn iv \<noteq> None"

definition not_sendable_error :: exn where
  "not_sendable_error = Runtime_Error
     ''tried to call result() or error() but wamp_invocation is not sendable (double call?)''"

text \<open>The shape all six reply operations share; the surrounding state is paired with the object.\<close>

definition reply_with ::
    "(send_result_fn \<Rightarrow> buffer \<Rightarrow> ('w, unit) action) \<Rightarrow> (u64 \<Rightarrow> buffer)
      \<Rightarrow> (wamp_invocation \<times> 'w, unit) action" where
  "reply_with call_fn message iw =
     (case iw of (iv, w) \<Rightarrow>
        (case inv_send_result_fn iv of
           None \<Rightarrow> (Throw not_sendable_error, (iv, w))
         | Some f \<Rightarrow>
             (case call_fn f (message (inv_request_id iv)) w of
                (Ok _, w') \<Rightarrow> (Ok (), (iv\<lparr>inv_send_result_fn := None\<rparr>, w'))
              | (Throw e, w') \<Rightarrow> (Throw e, (iv, w'))
              | (Undefined_Behaviour, w') \<Rightarrow> (Undefined_Behaviour, (iv, w')))))"

datatype reply =
    Empty_Result
  | Result_Args "msgobj list"
  | Result_Args_Kw "msgobj list" "(msgobj \<times> msgobj) list"
  | Error_Uri string
  | Error_Args string "msgobj list"
  | Error_Args_Kw string "msgobj list" "(msgobj \<times> msgobj) list"

fun reply_message :: "reply \<Rightarrow> u64 \<Rightarrow> buffer" where
  "reply_message Empty_Result = yield_empty_message"
| "reply_message (Result_Args a) = yield_message a"
| "reply_message (Result_Args_Kw a k) = yield_kw_message a k"
| "reply_message (Error_Uri u) = error_message u"
| "reply_message (Error_Args u a) = error_args_message u a"
| "reply_message (Error_Args_Kw u a k) = error_kw_message u a k"

definition set_request_id :: "u64 \<Rightarrow> wamp_invocation \<Rightarrow> wamp_invocation" where
  "set_request_id rid iv = iv\<lparr>inv_request_id := rid\<rparr>"

definition set_details :: "msgobj \<Rightarrow> wamp_invocation \<Rightarrow> wamp_invocation" where
  "set_details d iv = iv\<lparr>inv_details := d\<rparr>"

definition set_zone :: "nat \<Rightarrow> wamp_invocation \<Rightarrow> wamp_invocation" where
  "set_zone z iv = iv\<lparr>inv_zone := Some z\<rparr>"

definition set_arguments :: "msgobj \<Rightarrow> wamp_invocation \<Rightarrow> wamp_invocation" where
  "set_arguments a iv = iv\<lparr>inv_arguments := a\<rparr>"

definition set_kw_arguments :: "msgobj \<Rightarrow> wamp_invocation \<Rightarrow> wamp_invocation" where
  "set_kw_arguments k iv = iv\<lparr>inv_kw_arguments := k\<rparr>"

definition set_send_result_fn :: "send_result_fn \<Rightarrow> wamp_invocation \<Rightarrow> wamp_invocation" where
  "set_send_result_fn f iv = iv\<lparr>inv_send_result_fn := Some f\<rparr>"

lemmas invocation_setters =
  set_request_id_def set_details_def set_zone_def set_arguments_def set_kw_arguments_def
  set_send_result_fn_def

lemmas reply_messages =
  yield_empty_message_def yield_message_def yield_kw_message_def
  error_message_def error_args_message_def error_kw_message_def

text \<open>The object each reply writes: one message, of the declared length.\<close>

fun reply_object :: "reply \<Rightarrow> u64 \<Rightarrow> msgobj" where
  "reply_object Empty_Result r = ARRAY [POSITIVE_INTEGER 70, POSITIVE_INTEGER r, MAP []]"
| "reply_object (Result_Args a) r = ARRAY [POSITIVE_INTEGER 70, POSITIVE_INTEGER r, MAP [], ARRAY a]"
| "reply_object (Result_Args_Kw a k) r =
     ARRAY [POSITIVE_INTEGER 70, POSITIVE_INTEGER r, MAP [], ARRAY a, MAP k]"
| "reply_object (Error_Uri u) r =
     ARRAY [POSITIVE_INTEGER 8, POSITIVE_INTEGER 68, POSITIVE_INTEGER r, MAP [], STR_OBJ u]"
| "reply_object (Error_Args u a) r =
     ARRAY [POSITIVE_INTEGER 8, POSITIVE_INTEGER 68, POSITIVE_INTEGER r, MAP [], STR_OBJ u, ARRAY a]"
| "reply_object (Error_Args_Kw u a k) r =
     ARRAY [POSITIVE_INTEGER 8, POSITIVE_INTEGER 68, POSITIVE_INTEGER r, MAP [], STR_OBJ u, ARRAY a, MAP k]"

lemma reply_message_object: "packed_object (reply_message rep r) = Some (reply_object rep r)"
  by (cases rep) (simp_all add: reply_messages packed_object_def int_object_def)

end
