(* ===== verification/Requests.thy ===== *)
theory Requests
  imports Promise Call_Result Event Invocation
begin

text \<open>
  The small classes around a request: \<open>wamp_subscription\<close>, \<open>wamp_registration\<close> and
  \<open>wamp_publication\<close> wrap an id; \<open>wamp_call\<close>, \<open>wamp_subscribe_request\<close>,
  \<open>wamp_unsubscribe_request\<close> and \<open>wamp_register_request\<close> hold the promise of an outstanding
  request, and the user's callback where there is one.  Callbacks (\<open>std::function\<close> values
  supplied by the application) are named by numbers.
\<close>

type_synonym event_handler = nat
type_synonym procedure = nat

record wamp_subscription =
  subscription_id :: u64

record wamp_registration =
  registration_id :: u64

record wamp_publication =
  publication_id :: u64

definition new_subscription :: "u64 \<Rightarrow> wamp_subscription" where
  "new_subscription i = \<lparr>subscription_id = i\<rparr>"

definition new_registration :: "u64 \<Rightarrow> wamp_registration" where
  "new_registration i = \<lparr>registration_id = i\<rparr>"

definition new_publication :: "u64 \<Rightarrow> wamp_publication" where
  "new_publication i = \<lparr>publication_id = i\<rparr>"

record wamp_call =
  call_promise :: "wamp_call_result promise"

definition new_call :: wamp_call where
  "new_call = \<lparr>call_promise = new_promise\<rparr>"

definition call_set_result :: "wamp_call_result \<Rightarrow> (wamp_call, unit) action" where
  "call_set_result r c =
     (case set_value r (call_promise c) of (x, p) \<Rightarrow> (x, c\<lparr>call_promise := p\<rparr>))"

definition call_set_exception :: "exn \<Rightarrow> (wamp_call, unit) action" where
  "call_set_exception e c =
     (case set_exception e (call_promise c) of (x, p) \<Rightarrow> (x, c\<lparr>call_promise := p\<rparr>))"

record wamp_subscribe_request =
  subscribe_handler :: event_handler
  subscribe_response :: "wamp_subscription promise"

definition new_subscribe_request :: "event_handler \<Rightarrow> wamp_subscribe_request" where
  "new_subscribe_request h = \<lparr>subscribe_handler = h, subscribe_response = new_promise\<rparr>"

definition subscribe_set_response :: "wamp_subscription \<Rightarrow> (wamp_subscribe_request, unit) action" where
  "subscribe_set_response v r =
     (case set_value v (subscribe_response r) of (x, p) \<Rightarrow> (x, r\<lparr>subscribe_response := p\<rparr>))"

record wamp_unsubscribe_request =
  unsubscribe_response :: "unit promise"

definition new_unsubscribe_request :: wamp_unsubscribe_request where
  "new_unsubscribe_request = \<lparr>unsubscribe_response = new_promise\<rparr>"

definition unsubscribe_set_response :: "(wamp_unsubscribe_request, unit) action" where
  "unsubscribe_set_response r =
     (case set_value () (unsubscribe_response r) of (x, p) \<Rightarrow> (x, r\<lparr>unsubscribe_response := p\<rparr>))"

record wamp_register_request =
  register_procedure :: procedure
  register_response :: "wamp_registration promise"

definition new_register_request :: "procedure \<Rightarrow> wamp_register_request" where
  "new_register_request f = \<lparr>register_procedure = f, register_response = new_promise\<rparr>"

definition register_set_response :: "wamp_registration \<Rightarrow> (wamp_register_request, unit) action" where
  "register_set_response v r =
     (case set_value v (register_response r) of (x, p) \<Rightarrow> (x, r\<lparr>register_response := p\<rparr>))"

text \<open>The destructors, implicit in the source: that of the promise.\<close>

definition destroy_call :: "wamp_call \<Rightarrow> wamp_call" where
  "destroy_call c = c\<lparr>call_promise := abandon (call_promise c)\<rparr>"

definition destroy_subscribe :: "wamp_subscribe_request \<Rightarrow> wamp_subscribe_request" where
  "destroy_subscribe r = r\<lparr>subscribe_response := abandon (subscribe_response r)\<rparr>"

definition destroy_unsubscribe :: "wamp_unsubscribe_request \<Rightarrow> wamp_unsubscribe_request" where
  "destroy_unsubscribe r = r\<lparr>unsubscribe_response := abandon (unsubscribe_response r)\<rparr>"

definition destroy_register :: "wamp_register_request \<Rightarrow> wamp_register_request" where
  "destroy_register r = r\<lparr>register_response := abandon (register_response r)\<rparr>"

lemmas destroy_defs =
  destroy_call_def destroy_subscribe_def destroy_unsubscribe_def destroy_register_def

section \<open>Facts about the request objects\<close>

lemma call_set_result_cases:
  "call_set_result r c =
     (if satisfied (call_promise c) then (Throw (Library_Error Promise_Already_Satisfied), c)
      else (Ok (), c\<lparr>call_promise := (call_promise c)\<lparr>shared_state := Has_Value r\<rparr>\<rparr>))"
  by (simp add: call_set_result_def set_value_cases)

lemma call_set_exception_cases:
  "call_set_exception e c =
     (if satisfied (call_promise c) then (Throw (Library_Error Promise_Already_Satisfied), c)
      else (Ok (), c\<lparr>call_promise := (call_promise c)\<lparr>shared_state := Has_Exception e\<rparr>\<rparr>))"
  by (simp add: call_set_exception_def set_exception_cases)

lemma subscribe_set_response_cases:
  "subscribe_set_response v r =
     (if satisfied (subscribe_response r) then (Throw (Library_Error Promise_Already_Satisfied), r)
      else (Ok (), r\<lparr>subscribe_response := (subscribe_response r)\<lparr>shared_state := Has_Value v\<rparr>\<rparr>))"
  by (simp add: subscribe_set_response_def set_value_cases)

lemma unsubscribe_set_response_cases:
  "unsubscribe_set_response r =
     (if satisfied (unsubscribe_response r) then (Throw (Library_Error Promise_Already_Satisfied), r)
      else (Ok (), r\<lparr>unsubscribe_response := (unsubscribe_response r)\<lparr>shared_state := Has_Value ()\<rparr>\<rparr>))"
  by (simp add: unsubscribe_set_response_def set_value_cases)

lemma register_set_response_cases:
  "register_set_response v r =
     (if satisfied (register_response r) then (Throw (Library_Error Promise_Already_Satisfied), r)
      else (Ok (), r\<lparr>register_response := (register_response r)\<lparr>shared_state := Has_Value v\<rparr>\<rparr>))"
  by (simp add: register_set_response_def set_value_cases)

lemmas set_response_cases =
  call_set_result_cases call_set_exception_cases subscribe_set_response_cases
  unsubscribe_set_response_cases register_set_response_cases

text \<open>The request objects satisfy the one-shot contract of their promise.\<close>

interpretation call_result_cell: one_shot "\<lambda>c. satisfied (call_promise c)" call_set_result
  by unfold_locales (auto simp: set_response_cases)

interpretation call_error_cell: one_shot "\<lambda>c. satisfied (call_promise c)" call_set_exception
  by unfold_locales (auto simp: set_response_cases)

interpretation subscribe_cell:
  one_shot "\<lambda>r. satisfied (subscribe_response r)" subscribe_set_response
  by unfold_locales (auto simp: set_response_cases)

interpretation unsubscribe_cell:
  one_shot "\<lambda>r. satisfied (unsubscribe_response r)" "\<lambda>_::unit. unsubscribe_set_response"
  by unfold_locales (auto simp: set_response_cases)

interpretation register_cell:
  one_shot "\<lambda>r. satisfied (register_response r)" register_set_response
  by unfold_locales (auto simp: set_response_cases)

end
