(* ===== verification/Session_State.thy ===== *)
theory Session_State
  imports Requests
begin

text \<open>
  The state of \<open>class wamp_session\<close> (\<open>autobahn/wamp_session.hpp\<close>) together with the part of
  its environment it acts on: the output stream, the reads it has outstanding, the functions it
  has dispatched to the \<open>io_service\<close>, and the heaps its shared pointers point into.  Also the
  lowest layer of \<open>wamp_session.ipp\<close>: the byte order of the length prefix, writing to the
  stream, \<open>send\<close>, and the allocation of request ids.
\<close>

section \<open>Streams\<close>

text \<open>
  An output stream: the bytes written so far, and how many more it will take before a write
  fails (\<open>None\<close>: it never fails).  \<open>boost::asio::write\<close> writes all of a buffer or throws; bytes
  written before the failure stay written.
\<close>

record ostream =
  written :: "byte list"
  fail_after :: "nat option"

definition asio_write :: "byte list \<Rightarrow> (ostream, unit) action" where
  "asio_write bs os =
     (case fail_after os of
        None \<Rightarrow> (Ok (), os\<lparr>written := written os @ bs\<rparr>)
      | Some n \<Rightarrow>
          (if length bs \<le> n
           then (Ok (), os\<lparr>written := written os @ bs, fail_after := Some (n - length bs)\<rparr>)
           else (Throw (Library_Error System_Error),
                 os\<lparr>written := written os @ take n bs, fail_after := Some 0\<rparr>)))"

text \<open>
  \<open>htonl\<close> and \<open>ntohl\<close>, as the four bytes in memory: most significant byte first.
\<close>

definition htonl_bytes :: "u32 \<Rightarrow> byte list" where
  "htonl_bytes w = [ucast (drop_bit 24 w), ucast (drop_bit 16 w), ucast (drop_bit 8 w), ucast w]"

definition ntohl_bytes :: "byte list \<Rightarrow> u32" where
  "ntohl_bytes bs =
     word_of_nat (fold (\<lambda>b n. n * 256 + unat b) bs 0)"

section \<open>The session\<close>

text \<open>Functions dispatched to the io service; their captured variables are the arguments.\<close>

datatype task =
    Stop_Task
  | Join_Task buffer
  | Leave_Task buffer
  | Subscribe_Task u64 nat buffer
  | Unsubscribe_Task u64 nat buffer
  | Provide_Task u64 nat buffer
  | Publish_Task buffer
  | Call_Task u64 nat buffer
  | Send_Result_Task buffer

text \<open>The request object a function has captured, by its kind.\<close>

fun call_ptr :: "task \<Rightarrow> nat list" where
  "call_ptr (Call_Task r p b) = [p]"
| "call_ptr _ = []"

fun subscribe_ptr :: "task \<Rightarrow> nat list" where
  "subscribe_ptr (Subscribe_Task r p b) = [p]"
| "subscribe_ptr _ = []"

fun unsubscribe_ptr :: "task \<Rightarrow> nat list" where
  "unsubscribe_ptr (Unsubscribe_Task r p b) = [p]"
| "unsubscribe_ptr _ = []"

fun register_ptr :: "task \<Rightarrow> nat list" where
  "register_ptr (Provide_Task r p b) = [p]"
| "register_ptr _ = []"

definition captured :: "task \<Rightarrow> nat list" where
  "captured t = call_ptr t @ subscribe_ptr t @ unsubscribe_ptr t @ register_ptr t"

datatype read_op = Read_Handshake | Read_Header | Read_Body

datatype io_error = Operation_Aborted | Io_Error nat

text \<open>
  The fields up to \<open>m_procedures\<close> are the members of the class.  \<open>m_request_id\<close> counts the
  increments of the \<open>std::atomic<uint64_t>\<close>, whose value is the count modulo \<open>2 ^ 64\<close>.  Shared
  pointers are addresses into the heaps below them; \<open>heap_next\<close> is the next free address.
  The state a promise shares with its future outlives the object the promise is in, so a destroyed
  object stays in its heap, with a broken promise unless it had been answered.
  \<open>alive\<close> says that some \<open>shared_ptr\<close> to the session exists, so that \<open>weak_self.lock()\<close>
  succeeds.  \<open>rx_errors\<close> are the emissions of the signal \<open>m_onRxError\<close>.
\<close>

record session =
  m_out :: ostream
  m_in_open :: bool
  m_buffer_message_length :: "byte list"
  m_message_length :: u32
  m_unpacker :: "byte list"
  m_request_id :: nat
  m_handshake :: "bool promise"
  m_session_id :: u64
  m_session_join :: "u64 promise"
  m_goodbye_sent :: bool
  m_session_leave :: "string promise"
  m_stopped :: bool
  m_session_stop :: "unit promise"
  m_calls :: "u64 \<rightharpoonup> nat"
  m_subscribe_requests :: "u64 \<rightharpoonup> nat"
  m_unsubscribe_requests :: "u64 \<rightharpoonup> nat"
  m_subscription_handlers :: "(u64, event_handler) multimap"
  m_register_requests :: "u64 \<rightharpoonup> nat"
  m_procedures :: "u64 \<rightharpoonup> procedure"
  heap_calls :: "nat \<rightharpoonup> wamp_call"
  heap_subscribes :: "nat \<rightharpoonup> wamp_subscribe_request"
  heap_unsubscribes :: "nat \<rightharpoonup> wamp_unsubscribe_request"
  heap_registers :: "nat \<rightharpoonup> wamp_register_request"
  heap_invocations :: "nat \<rightharpoonup> wamp_invocation"
  heap_next :: nat
  zone_count :: nat
  io_queue :: "task list"
  pending_reads :: "read_op list"
  rx_errors :: "io_error list"
  alive :: bool

text \<open>The constructor, on an open pair of streams.\<close>

definition new_session :: "ostream \<Rightarrow> session" where
  "new_session os =
     \<lparr>m_out = os, m_in_open = True, m_buffer_message_length = [0, 0, 0, 0],
      m_message_length = 0, m_unpacker = [], m_request_id = 0, m_handshake = new_promise,
      m_session_id = 0, m_session_join = new_promise, m_goodbye_sent = False,
      m_session_leave = new_promise, m_stopped = False, m_session_stop = new_promise,
      m_calls = Map.empty, m_subscribe_requests = Map.empty, m_unsubscribe_requests = Map.empty,
      m_subscription_handlers = [], m_register_requests = Map.empty, m_procedures = Map.empty,
      heap_calls = Map.empty, heap_subscribes = Map.empty, heap_unsubscribes = Map.empty,
      heap_registers = Map.empty, heap_invocations = Map.empty, heap_next = 0, zone_count = 0,
      io_queue = [], pending_reads = [], rx_errors = [], alive = True\<rparr>"

text \<open>\<open>++m_request_id\<close>: the value of the counter after the increment.\<close>

definition next_request_id :: "session \<Rightarrow> u64 \<times> session" where
  "next_request_id s =
     (word_of_nat (Suc (m_request_id s)), s\<lparr>m_request_id := Suc (m_request_id s)\<rparr>)"

definition alloc_call :: "session \<Rightarrow> nat \<times> session" where
  "alloc_call s =
     (heap_next s, s\<lparr>heap_calls := (heap_calls s)(heap_next s \<mapsto> new_call),
                     heap_next := Suc (heap_next s)\<rparr>)"

definition alloc_subscribe :: "event_handler \<Rightarrow> session \<Rightarrow> nat \<times> session" where
  "alloc_subscribe h s =
     (heap_next s, s\<lparr>heap_subscribes := (heap_subscribes s)(heap_next s \<mapsto> new_subscribe_request h),
                     heap_next := Suc (heap_next s)\<rparr>)"

definition alloc_unsubscribe :: "session \<Rightarrow> nat \<times> session" where
  "alloc_unsubscribe s =
     (heap_next s, s\<lparr>heap_unsubscribes := (heap_unsubscribes s)(heap_next s \<mapsto> new_unsubscribe_request),
                     heap_next := Suc (heap_next s)\<rparr>)"

definition alloc_register :: "procedure \<Rightarrow> session \<Rightarrow> nat \<times> session" where
  "alloc_register f s =
     (heap_next s, s\<lparr>heap_registers := (heap_registers s)(heap_next s \<mapsto> new_register_request f),
                     heap_next := Suc (heap_next s)\<rparr>)"

definition alloc_invocation :: "wamp_invocation \<Rightarrow> session \<Rightarrow> nat \<times> session" where
  "alloc_invocation i s =
     (heap_next s, s\<lparr>heap_invocations := (heap_invocations s)(heap_next s \<mapsto> i),
                     heap_next := Suc (heap_next s)\<rparr>)"

section \<open>Objects that go away\<close>

text \<open>The last pointer to a request object is gone.\<close>

definition release_call :: "nat \<Rightarrow> session \<Rightarrow> session" where
  "release_call p s =
     s\<lparr>heap_calls := (heap_calls s)(p := map_option destroy_call (heap_calls s p))\<rparr>"

definition release_subscribe :: "nat \<Rightarrow> session \<Rightarrow> session" where
  "release_subscribe p s =
     s\<lparr>heap_subscribes := (heap_subscribes s)(p := map_option destroy_subscribe (heap_subscribes s p))\<rparr>"

definition release_unsubscribe :: "nat \<Rightarrow> session \<Rightarrow> session" where
  "release_unsubscribe p s =
     s\<lparr>heap_unsubscribes :=
         (heap_unsubscribes s)(p := map_option destroy_unsubscribe (heap_unsubscribes s p))\<rparr>"

definition release_register :: "nat \<Rightarrow> session \<Rightarrow> session" where
  "release_register p s =
     s\<lparr>heap_registers := (heap_registers s)(p := map_option destroy_register (heap_registers s p))\<rparr>"

lemmas release_defs =
  release_call_def release_subscribe_def release_unsubscribe_def release_register_def

text \<open>
  The destructor of the session, when the last \<open>shared_ptr\<close> to it is gone: its promises break, and
  so do those of the requests in its tables, which are all the requests that no queued function has
  captured.  Open subscribe and unsubscribe requests leave their tables with the objects they are;
  no code reads the tables any more, as every function first finds out whether the session lives.
\<close>

definition release_all :: "('a \<Rightarrow> 'a) \<Rightarrow> nat list \<Rightarrow> (nat \<rightharpoonup> 'a) \<Rightarrow> (nat \<rightharpoonup> 'a)" where
  "release_all destroy held h =
     (\<lambda>p. if p \<in> set held then h p else map_option destroy (h p))"

definition destroy_session :: "session \<Rightarrow> session" where
  "destroy_session s =
     s\<lparr>alive := False, m_handshake := abandon (m_handshake s),
       m_session_join := abandon (m_session_join s), m_session_leave := abandon (m_session_leave s),
       m_session_stop := abandon (m_session_stop s),
       heap_calls := release_all destroy_call (concat (map call_ptr (io_queue s))) (heap_calls s),
       heap_subscribes :=
         release_all destroy_subscribe (concat (map subscribe_ptr (io_queue s))) (heap_subscribes s),
       heap_unsubscribes :=
         release_all destroy_unsubscribe (concat (map unsubscribe_ptr (io_queue s))) (heap_unsubscribes s),
       heap_registers :=
         release_all destroy_register (concat (map register_ptr (io_queue s))) (heap_registers s),
       m_subscribe_requests := Map.empty, m_unsubscribe_requests := Map.empty\<rparr>"

lemma destroy_fields [simp]:
  "m_out (destroy_session s) = m_out s"
  "m_in_open (destroy_session s) = m_in_open s"
  "m_buffer_message_length (destroy_session s) = m_buffer_message_length s"
  "m_message_length (destroy_session s) = m_message_length s"
  "m_unpacker (destroy_session s) = m_unpacker s"
  "m_request_id (destroy_session s) = m_request_id s"
  "m_session_id (destroy_session s) = m_session_id s"
  "m_goodbye_sent (destroy_session s) = m_goodbye_sent s"
  "m_stopped (destroy_session s) = m_stopped s"
  "m_calls (destroy_session s) = m_calls s"
  "m_subscription_handlers (destroy_session s) = m_subscription_handlers s"
  "m_register_requests (destroy_session s) = m_register_requests s"
  "m_procedures (destroy_session s) = m_procedures s"
  "heap_invocations (destroy_session s) = heap_invocations s"
  "heap_next (destroy_session s) = heap_next s"
  "zone_count (destroy_session s) = zone_count s"
  "io_queue (destroy_session s) = io_queue s"
  "pending_reads (destroy_session s) = pending_reads s"
  "rx_errors (destroy_session s) = rx_errors s"
  "\<not> alive (destroy_session s)"
  by (simp_all add: destroy_session_def)

section \<open>Sending\<close>

text \<open>
  \<open>wamp_session::send\<close>: nothing when stopped; otherwise the size of the buffer as a
  32-bit integer in network byte order, then the buffer.  Any exception is caught.
\<close>

definition length_prefix :: "byte list \<Rightarrow> byte list" where
  "length_prefix data = htonl_bytes (word_of_nat (length data))"

definition on_out :: "(ostream, 'a) action \<Rightarrow> (session, 'a) action" where
  "on_out f s = (case f (m_out s) of (r, os) \<Rightarrow> (r, s\<lparr>m_out := os\<rparr>))"

definition send :: "msgpack \<Rightarrow> buffer \<Rightarrow> (session, unit) action" where
  "send mp b s =
     try_catch
       (if \<not> m_stopped s then
          and_then (on_out (asio_write (length_prefix (encode mp b))))
                   (on_out (asio_write (encode mp b)))
        else ret ())
       (\<lambda>_. ret ()) s"

definition frame :: "msgpack \<Rightarrow> buffer \<Rightarrow> byte list" where
  "frame mp b = length_prefix (encode mp b) @ encode mp b"

section \<open>Facts\<close>

lemma asio_write_healthy [simp]:
  "fail_after os = None \<Longrightarrow> asio_write bs os = (Ok (), os\<lparr>written := written os @ bs\<rparr>)"
  by (simp add: asio_write_def)

lemma asio_write_closed:
  "fail_after os = Some 0 \<Longrightarrow>
   asio_write bs os = (if bs = [] then (Ok (), os) else (Throw (Library_Error System_Error), os))"
  by (cases os) (auto simp: asio_write_def)

lemma asio_write_prefix: "\<exists>k. written (snd (asio_write bs os)) = written os @ take k bs"
proof (cases "fail_after os")
  case None
  then have "written (snd (asio_write bs os)) = written os @ take (length bs) bs" by simp
  then show ?thesis ..
next
  case (Some n)
  then have "written (snd (asio_write bs os)) = written os @ take n bs"
    by (simp add: asio_write_def)
  then show ?thesis ..
qed

lemma asio_write_total:
  "fst (asio_write bs os) = Ok () \<or> fst (asio_write bs os) = Throw (Library_Error System_Error)"
  by (simp add: asio_write_def split: option.splits)

lemma asio_write_ok:
  "fst (asio_write bs os) = Ok () \<Longrightarrow> written (snd (asio_write bs os)) = written os @ bs"
  by (auto simp: asio_write_def split: option.splits if_splits)

text \<open>\<open>send\<close> changes the output stream only, and never throws.\<close>

lemma send_effect:
  "\<exists>os. send mp b s = (Ok (), s\<lparr>m_out := os\<rparr>)"
proof (cases "m_stopped s")
  case True
  then have "send mp b s = (Ok (), s\<lparr>m_out := m_out s\<rparr>)"
    by (simp add: send_def action_defs)
  then show ?thesis ..
next
  case False
  then show ?thesis
    by (auto simp: send_def action_defs on_out_def split: prod.splits result.splits)
      (metis asio_write_total fst_conv result.distinct(3) result.distinct(5))+
qed

lemma send_stopped [simp]: "m_stopped s \<Longrightarrow> send mp b s = (Ok (), s)"
  by (simp add: send_def action_defs)

lemma send_healthy:
  "\<not> m_stopped s \<Longrightarrow> fail_after (m_out s) = None \<Longrightarrow>
   send mp b s = (Ok (), s\<lparr>m_out := (m_out s)\<lparr>written := written (m_out s) @ frame mp b\<rparr>\<rparr>)"
  by (simp add: send_def action_defs on_out_def frame_def)

lemma fst_send [simp]: "fst (send mp b s) = Ok ()"
  using send_effect [of mp b s] by auto

text \<open>A predicate that does not look at the output stream is kept by \<open>send\<close>.\<close>

lemma send_keeps:
  assumes "\<And>s os. P s \<Longrightarrow> P (s\<lparr>m_out := os\<rparr>)"
  shows "keeps P (send mp b)"
proof (rule keepsI)
  fix s assume "P s"
  moreover obtain os where "send mp b s = (Ok (), s\<lparr>m_out := os\<rparr>)"
    using send_effect by blast
  ultimately show "P (snd (send mp b s))" using assms by simp
qed

lemma send_fields [simp]:
  "m_in_open (snd (send mp b s)) = m_in_open s"
  "m_buffer_message_length (snd (send mp b s)) = m_buffer_message_length s"
  "m_message_length (snd (send mp b s)) = m_message_length s"
  "m_unpacker (snd (send mp b s)) = m_unpacker s"
  "m_request_id (snd (send mp b s)) = m_request_id s"
  "m_handshake (snd (send mp b s)) = m_handshake s"
  "m_session_id (snd (send mp b s)) = m_session_id s"
  "m_session_join (snd (send mp b s)) = m_session_join s"
  "m_goodbye_sent (snd (send mp b s)) = m_goodbye_sent s"
  "m_session_leave (snd (send mp b s)) = m_session_leave s"
  "m_stopped (snd (send mp b s)) = m_stopped s"
  "m_session_stop (snd (send mp b s)) = m_session_stop s"
  "m_calls (snd (send mp b s)) = m_calls s"
  "m_subscribe_requests (snd (send mp b s)) = m_subscribe_requests s"
  "m_unsubscribe_requests (snd (send mp b s)) = m_unsubscribe_requests s"
  "m_subscription_handlers (snd (send mp b s)) = m_subscription_handlers s"
  "m_register_requests (snd (send mp b s)) = m_register_requests s"
  "m_procedures (snd (send mp b s)) = m_procedures s"
  "heap_calls (snd (send mp b s)) = heap_calls s"
  "heap_subscribes (snd (send mp b s)) = heap_subscribes s"
  "heap_unsubscribes (snd (send mp b s)) = heap_unsubscribes s"
  "heap_registers (snd (send mp b s)) = heap_registers s"
  "heap_invocations (snd (send mp b s)) = heap_invocations s"
  "heap_next (snd (send mp b s)) = heap_next s"
  "zone_count (snd (send mp b s)) = zone_count s"
  "io_queue (snd (send mp b s)) = io_queue s"
  "pending_reads (snd (send mp b s)) = pending_reads s"
  "rx_errors (snd (send mp b s)) = rx_errors s"
  "alive (snd (send mp b s)) = alive s"
  by (rule exE [OF send_effect [of mp b s]], simp)+

lemma send_closed:
  "fail_after (m_out s) = Some 0 \<Longrightarrow> m_out (snd (send mp b s)) = m_out s"
  by (cases "m_stopped s")
    (simp_all add: send_def action_defs on_out_def asio_write_closed length_prefix_def
      htonl_bytes_def)

end
