(* ===== verification/Client_Messages.thy ===== *)
theory Client_Messages
  imports Session_State
begin

text \<open>
  The messages the session packs in its public operations (\<open>wamp_session.ipp\<close>: \<open>join\<close>,
  \<open>leave\<close>, \<open>process_goodbye\<close>, \<open>subscribe\<close>, \<open>unsubscribe\<close>, \<open>provide\<close>,
  the three \<open>publish\<close> and three \<open>call\<close> overloads), one definition per sequence of packer
  calls.  The predicate \<open>client_message\<close> is the specification: the shapes the WAMP roles
  caller, callee, publisher and subscriber may send.
\<close>

section \<open>Packer sequences\<close>

definition hello_message :: "string \<Rightarrow> buffer" where
  "hello_message realm =
     [Pack_Array 3, Pack_Int (message_code HELLO), Pack_String realm,
      Pack_Map 1, Pack_String ''roles'',
      Pack_Map 4, Pack_String ''caller'', Pack_Map 0, Pack_String ''callee'', Pack_Map 0,
      Pack_String ''publisher'', Pack_Map 0, Pack_String ''subscriber'', Pack_Map 0]"

definition goodbye_message :: "string \<Rightarrow> buffer" where
  "goodbye_message reason =
     [Pack_Array 3, Pack_Int (message_code GOODBYE), Pack_Map 0, Pack_String reason]"

definition subscribe_message :: "string \<Rightarrow> u64 \<Rightarrow> buffer" where
  "subscribe_message topic request_id =
     [Pack_Array 4, Pack_Int (message_code SUBSCRIBE), Pack_Uint64 request_id, Pack_Map 0,
      Pack_String topic]"

definition unsubscribe_message :: "wamp_subscription \<Rightarrow> u64 \<Rightarrow> buffer" where
  "unsubscribe_message subscription request_id =
     [Pack_Array 3, Pack_Int (message_code UNSUBSCRIBE), Pack_Uint64 request_id,
      Pack_Uint64 (subscription_id subscription)]"

text \<open>\<open>provide_options\<close> is an \<open>unordered_map<string, object>\<close>, packed as a map.\<close>

definition options_object :: "(string \<times> msgobj) list \<Rightarrow> msgobj" where
  "options_object options = MAP (map (\<lambda>(k, v). (STR_OBJ k, v)) options)"

definition register_message :: "string \<Rightarrow> (string \<times> msgobj) list \<Rightarrow> u64 \<Rightarrow> buffer" where
  "register_message name options request_id =
     [Pack_Array 4, Pack_Int (message_code REGISTER), Pack_Uint64 request_id,
      Pack_Object (options_object options), Pack_String name]"

definition publish_message :: "string \<Rightarrow> u64 \<Rightarrow> buffer" where
  "publish_message topic request_id =
     [Pack_Array 4, Pack_Int (message_code PUBLISH), Pack_Uint64 request_id, Pack_Map 0,
      Pack_String topic]"

definition publish_args_message :: "string \<Rightarrow> msgobj list \<Rightarrow> u64 \<Rightarrow> buffer" where
  "publish_args_message topic arguments request_id =
     [Pack_Array 5, Pack_Int (message_code PUBLISH), Pack_Uint64 request_id, Pack_Map 0,
      Pack_String topic, Pack_Object (ARRAY arguments)]"

definition publish_kw_message ::
    "string \<Rightarrow> msgobj list \<Rightarrow> (msgobj \<times> msgobj) list \<Rightarrow> u64 \<Rightarrow> buffer" where
  "publish_kw_message topic arguments kw_arguments request_id =
     [Pack_Array 6, Pack_Int (message_code PUBLISH), Pack_Uint64 request_id, Pack_Map 0,
      Pack_String topic, Pack_Object (ARRAY arguments), Pack_Object (MAP kw_arguments)]"

definition call_message :: "string \<Rightarrow> u64 \<Rightarrow> buffer" where
  "call_message procedure request_id =
     [Pack_Array 4, Pack_Int (message_code CALL), Pack_Uint64 request_id, Pack_Map 0,
      Pack_String procedure]"

definition call_args_message :: "string \<Rightarrow> msgobj list \<Rightarrow> u64 \<Rightarrow> buffer" where
  "call_args_message procedure arguments request_id =
     [Pack_Array 5, Pack_Int (message_code CALL), Pack_Uint64 request_id, Pack_Map 0,
      Pack_String procedure, Pack_Object (ARRAY arguments)]"

definition call_kw_message ::
    "string \<Rightarrow> msgobj list \<Rightarrow> (msgobj \<times> msgobj) list \<Rightarrow> u64 \<Rightarrow> buffer" where
  "call_kw_message procedure arguments kw_arguments request_id =
     [Pack_Array 6, Pack_Int (message_code CALL), Pack_Uint64 request_id, Pack_Map 0,
      Pack_String procedure, Pack_Object (ARRAY arguments), Pack_Object (MAP kw_arguments)]"

section \<open>The shapes a client may send\<close>

text \<open>Optional trailing payload: nothing, a list, or a list and a dictionary.\<close>

fun payload_ok :: "msgobj list \<Rightarrow> bool" where
  "payload_ok [] = True"
| "payload_ok [ARRAY _] = True"
| "payload_ok [ARRAY _, MAP _] = True"
| "payload_ok _ = False"

definition has_code :: "msgobj \<Rightarrow> message_type \<Rightarrow> bool" where
  "has_code x t \<longleftrightarrow> x = int_object (message_code t)"

fun client_object :: "msgobj \<Rightarrow> bool" where
  "client_object (ARRAY (code # rest)) =
     (if has_code code HELLO then
        (case rest of [STR_OBJ _, MAP _] \<Rightarrow> True | _ \<Rightarrow> False)
      else if has_code code GOODBYE then
        (case rest of [MAP _, STR_OBJ _] \<Rightarrow> True | _ \<Rightarrow> False)
      else if has_code code SUBSCRIBE then
        (case rest of [POSITIVE_INTEGER _, MAP _, STR_OBJ _] \<Rightarrow> True | _ \<Rightarrow> False)
      else if has_code code UNSUBSCRIBE then
        (case rest of [POSITIVE_INTEGER _, POSITIVE_INTEGER _] \<Rightarrow> True | _ \<Rightarrow> False)
      else if has_code code REGISTER then
        (case rest of [POSITIVE_INTEGER _, MAP _, STR_OBJ _] \<Rightarrow> True | _ \<Rightarrow> False)
      else if has_code code PUBLISH \<or> has_code code CALL then
        (case rest of (POSITIVE_INTEGER _ # MAP _ # STR_OBJ _ # payload) \<Rightarrow> payload_ok payload
                    | _ \<Rightarrow> False)
      else if has_code code YIELD then
        (case rest of (POSITIVE_INTEGER _ # MAP _ # payload) \<Rightarrow> payload_ok payload | _ \<Rightarrow> False)
      else if has_code code ERROR then
        (case rest of (t # POSITIVE_INTEGER _ # MAP _ # STR_OBJ _ # payload) \<Rightarrow>
                        has_code t INVOCATION \<and> payload_ok payload
                    | _ \<Rightarrow> False)
      else False)"
| "client_object _ = False"

definition client_message :: "buffer \<Rightarrow> bool" where
  "client_message b \<longleftrightarrow> (\<exists>v. packed_object b = Some v \<and> client_object v)"

lemmas client_message_defs =
  hello_message_def goodbye_message_def subscribe_message_def unsubscribe_message_def
  register_message_def publish_message_def publish_args_message_def publish_kw_message_def
  call_message_def call_args_message_def call_kw_message_def options_object_def

named_theorems client_messages "buffers that hold one client message"

lemma hello_message_ok [client_messages]: "client_message (hello_message realm)"
  by (simp add: client_message_def client_message_defs packed_object_def int_object_def has_code_def)

lemma goodbye_message_ok [client_messages]: "client_message (goodbye_message reason)"
  by (simp add: client_message_def client_message_defs packed_object_def int_object_def has_code_def)

lemma subscribe_message_ok [client_messages]: "client_message (subscribe_message topic r)"
  by (simp add: client_message_def client_message_defs packed_object_def int_object_def has_code_def)

lemma unsubscribe_message_ok [client_messages]: "client_message (unsubscribe_message sub r)"
  by (simp add: client_message_def client_message_defs packed_object_def int_object_def has_code_def)

lemma register_message_ok [client_messages]: "client_message (register_message name options r)"
  by (simp add: client_message_def client_message_defs packed_object_def int_object_def has_code_def)

lemma publish_message_ok [client_messages]: "client_message (publish_message topic r)"
  by (simp add: client_message_def client_message_defs packed_object_def int_object_def has_code_def)

lemma publish_args_message_ok [client_messages]: "client_message (publish_args_message topic a r)"
  by (simp add: client_message_def client_message_defs packed_object_def int_object_def has_code_def)

lemma publish_kw_message_ok [client_messages]: "client_message (publish_kw_message topic a k r)"
  by (simp add: client_message_def client_message_defs packed_object_def int_object_def has_code_def)

lemma call_message_ok [client_messages]: "client_message (call_message f r)"
  by (simp add: client_message_def client_message_defs packed_object_def int_object_def has_code_def)

lemma call_args_message_ok [client_messages]: "client_message (call_args_message f a r)"
  by (simp add: client_message_def client_message_defs packed_object_def int_object_def has_code_def)

lemma call_kw_message_ok [client_messages]: "client_message (call_kw_message f a k r)"
  by (simp add: client_message_def client_message_defs packed_object_def int_object_def has_code_def)

lemma reply_message_ok [client_messages]: "client_message (reply_message rep r)"
  by (cases rep)
    (simp_all add: client_message_def reply_messages packed_object_def int_object_def has_code_def)

text \<open>Reading the packed object back gives the fields that were packed, in order.\<close>

lemma message_objects:
  "packed_object (hello_message realm) =
     Some (ARRAY [POSITIVE_INTEGER 1, STR_OBJ realm,
       MAP [(STR_OBJ ''roles'', MAP [(STR_OBJ ''caller'', MAP []), (STR_OBJ ''callee'', MAP []),
         (STR_OBJ ''publisher'', MAP []), (STR_OBJ ''subscriber'', MAP [])])]])"
  "packed_object (goodbye_message reason) =
     Some (ARRAY [POSITIVE_INTEGER 6, MAP [], STR_OBJ reason])"
  "packed_object (subscribe_message topic r) =
     Some (ARRAY [POSITIVE_INTEGER 32, POSITIVE_INTEGER r, MAP [], STR_OBJ topic])"
  "packed_object (unsubscribe_message sub r) =
     Some (ARRAY [POSITIVE_INTEGER 34, POSITIVE_INTEGER r, POSITIVE_INTEGER (subscription_id sub)])"
  "packed_object (register_message name options r) =
     Some (ARRAY [POSITIVE_INTEGER 64, POSITIVE_INTEGER r, options_object options, STR_OBJ name])"
  "packed_object (publish_message topic r) =
     Some (ARRAY [POSITIVE_INTEGER 16, POSITIVE_INTEGER r, MAP [], STR_OBJ topic])"
  "packed_object (publish_args_message topic a r) =
     Some (ARRAY [POSITIVE_INTEGER 16, POSITIVE_INTEGER r, MAP [], STR_OBJ topic, ARRAY a])"
  "packed_object (publish_kw_message topic a k r) =
     Some (ARRAY [POSITIVE_INTEGER 16, POSITIVE_INTEGER r, MAP [], STR_OBJ topic, ARRAY a, MAP k])"
  "packed_object (call_message f r) =
     Some (ARRAY [POSITIVE_INTEGER 48, POSITIVE_INTEGER r, MAP [], STR_OBJ f])"
  "packed_object (call_args_message f a r) =
     Some (ARRAY [POSITIVE_INTEGER 48, POSITIVE_INTEGER r, MAP [], STR_OBJ f, ARRAY a])"
  "packed_object (call_kw_message f a k r) =
     Some (ARRAY [POSITIVE_INTEGER 48, POSITIVE_INTEGER r, MAP [], STR_OBJ f, ARRAY a, MAP k])"
  by (simp_all add: client_message_defs packed_object_def int_object_def)

end
