(* ===== verification/Accessors.thy ===== *)
theory Accessors
  imports Client_Messages
begin

text \<open>
  Properties of the value classes: keyword and positional access to the payload of events, call
  results and invocations, the lifetime of call results, and the messages that are packed.
\<close>

section \<open>Payload access\<close>

text \<open>C40: Access to the payload of events, call results and invocations.  Positional access returns the
  converted element exactly when the index is below the number of arguments and the conversion
  succeeds, and throws \<open>out_of_range\<close> exactly when the index is not below it.  Keyword access finds
  the first entry with that string key, whatever other entries the map has, converts it, and
  throws \<open>out_of_range\<close> when there is none.  With a fallback it returns the fallback instead; but
  the overload that takes a \<open>char*\<close> key throws the fallback.\<close>

theorem payload_access:
  "(\<forall>i v. (event_argument conv e i = Throw (no_argument i) \<longleftrightarrow> event_number_of_arguments e \<le> i) \<and>
     (event_argument conv e i = Ok v \<longleftrightarrow>
        (\<exists>xs. ev_arguments e = ARRAY xs \<and> i < length xs \<and> conv (xs ! i) = Some v)) \<and>
     (call_result_argument conv r i = Throw (no_argument i) \<longleftrightarrow> call_result_number_of_arguments r \<le> i) \<and>
     (call_result_argument conv r i = Ok v \<longleftrightarrow>
        (\<exists>xs. obj (cr_arguments r) = ARRAY xs \<and> i < length xs \<and> conv (xs ! i) = Some v)) \<and>
     (invocation_argument conv iv i = Throw (no_argument i) \<longleftrightarrow> invocation_number_of_arguments iv \<le> i) \<and>
     (invocation_argument conv iv i = Ok v \<longleftrightarrow>
        (\<exists>xs. inv_arguments iv = ARRAY xs \<and> i < length xs \<and> conv (xs ! i) = Some v))) \<and>
   (let e' = e\<lparr>ev_kw_arguments := MAP kvs\<rparr>; r' = r\<lparr>cr_kw_arguments := Obj_Ref z (MAP kvs)\<rparr>;
        iv' = iv\<lparr>inv_kw_arguments := MAP kvs\<rparr>;
        found = (\<lambda>missing. case map_of (string_entries kvs) key of
                   Some v \<Rightarrow> or_throw (conv v) type_error | None \<Rightarrow> missing)
    in event_kw_argument conv e' key = found (Throw (no_keyword key)) \<and>
       call_result_kw_argument conv r' key = found (Throw (no_keyword key)) \<and>
       invocation_kw_argument conv iv' key = found (Throw (no_keyword key)) \<and>
       event_kw_argument_or conv e' key d = kw_returned (found (Ok d)) \<and>
       call_result_kw_argument_or conv r' key d = kw_returned (found (Ok d)) \<and>
       invocation_kw_argument_or conv iv' key d = kw_returned (found (Ok d)) \<and>
       (map_of (string_entries kvs) key = None \<and> nul_free key \<longrightarrow>
          event_kw_argument_or_c conv e' key d = Thrown_Value d \<and>
          call_result_kw_argument_or_c conv r' key d = Thrown_Value d \<and>
          invocation_kw_argument_or_c conv iv' key d = Thrown_Value d))"
proof (intro conjI allI)
  fix i v
  note arg_rules = event.arg_in_bounds_iff event.arg_value_iff call_result.arg_in_bounds_iff
    call_result.arg_value_iff invocation.arg_in_bounds_iff invocation.arg_value_iff
  show "event_argument conv e i = Throw (no_argument i) \<longleftrightarrow> event_number_of_arguments e \<le> i"
    "event_argument conv e i = Ok v \<longleftrightarrow>
      (\<exists>xs. ev_arguments e = ARRAY xs \<and> i < length xs \<and> conv (xs ! i) = Some v)"
    "call_result_argument conv r i = Throw (no_argument i) \<longleftrightarrow> call_result_number_of_arguments r \<le> i"
    "call_result_argument conv r i = Ok v \<longleftrightarrow>
      (\<exists>xs. obj (cr_arguments r) = ARRAY xs \<and> i < length xs \<and> conv (xs ! i) = Some v)"
    "invocation_argument conv iv i = Throw (no_argument i) \<longleftrightarrow> invocation_number_of_arguments iv \<le> i"
    "invocation_argument conv iv i = Ok v \<longleftrightarrow>
      (\<exists>xs. inv_arguments iv = ARRAY xs \<and> i < length xs \<and> conv (xs ! i) = Some v)"
    by (rule arg_rules)+
qed (simp add: Let_def event.kw_lookup event.kw_or_lookup call_result.kw_lookup
    call_result.kw_or_lookup invocation.kw_lookup invocation.kw_or_lookup event.kw_or_missing_c
    call_result.kw_or_missing_c invocation.kw_or_missing_c split: option.splits)

theorem payload_access_witness:
  "event_kw_argument_or_c example_string (new_event\<lparr>ev_kw_arguments := MAP [(STR_OBJ ''a'', STR_OBJ ''x'')]\<rparr>)
     ''b'' ''none'' = Thrown_Value ''none''"
proof -
  have "map_of (string_entries [(STR_OBJ ''a'', STR_OBJ ''x'')]) ''b'' = None" "nul_free ''b''"
    by code_simp+
  then show ?thesis
    using payload_access [of example_string new_event _ _ "[(STR_OBJ ''a'', STR_OBJ ''x'')]" _ "''b''"]
    unfolding Let_def by blast
qed

section \<open>Call results\<close>

text \<open>Copying a call result, by construction or by assignment to another object, gives the copy
  the same arguments in a zone of its own, and leaves the original readable with the same
  arguments; destroying the original afterwards does not affect the copy.\<close>

lemma call_result_copy:
  assumes "store_safe st" and "op \<in> {Construct_Copy a b, Assign_Copy a b}" and "a \<noteq> b"
    and "result_op_legal op st" and "results st b = Some r"
  shows "\<exists>st' c st''. run_result_op op st = (Ok (), st') \<and> results st' a = Some c \<and>
    results st' b = Some r \<and> cr_zone c \<noteq> cr_zone r \<and>
    deref st' (cr_arguments r) = Some (obj (cr_arguments r)) \<and>
    run_result_op (Destruct b) st' = (Ok (), st'') \<and> results st'' a = Some c \<and>
    deref st'' (cr_arguments c) = Some (obj (cr_arguments r)) \<and>
    deref st'' (cr_kw_arguments c) = Some (obj (cr_kw_arguments r))"
proof -
  obtain st' where run: "run_result_op op st = (Ok (), st')" and safe: "store_safe st'"
    using run_result_op_safe [OF assms(1,4)] by blast
  have "results st' a = Some (cloned (zone_next st) r) \<and> results st' b = Some r"
  proof (cases "op = Construct_Copy a b")
    case True
    with run assms(3,5) show ?thesis by (auto simp: construct_copy_eq [OF assms(1,5)])
  next
    case False
    with assms(2,4) obtain t where "op = Assign_Copy a b" "results st a = Some t" by auto
    with run assms(3,5) show ?thesis
      by (auto simp: assign_copy_eq [OF assms(1) _ assms(5,3)] free_zone_def split: option.splits)
  qed
  then have copy: "results st' a = Some (cloned (zone_next st) r)" and b: "results st' b = Some r"
    by simp_all
  have legal: "result_op_legal (Destruct b) st'" using b by simp
  obtain st'' where destroy: "run_result_op (Destruct b) st' = (Ok (), st'')" and safe': "store_safe st''"
    using run_result_op_safe [OF safe legal] by blast
  have copy': "results st'' a = Some (cloned (zone_next st) r)"
    using destroy copy b assms(3) by (auto simp: destruct_def)
  have "cr_zone r \<noteq> Some (zone_next st)"
    using store_safe_live [OF assms(1,5)] by auto
  moreover have "deref st' (cr_arguments r) = Some (obj (cr_arguments r))"
    using deref_own [OF store_safe_refs [OF safe b]] store_safe_live [OF safe b] by blast
  moreover have "deref st'' (cr_arguments (cloned (zone_next st) r)) = Some (obj (cr_arguments r))"
    "deref st'' (cr_kw_arguments (cloned (zone_next st) r)) = Some (obj (cr_kw_arguments r))"
    using deref_own [OF store_safe_refs [OF safe' copy']] store_safe_live [OF safe' copy'] by auto
  ultimately show ?thesis
    using run copy b destroy copy' by (intro exI [of _ st'] exI [of _ "cloned (zone_next st) r"]
        exI [of _ st'']) auto
qed

text \<open>C24: Any sequence of constructions, copies, moves, assignments and destructions of call results
  that the language allows runs without undefined behaviour; afterwards the arguments of every
  result can be read, no two results own one zone, and exactly the owned zones are live, so
  nothing has leaked.  Copying then, by construction or by assignment to another object, gives the
  copy the same arguments in a zone of its own and leaves the original readable with the same
  arguments; destroying the original afterwards does not affect the copy.\<close>

theorem call_result_lifetime:
  assumes "result_ops_legal ops empty_store"
  shows "\<exists>st. run_result_ops ops empty_store = (Ok (), st) \<and>
    (\<forall>a r. results st a = Some r \<longrightarrow>
       deref st (cr_arguments r) \<noteq> None \<and> deref st (cr_kw_arguments r) \<noteq> None) \<and>
    (\<forall>a b r r'. results st a = Some r \<and> results st b = Some r' \<and> cr_zone r \<noteq> None \<and>
       cr_zone r = cr_zone r' \<longrightarrow> a = b) \<and>
    (\<forall>z. zone_live st z \<longleftrightarrow> (\<exists>a r. results st a = Some r \<and> cr_zone r = Some z)) \<and>
    (\<forall>a b r op. a \<noteq> b \<and> op \<in> {Construct_Copy a b, Assign_Copy a b} \<and> result_op_legal op st \<and>
       results st b = Some r \<longrightarrow>
       (\<exists>st' c st''. run_result_op op st = (Ok (), st') \<and> results st' a = Some c \<and>
          results st' b = Some r \<and> cr_zone c \<noteq> cr_zone r \<and>
          deref st' (cr_arguments r) = Some (obj (cr_arguments r)) \<and>
          run_result_op (Destruct b) st' = (Ok (), st'') \<and> results st'' a = Some c \<and>
          deref st'' (cr_arguments c) = Some (obj (cr_arguments r)) \<and>
          deref st'' (cr_kw_arguments c) = Some (obj (cr_kw_arguments r))))"
proof -
  obtain st where st: "run_result_ops ops empty_store = (Ok (), st)" and safe: "store_safe st"
    using run_result_ops_safe [OF store_safe_empty assms] by blast
  have "zones_owned st"
    using run_result_ops_owned [OF store_safe_empty _ assms] st
    by (simp add: zones_owned_def empty_store_def)
  then have "zone_live st z \<longleftrightarrow> (\<exists>a r. results st a = Some r \<and> cr_zone r = Some z)" for z
    using store_safe_live [OF safe] by (auto simp: zones_owned_def)
  moreover have "deref st (cr_arguments r) \<noteq> None \<and> deref st (cr_kw_arguments r) \<noteq> None"
    if "results st a = Some r" for a r
    using deref_own [OF store_safe_refs [OF safe that]] store_safe_live [OF safe that] by simp
  moreover have "a = b" if "results st a = Some r" "results st b = Some r'" "cr_zone r \<noteq> None"
    "cr_zone r = cr_zone r'" for a b r r'
    using store_safe_owner [OF safe that(1,2)] that(3,4) by auto
  ultimately show ?thesis
    using st call_result_copy [OF safe]
    by (rule_tac x = st in exI) (intro conjI allI impI; (assumption | elim conjE | simp)+)
qed

theorem call_result_lifetime_witness:
  "\<exists>st st' c. run_result_ops [Construct_From_Message 0 (ARRAY [NIL]) (MAP []), Construct_Copy 1 0,
      Assign_Move 1 0, Assign_Copy 0 1, Destruct 1] empty_store = (Ok (), st) \<and>
    run_result_op (Construct_Copy 1 0) st = (Ok (), st') \<and> results st' 1 = Some c"
proof -
  let ?ops = "[Construct_From_Message 0 (ARRAY [NIL]) (MAP []), Construct_Copy 1 0, Assign_Move 1 0,
      Assign_Copy 0 1, Destruct 1]"
  let ?st = "snd (run_result_ops ?ops empty_store)"
  note defs = empty_store_def construct_from_message_def new_zone_def construct_copy_def
    clone_into_def deref_def call_result_with_zone_def call_result_set_arguments_def
    call_result_set_kw_arguments_def assign_move_def assign_copy_def free_zone_def moved_from_def
    static_arguments_def static_kw_arguments_def destruct_def
  have legal: "result_ops_legal ?ops empty_store" by (simp add: defs)
  obtain st where run: "run_result_ops ?ops empty_store = (Ok (), st)" and
    copy: "\<And>a b r op. a \<noteq> b \<and> op \<in> {Construct_Copy a b, Assign_Copy a b} \<and> result_op_legal op st \<and>
      results st b = Some r \<Longrightarrow> \<exists>st' c. run_result_op op st = (Ok (), st') \<and> results st' a = Some c"
    using call_result_lifetime [OF legal] by metis
  have "results ?st 1 = None \<and> results ?st 0 \<noteq> None" by (simp add: defs action_defs)
  then show ?thesis using run copy [of 1 0 "Construct_Copy 1 0"] by auto
qed

end
