(* ===== verification/Session_Api.thy ===== *)
theory Session_Api
  imports Client_Messages
begin

text \<open>
  The public operations of \<open>wamp_session\<close>.  Each packs a message, takes a request id where
  the message has one, allocates the request object, and passes a function to
  \<open>m_io.dispatch\<close>.  On a thread that runs the io service the function is called at once
  (\<open>inline\<close>), and an exception it throws leaves the operation; on another thread it is queued.
  The functions passed are the \<open>_task\<close> definitions.  The locale \<open>request_op\<close> is the shape that
  \<open>subscribe\<close>, \<open>unsubscribe\<close>, \<open>provide\<close> and \<open>call\<close> share; it is interpreted on all six of
  them.
\<close>

section \<open>The dispatched functions\<close>

definition close_out :: "ostream \<Rightarrow> ostream" where
  "close_out os = os\<lparr>fail_after := Some 0\<rparr>"

definition on_stop :: "(unit promise, 'a) action \<Rightarrow> (session, 'a) action" where
  "on_stop f s = (case f (m_session_stop s) of (r, p) \<Rightarrow> (r, s\<lparr>m_session_stop := p\<rparr>))"

definition on_join :: "(u64 promise, 'a) action \<Rightarrow> (session, 'a) action" where
  "on_join f s = (case f (m_session_join s) of (r, p) \<Rightarrow> (r, s\<lparr>m_session_join := p\<rparr>))"

definition on_leave :: "(string promise, 'a) action \<Rightarrow> (session, 'a) action" where
  "on_leave f s = (case f (m_session_leave s) of (r, p) \<Rightarrow> (r, s\<lparr>m_session_leave := p\<rparr>))"

definition on_handshake :: "(bool promise, 'a) action \<Rightarrow> (session, 'a) action" where
  "on_handshake f s = (case f (m_handshake s) of (r, p) \<Rightarrow> (r, s\<lparr>m_handshake := p\<rparr>))"

definition stop_task :: "(session, unit) action" where
  "stop_task s =
     (if \<not> alive s then (Ok (), s)
      else if m_stopped s then (Throw (Protocol_Error ''session already stopped''), s)
      else if m_session_id s \<noteq> 0 then (Throw (Protocol_Error ''session still joined''), s)
      else on_stop (set_value ())
             (s\<lparr>m_stopped := True, m_in_open := False, m_out := close_out (m_out s)\<rparr>))"

definition join_task :: "msgpack \<Rightarrow> buffer \<Rightarrow> (session, unit) action" where
  "join_task mp b s =
     (if \<not> alive s then (Ok (), s)
      else if m_session_id s \<noteq> 0 then (Throw (Protocol_Error ''session already joined''), s)
      else send mp b s)"

definition leave_task :: "msgpack \<Rightarrow> buffer \<Rightarrow> (session, unit) action" where
  "leave_task mp b s =
     (if \<not> alive s then (Ok (), s)
      else if m_session_id s = 0 then (Throw No_Session_Error, s)
      else if m_goodbye_sent s then (Throw (Protocol_Error ''goodbye already sent''), s)
      else send mp b (s\<lparr>m_goodbye_sent := True, m_session_id := 0\<rparr>))"

text \<open>
  \<open>emplace\<close> into a table of requests.  The function owns the request object: an object it does not
  enter, because the id is in use already, is released with the function.
\<close>

definition enter_subscribe :: "u64 \<Rightarrow> nat \<Rightarrow> session \<Rightarrow> session" where
  "enter_subscribe request_id p s =
     (if m_subscribe_requests s request_id = None
      then s\<lparr>m_subscribe_requests := map_emplace (m_subscribe_requests s) request_id p\<rparr>
      else release_subscribe p s)"

definition enter_unsubscribe :: "u64 \<Rightarrow> nat \<Rightarrow> session \<Rightarrow> session" where
  "enter_unsubscribe request_id p s =
     (if m_unsubscribe_requests s request_id = None
      then s\<lparr>m_unsubscribe_requests := map_emplace (m_unsubscribe_requests s) request_id p\<rparr>
      else release_unsubscribe p s)"

definition enter_register :: "u64 \<Rightarrow> nat \<Rightarrow> session \<Rightarrow> session" where
  "enter_register request_id p s =
     (if m_register_requests s request_id = None
      then s\<lparr>m_register_requests := map_emplace (m_register_requests s) request_id p\<rparr>
      else release_register p s)"

definition enter_call :: "u64 \<Rightarrow> nat \<Rightarrow> session \<Rightarrow> session" where
  "enter_call request_id p s =
     (if m_calls s request_id = None
      then s\<lparr>m_calls := map_emplace (m_calls s) request_id p\<rparr>
      else release_call p s)"

lemmas enter_defs = enter_subscribe_def enter_unsubscribe_def enter_register_def enter_call_def

text \<open>
  A request function that finds no session, or none that is joined, releases the request object:
  the future of the request becomes ready with \<open>broken_promise\<close>.
\<close>

definition subscribe_task :: "msgpack \<Rightarrow> u64 \<Rightarrow> nat \<Rightarrow> buffer \<Rightarrow> (session, unit) action" where
  "subscribe_task mp request_id p b s =
     (if \<not> alive s then (Ok (), release_subscribe p s)
      else if m_session_id s = 0 then (Throw No_Session_Error, release_subscribe p s)
      else send mp b (enter_subscribe request_id p s))"

definition unsubscribe_task :: "msgpack \<Rightarrow> u64 \<Rightarrow> nat \<Rightarrow> buffer \<Rightarrow> (session, unit) action" where
  "unsubscribe_task mp request_id p b s =
     (if \<not> alive s then (Ok (), release_unsubscribe p s)
      else if m_session_id s = 0 then (Throw No_Session_Error, release_unsubscribe p s)
      else send mp b (enter_unsubscribe request_id p s))"

definition provide_task :: "msgpack \<Rightarrow> u64 \<Rightarrow> nat \<Rightarrow> buffer \<Rightarrow> (session, unit) action" where
  "provide_task mp request_id p b s =
     (if \<not> alive s then (Ok (), release_register p s)
      else if m_session_id s = 0 then (Throw No_Session_Error, release_register p s)
      else send mp b (enter_register request_id p s))"

definition publish_task :: "msgpack \<Rightarrow> buffer \<Rightarrow> (session, unit) action" where
  "publish_task mp b s =
     (if \<not> alive s then (Ok (), s)
      else if m_session_id s = 0 then (Throw No_Session_Error, s)
      else send mp b s)"

definition call_task :: "msgpack \<Rightarrow> u64 \<Rightarrow> nat \<Rightarrow> buffer \<Rightarrow> (session, unit) action" where
  "call_task mp request_id p b s =
     (if \<not> alive s then (Ok (), release_call p s)
      else if m_session_id s = 0 then (Throw No_Session_Error, release_call p s)
      else send mp b (enter_call request_id p s))"

definition send_result_task :: "msgpack \<Rightarrow> buffer \<Rightarrow> (session, unit) action" where
  "send_result_task mp b s = (if \<not> alive s then (Ok (), s) else send mp b s)"

fun run_task :: "msgpack \<Rightarrow> task \<Rightarrow> (session, unit) action" where
  "run_task mp Stop_Task = stop_task"
| "run_task mp (Join_Task b) = join_task mp b"
| "run_task mp (Leave_Task b) = leave_task mp b"
| "run_task mp (Subscribe_Task r p b) = subscribe_task mp r p b"
| "run_task mp (Unsubscribe_Task r p b) = unsubscribe_task mp r p b"
| "run_task mp (Provide_Task r p b) = provide_task mp r p b"
| "run_task mp (Publish_Task b) = publish_task mp b"
| "run_task mp (Call_Task r p b) = call_task mp r p b"
| "run_task mp (Send_Result_Task b) = send_result_task mp b"

definition io_dispatch :: "msgpack \<Rightarrow> bool \<Rightarrow> task \<Rightarrow> (session, unit) action" where
  "io_dispatch mp inline t s =
     (if inline then run_task mp t s else (Ok (), s\<lparr>io_queue := io_queue s @ [t]\<rparr>))"

section \<open>The public operations\<close>

text \<open>
  \<open>start\<close> writes the RawSocket handshake (magic byte, maximal length and serializer, two
  reserved bytes) and reads the four-byte reply.
\<close>

definition handshake_request :: "byte list" where
  "handshake_request = [0x7F, 0xF2, 0x00, 0x00]"

definition start :: "(session, unit) action" where
  "start s =
     and_then (on_out (asio_write handshake_request))
       (and_then (update (\<lambda>s. s\<lparr>pending_reads := pending_reads s @ [Read_Handshake]\<rparr>))
          (on_handshake get_future))
       (s\<lparr>m_buffer_message_length := handshake_request\<rparr>)"

definition stop :: "msgpack \<Rightarrow> bool \<Rightarrow> (session, unit) action" where
  "stop mp inline = and_then (io_dispatch mp inline Stop_Task) (on_stop get_future)"

definition join :: "msgpack \<Rightarrow> bool \<Rightarrow> string \<Rightarrow> (session, unit) action" where
  "join mp inline realm =
     and_then (io_dispatch mp inline (Join_Task (hello_message realm))) (on_join get_future)"

definition leave :: "msgpack \<Rightarrow> bool \<Rightarrow> string \<Rightarrow> (session, unit) action" where
  "leave mp inline reason =
     and_then (io_dispatch mp inline (Leave_Task (goodbye_message reason))) (on_leave get_future)"

text \<open>
  A request's future belongs to the object at the returned address; it is retrieved once, here.
\<close>

definition subscribe :: "msgpack \<Rightarrow> bool \<Rightarrow> string \<Rightarrow> event_handler \<Rightarrow> (session, nat) action" where
  "subscribe mp inline topic handler s =
     (let (request_id, s1) = next_request_id s;
          (p, s2) = alloc_subscribe handler s1
      in and_then
           (io_dispatch mp inline (Subscribe_Task request_id p (subscribe_message topic request_id)))
           (ret p) s2)"

definition unsubscribe :: "msgpack \<Rightarrow> bool \<Rightarrow> wamp_subscription \<Rightarrow> (session, nat) action" where
  "unsubscribe mp inline subscription s =
     (let (request_id, s1) = next_request_id s;
          (p, s2) = alloc_unsubscribe s1
      in and_then
           (io_dispatch mp inline
              (Unsubscribe_Task request_id p (unsubscribe_message subscription request_id)))
           (ret p) s2)"

definition provide ::
    "msgpack \<Rightarrow> bool \<Rightarrow> string \<Rightarrow> procedure \<Rightarrow> (string \<times> msgobj) list \<Rightarrow> (session, nat) action" where
  "provide mp inline name procedure options s =
     (let (request_id, s1) = next_request_id s;
          (p, s2) = alloc_register procedure s1
      in and_then
           (io_dispatch mp inline (Provide_Task request_id p (register_message name options request_id)))
           (ret p) s2)"

definition publish :: "msgpack \<Rightarrow> bool \<Rightarrow> string \<Rightarrow> (session, unit) action" where
  "publish mp inline topic s =
     (let (request_id, s1) = next_request_id s
      in io_dispatch mp inline (Publish_Task (publish_message topic request_id)) s1)"

definition publish_args :: "msgpack \<Rightarrow> bool \<Rightarrow> string \<Rightarrow> msgobj list \<Rightarrow> (session, unit) action" where
  "publish_args mp inline topic arguments s =
     (let (request_id, s1) = next_request_id s
      in io_dispatch mp inline (Publish_Task (publish_args_message topic arguments request_id)) s1)"

definition publish_kw ::
    "msgpack \<Rightarrow> bool \<Rightarrow> string \<Rightarrow> msgobj list \<Rightarrow> (msgobj \<times> msgobj) list \<Rightarrow> (session, unit) action" where
  "publish_kw mp inline topic arguments kw_arguments s =
     (let (request_id, s1) = next_request_id s
      in io_dispatch mp inline
           (Publish_Task (publish_kw_message topic arguments kw_arguments request_id)) s1)"

definition call :: "msgpack \<Rightarrow> bool \<Rightarrow> string \<Rightarrow> (session, nat) action" where
  "call mp inline procedure s =
     (let (request_id, s1) = next_request_id s;
          (p, s2) = alloc_call s1
      in and_then
           (io_dispatch mp inline (Call_Task request_id p (call_message procedure request_id)))
           (ret p) s2)"

definition call_args :: "msgpack \<Rightarrow> bool \<Rightarrow> string \<Rightarrow> msgobj list \<Rightarrow> (session, nat) action" where
  "call_args mp inline procedure arguments s =
     (let (request_id, s1) = next_request_id s;
          (p, s2) = alloc_call s1
      in and_then
           (io_dispatch mp inline
              (Call_Task request_id p (call_args_message procedure arguments request_id)))
           (ret p) s2)"

definition call_kw ::
    "msgpack \<Rightarrow> bool \<Rightarrow> string \<Rightarrow> msgobj list \<Rightarrow> (msgobj \<times> msgobj) list \<Rightarrow> (session, nat) action" where
  "call_kw mp inline procedure arguments kw_arguments s =
     (let (request_id, s1) = next_request_id s;
          (p, s2) = alloc_call s1
      in and_then
           (io_dispatch mp inline
              (Call_Task request_id p (call_kw_message procedure arguments kw_arguments request_id)))
           (ret p) s2)"

section \<open>Replies to invocations\<close>

text \<open>The function object \<open>process_invocation\<close> installs in an invocation.\<close>

definition send_result :: "msgpack \<Rightarrow> bool \<Rightarrow> send_result_fn \<Rightarrow> buffer \<Rightarrow> (session, unit) action" where
  "send_result mp inline f b s =
     (if \<not> alive s then (Ok (), s) else io_dispatch mp inline (Send_Result_Task b) s)"

definition invocation_reply :: "msgpack \<Rightarrow> bool \<Rightarrow> nat \<Rightarrow> reply \<Rightarrow> (session, unit) action" where
  "invocation_reply mp inline p rep s =
     (case heap_invocations s p of
        None \<Rightarrow> (Undefined_Behaviour, s)
      | Some iv \<Rightarrow>
          (case reply_with (send_result mp inline) (reply_message rep) (iv, s) of
             (r, (iv', s')) \<Rightarrow> (r, s'\<lparr>heap_invocations := (heap_invocations s')(p \<mapsto> iv')\<rparr>)))"

section \<open>User code\<close>

text \<open>
  What a callback may do: call public operations of the session and reply to invocations, each
  time depending on what came back, and return or throw.
\<close>

datatype api_call =
    Api_Stop
  | Api_Join string
  | Api_Leave string
  | Api_Subscribe string event_handler
  | Api_Unsubscribe wamp_subscription
  | Api_Provide string procedure "(string \<times> msgobj) list"
  | Api_Publish string
  | Api_Publish_Args string "msgobj list"
  | Api_Publish_Kw string "msgobj list" "(msgobj \<times> msgobj) list"
  | Api_Call string
  | Api_Call_Args string "msgobj list"
  | Api_Call_Kw string "msgobj list" "(msgobj \<times> msgobj) list"

definition no_value :: "(session, unit) action \<Rightarrow> (session, nat option) action" where
  "no_value m = and_then m (ret None)"

definition future_of :: "(session, nat) action \<Rightarrow> (session, nat option) action" where
  "future_of m = bind_act m (\<lambda>p. ret (Some p))"

fun run_api :: "msgpack \<Rightarrow> bool \<Rightarrow> api_call \<Rightarrow> (session, nat option) action" where
  "run_api mp inline Api_Stop = no_value (stop mp inline)"
| "run_api mp inline (Api_Join realm) = no_value (join mp inline realm)"
| "run_api mp inline (Api_Leave reason) = no_value (leave mp inline reason)"
| "run_api mp inline (Api_Subscribe topic h) = future_of (subscribe mp inline topic h)"
| "run_api mp inline (Api_Unsubscribe sub) = future_of (unsubscribe mp inline sub)"
| "run_api mp inline (Api_Provide name f options) = future_of (provide mp inline name f options)"
| "run_api mp inline (Api_Publish topic) = no_value (publish mp inline topic)"
| "run_api mp inline (Api_Publish_Args topic a) = no_value (publish_args mp inline topic a)"
| "run_api mp inline (Api_Publish_Kw topic a k) = no_value (publish_kw mp inline topic a k)"
| "run_api mp inline (Api_Call f) = future_of (call mp inline f)"
| "run_api mp inline (Api_Call_Args f a) = future_of (call_args mp inline f a)"
| "run_api mp inline (Api_Call_Kw f a k) = future_of (call_kw mp inline f a k)"

datatype prog =
    Done
  | Raise exn
  | Api_Then api_call "nat option result \<Rightarrow> prog"
  | Reply_Then nat reply "unit result \<Rightarrow> prog"

text \<open>Callbacks run on the io thread, so their calls are dispatched inline.\<close>

primrec run_prog :: "msgpack \<Rightarrow> prog \<Rightarrow> (session, unit) action" where
  "run_prog mp Done = ret ()"
| "run_prog mp (Raise e) = raise e"
| "run_prog mp (Api_Then c k) =
     (\<lambda>s. case run_api mp True c s of (r, s') \<Rightarrow> run_prog mp (k r) s')"
| "run_prog mp (Reply_Then p rep k) =
     (\<lambda>s. case invocation_reply mp True p rep s of (r, s') \<Rightarrow> run_prog mp (k r) s')"

text \<open>The application: the behaviour of its event handlers and procedures, by name.\<close>

record user =
  on_event :: "event_handler \<Rightarrow> wamp_event \<Rightarrow> prog"
  on_invoke :: "procedure \<Rightarrow> nat \<Rightarrow> wamp_invocation \<Rightarrow> prog"

lemmas task_defs =
  stop_task_def join_task_def leave_task_def subscribe_task_def unsubscribe_task_def
  provide_task_def publish_task_def call_task_def send_result_task_def

lemmas request_defs =
  subscribe_def unsubscribe_def provide_def call_def call_args_def call_kw_def

lemmas publish_defs = publish_def publish_args_def publish_kw_def

lemmas alloc_defs =
  alloc_call_def alloc_subscribe_def alloc_unsubscribe_def alloc_register_def alloc_invocation_def

lemmas on_promise_defs = on_stop_def on_join_def on_leave_def on_handshake_def

end
