(* ===== verification/Session_Requests.thy ===== *)
theory Session_Requests
  imports Session_Api
begin

text \<open>
  The contract the request operations share.  \<open>subscribe\<close>, \<open>unsubscribe\<close>, \<open>provide\<close> and the
  three \<open>call\<close> overloads each take a request id, allocate a request object, dispatch a function
  that enters the object into the operation's table of outstanding requests and sends one
  message carrying the id.  The locale derives what an application can rely on; the six
  interpretations discharge its assumptions on the model of each operation.
\<close>

text \<open>The fields that decide whether and where a message is written.\<close>

definition same_wire :: "session \<Rightarrow> session \<Rightarrow> bool" where
  "same_wire s s' \<longleftrightarrow>
     m_out s' = m_out s \<and> m_stopped s' = m_stopped s \<and> m_session_id s' = m_session_id s \<and>
     alive s' = alive s \<and> io_queue s' = io_queue s"

lemma same_wire_refl [simp]: "same_wire s s"
  by (simp add: same_wire_def)

lemma same_wire_trans: "same_wire s t \<Longrightarrow> same_wire t u \<Longrightarrow> same_wire s u"
  by (simp add: same_wire_def)

locale request_op =
  fixes mp :: msgpack
    and table :: "session \<Rightarrow> (u64 \<rightharpoonup> nat)"
    and enter :: "u64 \<Rightarrow> nat \<Rightarrow> session \<Rightarrow> session"
    and release :: "nat \<Rightarrow> session \<Rightarrow> session"
    and new_object :: "session \<Rightarrow> nat \<times> session"
    and message :: "u64 \<Rightarrow> buffer"
    and task :: "u64 \<Rightarrow> nat \<Rightarrow> buffer \<Rightarrow> task"
    and request :: "bool \<Rightarrow> (session, nat) action"
  assumes request_unfold:
      "request inline s =
         (let (rid, s1) = next_request_id s; (p, s2) = new_object s1
          in and_then (io_dispatch mp inline (task rid p (message rid))) (ret p) s2)"
    and task_unfold:
      "run_task mp (task rid p b) s =
         (if \<not> alive s then (Ok (), release p s)
          else if m_session_id s = 0 then (Throw No_Session_Error, release p s)
          else send mp b (enter rid p s))"
    and table_enter: "table (enter rid p s) = map_emplace (table s) rid p"
    and table_release: "table (release p s) = table s"
    and table_out: "table (s\<lparr>m_out := os\<rparr>) = table s"
    and enter_wire: "same_wire s (enter rid p s)"
    and release_wire: "same_wire s (release p s)"
    and object_address: "fst (new_object s) = heap_next s"
    and object_wire: "same_wire s (snd (new_object s))"
    and object_table: "table (snd (new_object s)) = table s"
    and counter_table: "table (s\<lparr>m_request_id := n\<rparr>) = table s"
    and queue_table: "table (s\<lparr>io_queue := q\<rparr>) = table s"
begin

definition prepared :: "session \<Rightarrow> session" where
  "prepared s = snd (new_object (s\<lparr>m_request_id := Suc (m_request_id s)\<rparr>))"

lemma prepared_simps [simp]:
  "m_out (prepared s) = m_out s" "m_stopped (prepared s) = m_stopped s"
  "m_session_id (prepared s) = m_session_id s" "alive (prepared s) = alive s"
  "io_queue (prepared s) = io_queue s" "table (prepared s) = table s"
  using object_wire [of "s\<lparr>m_request_id := Suc (m_request_id s)\<rparr>"]
  by (simp_all add: prepared_def same_wire_def object_table counter_table)

lemma request_eq:
  "request inline s =
     and_then (io_dispatch mp inline
         (task (word_of_nat (Suc (m_request_id s))) (heap_next s)
            (message (word_of_nat (Suc (m_request_id s))))))
       (ret (heap_next s)) (prepared s)"
  using object_address [of "s\<lparr>m_request_id := Suc (m_request_id s)\<rparr>"]
  by (cases "new_object (s\<lparr>m_request_id := Suc (m_request_id s)\<rparr>)")
    (simp add: request_unfold next_request_id_def prepared_def)

lemma enter_release_simps [simp]:
  "m_out (enter r p s) = m_out s" "m_stopped (enter r p s) = m_stopped s"
  "m_session_id (enter r p s) = m_session_id s" "alive (enter r p s) = alive s"
  "m_out (release p s) = m_out s" "table (release p s) = table s"
  using enter_wire [of s r p] release_wire [of s p] by (simp_all add: same_wire_def table_release)

text \<open>
  Without a session the operation throws, sends nothing and leaves no entry behind; the object is
  released.
\<close>

lemma request_not_joined:
  assumes "alive s" and "m_session_id s = 0"
  shows "request True s = (Throw No_Session_Error, release (heap_next s) (prepared s))"
  using assms by (simp add: request_eq io_dispatch_def task_unfold action_defs)

lemma request_not_joined_silent:
  assumes "alive s" and "m_session_id s = 0"
  shows "fst (request True s) = Throw No_Session_Error"
    and "m_out (snd (request True s)) = m_out s"
    and "table (snd (request True s)) = table s"
  by (simp_all add: request_not_joined [OF assms])

text \<open>In a joined session the request is entered under its id and one message is written.\<close>

lemma request_joined:
  assumes "alive s" and "m_session_id s \<noteq> 0" and "\<not> m_stopped s"
    and healthy: "fail_after (m_out s) = None"
  defines "rid \<equiv> word_of_nat (Suc (m_request_id s))"
  shows "fst (request True s) = Ok (heap_next s)"
    and "table (snd (request True s)) = map_emplace (table s) rid (heap_next s)"
    and "written (m_out (snd (request True s))) = written (m_out s) @ frame mp (message rid)"
  using assms
  by (simp_all add: request_eq io_dispatch_def task_unfold and_then_def bind_act_def ret_def
      send_healthy table_enter table_out)

text \<open>From another thread the request waits in the queue of the io service.\<close>

lemma request_queued:
  defines "rid s \<equiv> word_of_nat (Suc (m_request_id s))"
  shows "fst (request False s) = Ok (heap_next s)"
    and "io_queue (snd (request False s)) =
           io_queue s @ [task (rid s) (heap_next s) (message (rid s))]"
    and "m_out (snd (request False s)) = m_out s"
    and "table (snd (request False s)) = table s"
  by (simp_all add: request_eq io_dispatch_def action_defs rid_def queue_table)

text \<open>Running the queued function later has the effect the inline call has, except for the result.\<close>

lemma request_queued_run:
  assumes "io_queue s = []"
  shows "snd (run_task mp (hd (io_queue (snd (request False s))))
      ((snd (request False s))\<lparr>io_queue := tl (io_queue (snd (request False s)))\<rparr>)) =
    snd (request True s)"
proof -
  let ?t = "task (word_of_nat (Suc (m_request_id s))) (heap_next s)
    (message (word_of_nat (Suc (m_request_id s))))"
  have queued: "snd (request False s) = (prepared s)\<lparr>io_queue := [?t]\<rparr>"
    using assms by (simp add: request_eq io_dispatch_def action_defs)
  have "(snd (request False s))\<lparr>io_queue := tl (io_queue (snd (request False s)))\<rparr> = prepared s"
    unfolding queued using assms prepared_simps(5) [of s] by (cases "prepared s") simp
  moreover have "hd (io_queue (snd (request False s))) = ?t" by (simp add: queued)
  ultimately have "snd (run_task mp (hd (io_queue (snd (request False s))))
      ((snd (request False s))\<lparr>io_queue := tl (io_queue (snd (request False s)))\<rparr>)) =
    snd (run_task mp ?t (prepared s))"
    by (simp only:)
  also have "\<dots> = snd (request True s)"
    by (cases "run_task mp ?t (prepared s)"; cases "fst (run_task mp ?t (prepared s))")
      (simp_all add: request_eq io_dispatch_def action_defs)
  finally show ?thesis .
qed

end

lemma map_fresh_id:
  assumes "dom m \<subseteq> word_of_nat ` {0 <.. n}" and "Suc n < 2 ^ 64"
  shows "m (word_of_nat (Suc n) :: u64) = None"
proof (rule ccontr)
  assume "m (word_of_nat (Suc n)) \<noteq> None"
  then have "word_of_nat (Suc n) \<in> dom m" by (simp only: domIff not_False_eq_True)
  with assms(1) have "word_of_nat (Suc n) \<in> (word_of_nat ` {0 <.. n} :: u64 set)" by (rule subsetD)
  then obtain i where i: "word_of_nat (Suc n) = (word_of_nat i :: u64)" "i \<in> {0 <.. n}"
    by (rule imageE)
  from i(1) have "unat (word_of_nat (Suc n) :: u64) = unat (word_of_nat i :: u64)"
    by (rule arg_cong)
  with i(2) assms(2) show False by (simp add: unat_of_nat take_bit_nat_eq_self del: of_nat_Suc)
qed

lemmas request_op_defs =
  next_request_id_def same_wire_def alloc_defs task_defs enter_defs release_defs map_emplace_taken

interpretation subscribe_op: request_op mp m_subscribe_requests
    enter_subscribe release_subscribe "alloc_subscribe h" "subscribe_message topic"
    Subscribe_Task "\<lambda>inline. subscribe mp inline topic h"
  for mp topic h
  by unfold_locales (simp_all add: request_op_defs subscribe_def)

interpretation unsubscribe_op: request_op mp m_unsubscribe_requests
    enter_unsubscribe release_unsubscribe alloc_unsubscribe "unsubscribe_message sub"
    Unsubscribe_Task "\<lambda>inline. unsubscribe mp inline sub"
  for mp sub
  by unfold_locales (simp_all add: request_op_defs unsubscribe_def)

interpretation provide_op: request_op mp m_register_requests
    enter_register release_register "alloc_register f" "register_message name options"
    Provide_Task "\<lambda>inline. provide mp inline name f options"
  for mp name f options
  by unfold_locales (simp_all add: request_op_defs provide_def)

interpretation call_op: request_op mp m_calls
    enter_call release_call alloc_call "call_message f"
    Call_Task "\<lambda>inline. call mp inline f"
  for mp f
  by unfold_locales (simp_all add: request_op_defs call_def)

interpretation call_args_op: request_op mp m_calls
    enter_call release_call alloc_call "call_args_message f a"
    Call_Task "\<lambda>inline. call_args mp inline f a"
  for mp f a
  by unfold_locales (simp_all add: request_op_defs call_args_def)

interpretation call_kw_op: request_op mp m_calls
    enter_call release_call alloc_call "call_kw_message f a k"
    Call_Task "\<lambda>inline. call_kw mp inline f a k"
  for mp f a k
  by unfold_locales (simp_all add: request_op_defs call_kw_def)

section \<open>Replies\<close>

text \<open>Sending a reply never throws; it is written at once or queued.\<close>

lemma send_result_eq:
  "send_result mp inline f b s =
     (Ok (), if \<not> alive s then s
             else if inline then snd (send mp b s)
             else s\<lparr>io_queue := io_queue s @ [Send_Result_Task b]\<rparr>)"
  by (cases "send mp b s")
    (use fst_send [of mp b s] in \<open>simp add: send_result_def io_dispatch_def send_result_task_def\<close>)

text \<open>A sendable invocation is answered and stops being sendable; any other reply throws.\<close>

lemma invocation_reply_sendable:
  assumes "heap_invocations s p = Some iv" and "inv_send_result_fn iv = Some f"
  shows "invocation_reply mp inline p rep s =
    (Ok (), let s' = snd (send_result mp inline f (reply_message rep (inv_request_id iv)) s)
            in s'\<lparr>heap_invocations := (heap_invocations s')(p \<mapsto> iv\<lparr>inv_send_result_fn := None\<rparr>)\<rparr>)"
  using assms by (simp add: invocation_reply_def reply_with_def send_result_eq Let_def)

lemma invocation_reply_not_sendable:
  assumes "heap_invocations s p = Some iv" and "inv_send_result_fn iv = None"
  shows "invocation_reply mp inline p rep s = (Throw not_sendable_error, s)"
proof -
  have "(heap_invocations s)(p \<mapsto> iv) = heap_invocations s" using assms(1) by auto
  with assms show ?thesis by (simp add: invocation_reply_def reply_with_def)
qed

lemma invocation_reply_missing:
  "heap_invocations s p = None \<Longrightarrow> invocation_reply mp inline p rep s = (Undefined_Behaviour, s)"
  by (simp add: invocation_reply_def)

lemma send_result_invocations [simp]:
  "heap_invocations (snd (send_result mp inline f b s)) = heap_invocations s"
  by (simp add: send_result_eq)

lemma invocation_reply_keeps:
  assumes "\<And>f r. keeps P (send_result mp inline f (reply_message rep r))"
    and "\<And>s iv. P s \<Longrightarrow> heap_invocations s p = Some iv \<Longrightarrow> inv_send_result_fn iv \<noteq> None \<Longrightarrow>
           P (s\<lparr>heap_invocations :=
                (heap_invocations s)(p \<mapsto> iv\<lparr>inv_send_result_fn := None\<rparr>)\<rparr>)"
  shows "keeps P (invocation_reply mp inline p rep)"
proof (rule keepsI)
  fix s assume P: "P s"
  show "P (snd (invocation_reply mp inline p rep s))"
  proof (cases "heap_invocations s p")
    case None
    with P show ?thesis by (simp add: invocation_reply_missing)
  next
    case (Some iv)
    show ?thesis
    proof (cases "inv_send_result_fn iv")
      case None
      with P Some show ?thesis by (simp add: invocation_reply_not_sendable)
    next
      case (Some f)
      let ?s' = "snd (send_result mp inline f (reply_message rep (inv_request_id iv)) s)"
      have "P ?s'" using assms(1) P by (rule keepsD)
      then have "P (?s'\<lparr>heap_invocations := (heap_invocations ?s')(p \<mapsto> iv\<lparr>inv_send_result_fn := None\<rparr>)\<rparr>)"
        using Some \<open>heap_invocations s p = Some iv\<close> by (intro assms(2)) simp_all
      with Some \<open>heap_invocations s p = Some iv\<close> show ?thesis
        by (simp add: invocation_reply_sendable)
    qed
  qed
qed

section \<open>The values of operations\<close>

lemma and_then_ret_state: "snd (and_then m (ret x) s) = snd (m s)"
  by (cases "m s"; cases "fst (m s)") (simp_all add: action_defs)

lemma future_of_state: "snd (future_of m s) = snd (m s)"
  by (cases "m s"; cases "fst (m s)") (simp_all add: future_of_def action_defs)

lemma future_of_UB: "fst (future_of m s) = Undefined_Behaviour \<longleftrightarrow> fst (m s) = Undefined_Behaviour"
  by (cases "m s"; cases "fst (m s)") (simp_all add: future_of_def action_defs)

end
