(* ===== verification/Session_Receive.thy ===== *)
theory Session_Receive
  imports Session_Requests
begin

text \<open>
  The message handlers of \<open>wamp_session\<close>: \<open>got_message\<close> and the \<open>process_\<close> functions it
  dispatches to.  A message is the vector of objects of the received array.  Reading past the
  end of the vector with \<open>operator[]\<close> is undefined behaviour; every other failure is an
  exception that leaves the state as written up to the throw.
\<close>

type_synonym wamp_message = "msgobj list"

definition protocol_error :: "string \<Rightarrow> (session, 'a) action" where
  "protocol_error text = raise (Protocol_Error text)"

definition uint64_of :: "msgpack \<Rightarrow> msgobj \<Rightarrow> (session, u64) action" where
  "uint64_of mp x = lift_result (or_throw (as_uint64 mp x) type_error)"

definition int_of_object :: "msgpack \<Rightarrow> msgobj \<Rightarrow> (session, int) action" where
  "int_of_object mp x = lift_result (or_throw (as_int mp x) type_error)"

definition string_of :: "msgpack \<Rightarrow> msgobj \<Rightarrow> (session, string) action" where
  "string_of mp x = lift_result (or_throw (as_string mp x) type_error)"

text \<open>\<open>message[i]\<close>.\<close>

definition element_at :: "wamp_message \<Rightarrow> nat \<Rightarrow> (session, msgobj) action" where
  "element_at message i =
     lift_result (if i < length message then Ok (message ! i) else Undefined_Behaviour)"

lemma bind_element_at [simp]:
  "i < length message \<Longrightarrow> bind_act (element_at message i) f = f (message ! i)"
  by (rule ext) (simp add: element_at_def bind_act_def lift_result_def)

lemma keeps_element_at [keep_intros]: "keeps P (element_at message i)"
  unfolding element_at_def by (rule keeps_lift_result)

section \<open>Session management\<close>

definition process_welcome :: "msgpack \<Rightarrow> wamp_message \<Rightarrow> (session, unit) action" where
  "process_welcome mp message =
     bind_act (element_at message 1) (\<lambda>x. bind_act (uint64_of mp x)
       (\<lambda>i. and_then (update (\<lambda>s. s\<lparr>m_session_id := i\<rparr>)) (on_join (set_value i))))"

definition process_goodbye :: "msgpack \<Rightarrow> wamp_message \<Rightarrow> (session, unit) action" where
  "process_goodbye mp message =
     and_then (update (\<lambda>s. s\<lparr>m_session_id := 0\<rparr>))
       (and_then
         (with_state (\<lambda>s. if \<not> m_goodbye_sent s
            then send mp (goodbye_message ''wamp.error.goodbye_and_out'') else ret ()))
         (bind_act (element_at message 2) (\<lambda>x. bind_act (string_of mp x)
            (\<lambda>reason. on_leave (set_value reason)))))"

section \<open>Errors\<close>

text \<open>The request types an ERROR message may refer to.\<close>

definition error_request_types :: "message_type list" where
  "error_request_types = [CALL, REGISTER, UNREGISTER, PUBLISH, SUBSCRIBE, UNSUBSCRIBE]"

text \<open>The text of the exception: the URI, extended by the keyword argument \<open>what\<close>.\<close>

definition error_text :: "msgpack \<Rightarrow> string \<Rightarrow> wamp_message \<Rightarrow> string" where
  "error_text mp uri message =
     (if length message > 6 then
        (case as_string_map mp (message ! 6) of
           None \<Rightarrow> uri @ '': unknown exception''
         | Some kw \<Rightarrow> (case kw ''what'' of None \<Rightarrow> uri | Some w \<Rightarrow> uri @ '': '' @ w))
      else uri)"

definition reject_call :: "nat \<Rightarrow> exn \<Rightarrow> (session, unit) action" where
  "reject_call p e s =
     (case heap_calls s p of
        None \<Rightarrow> (Undefined_Behaviour, s)
      | Some c \<Rightarrow> (case call_set_exception e c of
                    (r, c') \<Rightarrow> (r, s\<lparr>heap_calls := (heap_calls s)(p \<mapsto> c')\<rparr>)))"

definition resolve_call :: "nat \<Rightarrow> wamp_call_result \<Rightarrow> (session, unit) action" where
  "resolve_call p v s =
     (case heap_calls s p of
        None \<Rightarrow> (Undefined_Behaviour, s)
      | Some c \<Rightarrow> (case call_set_result v c of
                    (r, c') \<Rightarrow> (r, s\<lparr>heap_calls := (heap_calls s)(p \<mapsto> c')\<rparr>)))"

definition process_error :: "msgpack \<Rightarrow> wamp_message \<Rightarrow> (session, unit) action" where
  "process_error mp message =
     (if length message \<noteq> 5 \<and> length message \<noteq> 6 \<and> length message \<noteq> 7 then
        protocol_error ''invalid ERROR message structure - length must be 5, 6 or 7''
      else bind_act (element_at message 1) (\<lambda>x1.
        if \<not> is_positive_integer x1 then
        protocol_error ''invalid ERROR message structure - REQUEST.Type must be an integer''
      else bind_act (int_of_object mp x1) (\<lambda>code.
        let request_type = message_type_of code in
        if request_type \<notin> Some ` set error_request_types then
          protocol_error ''invalid ERROR message - ERROR.Type must one of CALL, REGISTER, UNREGISTER, SUBSCRIBE, UNSUBSCRIBE''
        else bind_act (element_at message 2) (\<lambda>x2.
        if \<not> is_positive_integer x2 then
          protocol_error ''invalid ERROR message structure - REQUEST.Request must be an integer''
        else bind_act (uint64_of mp x2) (\<lambda>request_id.
          bind_act (element_at message 3) (\<lambda>x3.
        if \<not> is_map x3 then
            protocol_error ''invalid ERROR message structure - Details must be a dictionary''
          else bind_act (element_at message 4) (\<lambda>x4.
        if \<not> is_str x4 then
            protocol_error ''invalid ERROR message - Error must be a string (URI)''
          else bind_act (string_of mp x4) (\<lambda>uri.
            if length message > 5 \<and> \<not> is_array (message ! 5) then
              protocol_error ''invalid ERROR message structure - Arguments must be a list''
            else if length message > 6 \<and> \<not> is_map (message ! 6) then
              protocol_error ''invalid ERROR message structure - ArgumentsKw must be a dictionary''
            else if request_type = Some CALL then
              with_state (\<lambda>s. case m_calls s request_id of
                 Some p \<Rightarrow> reject_call p (Runtime_Error (error_text mp uri message))
               | None \<Rightarrow> protocol_error ''bogus ERROR message for non-pending CALL request ID'')
            else ret ()))))))))"

section \<open>Caller\<close>

text \<open>The result built from a RESULT message; it owns the zone the message was unpacked into.\<close>

definition received_result :: "nat \<Rightarrow> wamp_message \<Rightarrow> wamp_call_result" where
  "received_result zone message =
     (let r0 = call_result_with_zone (Some zone);
          r1 = (if length message > 3
                then call_result_set_arguments (Obj_Ref (Some zone) (message ! 3)) r0 else r0)
      in if length message > 4
         then call_result_set_kw_arguments (Obj_Ref (Some zone) (message ! 4)) r1 else r1)"

definition process_call_result :: "msgpack \<Rightarrow> wamp_message \<Rightarrow> nat \<Rightarrow> (session, unit) action" where
  "process_call_result mp message zone =
     (if length message \<noteq> 3 \<and> length message \<noteq> 4 \<and> length message \<noteq> 5 then
        protocol_error ''RESULT - length must be 3, 4 or 5''
      else bind_act (element_at message 1) (\<lambda>x1.
        if \<not> is_positive_integer x1 then
        protocol_error ''RESULT - CALL.Request must be an id''
      else bind_act (uint64_of mp x1) (\<lambda>request_id.
        with_state (\<lambda>s. case m_calls s request_id of
           Some p \<Rightarrow>
             (bind_act (element_at message 2) (\<lambda>x2.
        if \<not> is_map x2 then
                protocol_error ''RESULT - Details must be a dictionary''
              else if length message > 3 \<and> \<not> is_array (message ! 3) then
                protocol_error ''RESULT - YIELD.Arguments must be a list''
              else if length message > 4 \<and> \<not> is_map (message ! 4) then
                protocol_error ''RESULT - YIELD.ArgumentsKw must be a dictionary''
              else resolve_call p (received_result zone message)))
         | None \<Rightarrow> protocol_error ''bogus RESULT message for non-pending request ID''))))"

section \<open>Subscriber\<close>

definition respond_subscribe :: "nat \<Rightarrow> wamp_subscription \<Rightarrow> (session, unit) action" where
  "respond_subscribe p v s =
     (case heap_subscribes s p of
        None \<Rightarrow> (Undefined_Behaviour, s)
      | Some c \<Rightarrow> (case subscribe_set_response v c of
                    (r, c') \<Rightarrow> (r, s\<lparr>heap_subscribes := (heap_subscribes s)(p \<mapsto> c')\<rparr>)))"

definition process_subscribed :: "msgpack \<Rightarrow> wamp_message \<Rightarrow> (session, unit) action" where
  "process_subscribed mp message =
     (if length message \<noteq> 3 then
        protocol_error ''SUBSCRIBED - length must be 3''
      else bind_act (element_at message 1) (\<lambda>x1.
        if \<not> is_positive_integer x1 then
        protocol_error ''SUBSCRIBED - SUBSCRIBED.Request must be an integer''
      else bind_act (uint64_of mp x1) (\<lambda>request_id.
        with_state (\<lambda>s. case m_subscribe_requests s request_id of
           Some p \<Rightarrow>
             (bind_act (element_at message 2) (\<lambda>x2.
        if \<not> is_positive_integer x2 then
                protocol_error ''SUBSCRIBED - SUBSCRIBED.Subscription must be an integer''
              else bind_act (uint64_of mp x2) (\<lambda>i.
                case heap_subscribes s p of
                  None \<Rightarrow> lift_result Undefined_Behaviour
                | Some request \<Rightarrow>
                  and_then
                    (update (\<lambda>s. s\<lparr>m_subscription_handlers :=
                       mm_insert i (subscribe_handler request) (m_subscription_handlers s)\<rparr>))
                    (and_then (respond_subscribe p (new_subscription i))
                      (update (\<lambda>s. s\<lparr>m_subscribe_requests :=
                         map_erase (m_subscribe_requests s) request_id\<rparr>))))))
         | None \<Rightarrow> protocol_error ''SUBSCRIBED - no pending request ID''))))"

definition respond_unsubscribe :: "nat \<Rightarrow> (session, unit) action" where
  "respond_unsubscribe p s =
     (case heap_unsubscribes s p of
        None \<Rightarrow> (Undefined_Behaviour, s)
      | Some c \<Rightarrow> (case unsubscribe_set_response c of
                    (r, c') \<Rightarrow> (r, s\<lparr>heap_unsubscribes := (heap_unsubscribes s)(p \<mapsto> c')\<rparr>)))"

definition process_unsubscribed :: "msgpack \<Rightarrow> wamp_message \<Rightarrow> (session, unit) action" where
  "process_unsubscribed mp message =
     (if length message \<noteq> 2 then
        protocol_error ''UNSUBSCRIBED - length must be 2''
      else bind_act (element_at message 1) (\<lambda>x1.
        if \<not> is_positive_integer x1 then
        protocol_error ''UNSUBSCRIBED - UNSUBSCRIBED.Request must be an integer''
      else bind_act (uint64_of mp x1) (\<lambda>request_id.
        with_state (\<lambda>s. case m_unsubscribe_requests s request_id of
           Some p \<Rightarrow>
             and_then (respond_unsubscribe p)
               (update (\<lambda>s. s\<lparr>m_unsubscribe_requests :=
                  map_erase (m_unsubscribe_requests s) request_id\<rparr>))
         | None \<Rightarrow> protocol_error ''UNSUBSCRIBED - no pending request ID''))))"

text \<open>The event handed to the handlers.\<close>

definition received_event :: "wamp_message \<Rightarrow> wamp_event" where
  "received_event message =
     (let e1 = (if length message > 4 then event_set_arguments (message ! 4) new_event else new_event)
      in if length message > 5 then event_set_kw_arguments (message ! 5) e1 else e1)"

text \<open>The loop over the handlers; an exception leaves it.\<close>

fun trigger_handlers ::
    "msgpack \<Rightarrow> user \<Rightarrow> event_handler list \<Rightarrow> wamp_event \<Rightarrow> (session, unit) action" where
  "trigger_handlers mp u [] event = ret ()"
| "trigger_handlers mp u (h # hs) event =
     and_then (run_prog mp (on_event u h event)) (trigger_handlers mp u hs event)"

definition process_event :: "msgpack \<Rightarrow> user \<Rightarrow> wamp_message \<Rightarrow> (session, unit) action" where
  "process_event mp u message =
     (if length message \<noteq> 4 \<and> length message \<noteq> 5 \<and> length message \<noteq> 6 then
        protocol_error ''EVENT - length must be 4, 5 or 6''
      else bind_act (element_at message 1) (\<lambda>x1.
        if \<not> is_positive_integer x1 then
        protocol_error ''EVENT - SUBSCRIBED.Subscription must be an integer''
      else bind_act (uint64_of mp x1) (\<lambda>i.
        with_state (\<lambda>s.
          let handlers_itr = mm_lower_bound i (m_subscription_handlers s);
              handlers_end = mm_upper_bound i (m_subscription_handlers s)
          in if handlers_itr \<noteq> [] \<and> handlers_itr \<noteq> handlers_end then
               (bind_act (element_at message 2) (\<lambda>x2.
        if \<not> is_positive_integer x2 then
                  protocol_error ''EVENT - PUBLISHED.Publication must be an id''
                else bind_act (element_at message 3) (\<lambda>x3.
        if \<not> is_map x3 then
                  protocol_error ''EVENT - Details must be a dictionary''
                else if length message > 4 \<and> \<not> is_array (message ! 4) then
                  protocol_error ''EVENT - EVENT.Arguments must be a list''
                else if length message > 5 \<and> \<not> is_map (message ! 5) then
                  protocol_error ''EVENT - EVENT.ArgumentsKw must be a dictionary''
                else try_catch
                  (trigger_handlers mp u (map snd (mm_between handlers_itr handlers_end))
                     (received_event message))
                  (\<lambda>_. ret ()))))
             else ret ()))))"

section \<open>Callee\<close>

definition respond_register :: "nat \<Rightarrow> wamp_registration \<Rightarrow> (session, unit) action" where
  "respond_register p v s =
     (case heap_registers s p of
        None \<Rightarrow> (Undefined_Behaviour, s)
      | Some c \<Rightarrow> (case register_set_response v c of
                    (r, c') \<Rightarrow> (r, s\<lparr>heap_registers := (heap_registers s)(p \<mapsto> c')\<rparr>)))"

definition process_registered :: "msgpack \<Rightarrow> wamp_message \<Rightarrow> (session, unit) action" where
  "process_registered mp message =
     (if length message \<noteq> 3 then
        protocol_error ''REGISTERED - length must be 3''
      else bind_act (element_at message 1) (\<lambda>x1.
        if \<not> is_positive_integer x1 then
        protocol_error ''REGISTERED - REGISTERED.Request must be an integer''
      else bind_act (uint64_of mp x1) (\<lambda>request_id.
        with_state (\<lambda>s. case m_register_requests s request_id of
           Some p \<Rightarrow>
             (bind_act (element_at message 2) (\<lambda>x2.
        if \<not> is_positive_integer x2 then
                protocol_error ''REGISTERED - REGISTERED.Registration must be an integer''
              else bind_act (uint64_of mp x2) (\<lambda>i.
                case heap_registers s p of
                  None \<Rightarrow> lift_result Undefined_Behaviour
                | Some request \<Rightarrow>
                  and_then
                    (update (\<lambda>s. s\<lparr>m_procedures :=
                       (m_procedures s)(i \<mapsto> register_procedure request)\<rparr>))
                    (respond_register p (new_registration i)))))
         | None \<Rightarrow> protocol_error ''REGISTERED - no pending request ID''))))"

text \<open>The invocation object handed to the procedure.\<close>

definition received_invocation :: "u64 \<Rightarrow> nat \<Rightarrow> wamp_message \<Rightarrow> wamp_invocation" where
  "received_invocation request_id zone message =
     (let i1 = set_details (message ! 3) (set_request_id request_id new_invocation);
          i2 = (if length message > 4 then set_arguments (message ! 4) i1 else i1);
          i3 = (if length message > 5 then set_kw_arguments (message ! 5) i2 else i2)
      in set_send_result_fn Send_Via_Session (set_zone zone i3))"

definition invocation_sendable :: "nat \<Rightarrow> session \<Rightarrow> bool" where
  "invocation_sendable p s =
     (case heap_invocations s p of None \<Rightarrow> False | Some iv \<Rightarrow> sendable iv)"

text \<open>The two catch clauses around the procedure.\<close>

definition report_exception :: "msgpack \<Rightarrow> nat \<Rightarrow> exn \<Rightarrow> (session, unit) action" where
  "report_exception mp p e =
     with_state (\<lambda>s. if invocation_sendable p s then
        invocation_reply mp True p
          (case exn_what (library_what mp) e of
             Some w \<Rightarrow> Error_Args_Kw ''wamp.error.runtime_error'' []
                         [(STR_OBJ ''what'', STR_OBJ w)]
           | None \<Rightarrow> Error_Uri ''wamp.error.runtime_error'')
      else ret ())"

definition invoke_procedure ::
    "msgpack \<Rightarrow> user \<Rightarrow> procedure \<Rightarrow> wamp_invocation \<Rightarrow> (session, unit) action" where
  "invoke_procedure mp u f iv s =
     (let (p, s1) = alloc_invocation iv s
      in try_catch (run_prog mp (on_invoke u f p iv)) (report_exception mp p) s1)"

definition process_invocation ::
    "msgpack \<Rightarrow> user \<Rightarrow> wamp_message \<Rightarrow> nat \<Rightarrow> (session, unit) action" where
  "process_invocation mp u message zone =
     (if length message \<noteq> 4 \<and> length message \<noteq> 5 \<and> length message \<noteq> 6 then
        protocol_error ''INVOCATION message length must be 4, 5 or 6''
      else bind_act (element_at message 1) (\<lambda>x1.
        if \<not> is_positive_integer x1 then
        protocol_error ''INVOCATION.Request must be an integer''
      else bind_act (uint64_of mp x1) (\<lambda>request_id.
        bind_act (element_at message 2) (\<lambda>x2.
        if \<not> is_positive_integer x2 then
          protocol_error ''INVOCATION.Registration must be an integer''
        else bind_act (uint64_of mp x2) (\<lambda>i.
          with_state (\<lambda>s. case m_procedures s i of
             Some f \<Rightarrow>
               (bind_act (element_at message 3) (\<lambda>x3.
        if \<not> is_map x3 then
                  protocol_error ''INVOCATION.Details must be a map''
                else if length message > 4 \<and> \<not> is_array (message ! 4) then
                  protocol_error ''INVOCATION.Arguments must be an array/vector''
                else if length message > 5 \<and> \<not> is_map (message ! 5) then
                  protocol_error ''INVOCATION.KwArguments must be a map''
                else invoke_procedure mp u f (received_invocation request_id zone message)))
           | None \<Rightarrow>
               protocol_error ''bogus INVOCATION message for non-registered registration ID''))))))"

section \<open>Dispatch on the message code\<close>

definition unexpected :: "string \<Rightarrow> (session, unit) action" where
  "unexpected name =
     protocol_error (''received '' @ name @ '' message unexpected for WAMP client roles'')"

definition not_implemented :: "string \<Rightarrow> (session, unit) action" where
  "not_implemented name =
     protocol_error (''received '' @ name @ '' message - not implemented'')"

fun process_message ::
    "msgpack \<Rightarrow> user \<Rightarrow> message_type \<Rightarrow> wamp_message \<Rightarrow> nat \<Rightarrow> (session, unit) action" where
  "process_message mp u HELLO message zone = unexpected ''HELLO''"
| "process_message mp u WELCOME message zone = process_welcome mp message"
| "process_message mp u ABORT message zone = ret ()"
| "process_message mp u CHALLENGE message zone = not_implemented ''CHALLENGE''"
| "process_message mp u AUTHENTICATE message zone = unexpected ''AUTHENTICATE''"
| "process_message mp u GOODBYE message zone = process_goodbye mp message"
| "process_message mp u HEARTBEAT message zone = ret ()"
| "process_message mp u ERROR message zone = process_error mp message"
| "process_message mp u PUBLISH message zone = unexpected ''PUBLISH''"
| "process_message mp u PUBLISHED message zone = ret ()"
| "process_message mp u SUBSCRIBE message zone = unexpected ''SUBSCRIBE''"
| "process_message mp u SUBSCRIBED message zone = process_subscribed mp message"
| "process_message mp u UNSUBSCRIBE message zone = unexpected ''UNSUBSCRIBE''"
| "process_message mp u UNSUBSCRIBED message zone = process_unsubscribed mp message"
| "process_message mp u EVENT message zone = process_event mp u message"
| "process_message mp u CALL message zone = unexpected ''CALL''"
| "process_message mp u CANCEL message zone = unexpected ''CANCEL''"
| "process_message mp u RESULT message zone = process_call_result mp message zone"
| "process_message mp u REGISTER message zone = unexpected ''REGISTER''"
| "process_message mp u REGISTERED message zone = process_registered mp message"
| "process_message mp u UNREGISTER message zone = unexpected ''UNREGISTER''"
| "process_message mp u UNREGISTERED message zone = ret ()"
| "process_message mp u INVOCATION message zone = process_invocation mp u message zone"
| "process_message mp u INTERRUPT message zone = not_implemented ''INTERRUPT''"
| "process_message mp u YIELD message zone = unexpected ''YIELD''"

definition got_message :: "msgpack \<Rightarrow> user \<Rightarrow> msgobj \<Rightarrow> nat \<Rightarrow> (session, unit) action" where
  "got_message mp u object zone =
     (case object of
        ARRAY message \<Rightarrow>
          (if length message < 1 then
             protocol_error ''invalid message structure - missing message code''
           else bind_act (element_at message 0) (\<lambda>x0.
        if \<not> is_positive_integer x0 then
             protocol_error ''invalid message code type - not an integer''
           else bind_act (int_of_object mp x0) (\<lambda>code.
             case message_type_of code of
               Some t \<Rightarrow> process_message mp u t message zone
             | None \<Rightarrow> ret ())))
      | _ \<Rightarrow> protocol_error ''invalid message structure - message is not an array'')"

lemmas receive_defs = protocol_error_def uint64_of_def int_of_object_def string_of_def

end
