(* ===== verification/Session_Loop.thy ===== *)
theory Session_Loop
  imports Session_Receive
begin

text \<open>
  The asynchronous part of \<open>wamp_session\<close>: the handshake reply, the header/body read loop with
  the streaming decoder, the handling of read errors, and the transition relation
  \<open>session_step\<close> of a session in its environment (application threads, the io thread, the
  network).  One step is one call of a public operation, one dispatched function, one completed
  read, one reply to an invocation, or the release of the last shared pointer.  Nothing keeps an
  application from calling \<open>start\<close> again: it then writes another handshake and arms another read
  before \<open>get_future\<close> throws.  Of several outstanding reads any may be the next to complete.
\<close>

section \<open>Handshake\<close>

definition receive_message :: "(session, unit) action" where
  "receive_message = update (\<lambda>s. s\<lparr>pending_reads := pending_reads s @ [Read_Header]\<rparr>)"

definition got_handshake_reply :: "io_error option \<Rightarrow> (session, unit) action" where
  "got_handshake_reply error =
     (if error \<noteq> None then on_handshake (set_value False)
      else with_state (\<lambda>s.
        if m_buffer_message_length s ! 0 \<noteq> 0x7F then
          and_then (on_handshake (set_value False))
            (protocol_error ''invalid magic byte in RawSocket handshake response'')
        else if and (m_buffer_message_length s ! 1) 0x0F \<noteq> 0x02 then
          and_then (on_handshake (set_value False))
            (protocol_error ''RawSocket handshake reply: server does not speak MsgPack encoding'')
        else and_then (on_handshake (set_value True)) receive_message))"

section \<open>Read errors\<close>

text \<open>
  \<open>handleRxError\<close>.  It runs on the io thread, so \<open>leave\<close> and \<open>stop\<close> are dispatched inline;
  the futures it waits for are ready by then.  The reason is the default argument of \<open>leave\<close>.
\<close>

definition handle_rx_error :: "msgpack \<Rightarrow> io_error \<Rightarrow> (session, unit) action" where
  "handle_rx_error mp error =
     (if error \<noteq> Operation_Aborted then
        and_then (on_leave (set_value ''socket closed''))
          (and_then (leave mp True ''wamp.error.close_realm'')
            (and_then (stop mp True)
              (update (\<lambda>s. s\<lparr>rx_errors := rx_errors s @ [error]\<rparr>))))
      else ret ())"

section \<open>The receive loop\<close>

definition got_message_header :: "msgpack \<Rightarrow> io_error option \<Rightarrow> (session, unit) action" where
  "got_message_header mp error =
     (case error of
        None \<Rightarrow> update (\<lambda>s. s\<lparr>m_message_length := ntohl_bytes (m_buffer_message_length s),
                            pending_reads := pending_reads s @ [Read_Body]\<rparr>)
      | Some e \<Rightarrow> handle_rx_error mp e)"

text \<open>
  \<open>while (m_unpacker.next(&result)) got_message(...)\<close>, with a bound on the number of
  iterations; \<open>None\<close> when the bound is reached.
\<close>

fun unpack_loop :: "msgpack \<Rightarrow> user \<Rightarrow> nat \<Rightarrow> session \<Rightarrow> unit result option \<times> session" where
  "unpack_loop mp u 0 s = (None, s)"
| "unpack_loop mp u (Suc n) s =
     (case unpack_next mp (m_unpacker s) of
        Ok None \<Rightarrow> (Some (Ok ()), s)
      | Ok (Some (v, rest)) \<Rightarrow>
          (case got_message mp u v (zone_count s)
                  (s\<lparr>m_unpacker := rest, zone_count := Suc (zone_count s)\<rparr>) of
             (Ok _, s') \<Rightarrow> unpack_loop mp u n s'
           | (Throw e, s') \<Rightarrow> (Some (Throw e), s')
           | (Undefined_Behaviour, s') \<Rightarrow> (Some Undefined_Behaviour, s'))
      | Throw e \<Rightarrow> (Some (Throw e), s)
      | Undefined_Behaviour \<Rightarrow> (Some Undefined_Behaviour, s))"

text \<open>\<open>data\<close> are the \<open>m_message_length\<close> bytes read into the decoder's buffer.\<close>

definition unpack_all :: "msgpack \<Rightarrow> user \<Rightarrow> (session, unit) action" where
  "unpack_all mp u s =
     (case unpack_loop mp u (Suc (length (m_unpacker s))) s of
        (Some r, s') \<Rightarrow> (r, s')
      | (None, s') \<Rightarrow> (Undefined_Behaviour, s'))"

definition got_message_body ::
    "msgpack \<Rightarrow> user \<Rightarrow> io_error option \<Rightarrow> byte list \<Rightarrow> (session, unit) action" where
  "got_message_body mp u error data =
     (case error of
        None \<Rightarrow>
          and_then (update (\<lambda>s. s\<lparr>m_unpacker := m_unpacker s @ data\<rparr>))
            (and_then (unpack_all mp u)
              (with_state (\<lambda>s. if \<not> m_stopped s then receive_message else ret ())))
      | Some e \<Rightarrow> handle_rx_error mp e)"

section \<open>The transition relation\<close>

datatype read_outcome = Read_Ok "byte list" | Read_Failed io_error

text \<open>\<open>boost::asio::async_read\<close> completes with the requested number of bytes, or an error.\<close>

fun read_size :: "session \<Rightarrow> read_op \<Rightarrow> nat" where
  "read_size s Read_Handshake = 4"
| "read_size s Read_Header = 4"
| "read_size s Read_Body = unat (m_message_length s)"

fun read_fits :: "session \<Rightarrow> read_op \<Rightarrow> read_outcome \<Rightarrow> bool" where
  "read_fits s op (Read_Ok bs) = (length bs = read_size s op)"
| "read_fits s op (Read_Failed e) = True"

fun on_read :: "msgpack \<Rightarrow> user \<Rightarrow> read_op \<Rightarrow> read_outcome \<Rightarrow> (session, unit) action" where
  "on_read mp u Read_Handshake (Read_Ok bs) =
     and_then (update (\<lambda>s. s\<lparr>m_buffer_message_length := bs\<rparr>)) (got_handshake_reply None)"
| "on_read mp u Read_Handshake (Read_Failed e) = got_handshake_reply (Some e)"
| "on_read mp u Read_Header (Read_Ok bs) =
     and_then (update (\<lambda>s. s\<lparr>m_buffer_message_length := bs\<rparr>)) (got_message_header mp None)"
| "on_read mp u Read_Header (Read_Failed e) = got_message_header mp (Some e)"
| "on_read mp u Read_Body (Read_Ok bs) = got_message_body mp u None bs"
| "on_read mp u Read_Body (Read_Failed e) = got_message_body mp u (Some e) []"

text \<open>A completion handler runs after its read operation has left the set of pending ones.\<close>

definition complete_read :: "msgpack \<Rightarrow> user \<Rightarrow> read_outcome \<Rightarrow> (session, unit) action" where
  "complete_read mp u outcome s =
     (case pending_reads s of
        [] \<Rightarrow> (Ok (), s)
      | op # ops \<Rightarrow> on_read mp u op outcome (s\<lparr>pending_reads := ops\<rparr>))"

definition run_next_task :: "msgpack \<Rightarrow> (session, unit) action" where
  "run_next_task mp s =
     (case io_queue s of
        [] \<Rightarrow> (Ok (), s)
      | t # ts \<Rightarrow> run_task mp t (s\<lparr>io_queue := ts\<rparr>))"

inductive session_step :: "msgpack \<Rightarrow> user \<Rightarrow> session \<Rightarrow> session \<Rightarrow> bool"
  for mp :: msgpack and u :: user where
  step_api: "alive s \<Longrightarrow> run_api mp inline c s = (r, s') \<Longrightarrow> r \<noteq> Undefined_Behaviour \<Longrightarrow>
    session_step mp u s s'"
| step_start: "alive s \<Longrightarrow> start s = (r, s') \<Longrightarrow> session_step mp u s s'"
| step_task: "io_queue s \<noteq> [] \<Longrightarrow> run_next_task mp s = (r, s') \<Longrightarrow> r \<noteq> Undefined_Behaviour \<Longrightarrow>
    session_step mp u s s'"
| step_read: "alive s \<Longrightarrow> pending_reads s = before @ op # after \<Longrightarrow> read_fits s op outcome \<Longrightarrow>
    complete_read mp u outcome (s\<lparr>pending_reads := op # before @ after\<rparr>) = (r, s') \<Longrightarrow>
    r \<noteq> Undefined_Behaviour \<Longrightarrow> session_step mp u s s'"
| step_reply: "heap_invocations s p \<noteq> None \<Longrightarrow> invocation_reply mp inline p rep s = (r, s') \<Longrightarrow>
    session_step mp u s s'"
| step_release: "alive s \<Longrightarrow> pending_reads s = [] \<Longrightarrow> session_step mp u s (destroy_session s)"

inductive_cases session_stepE: "session_step mp u s s'"

lemma step_first_read:
  assumes "alive s" and "pending_reads s = op # ops" and "read_fits s op outcome"
    and "complete_read mp u outcome s = (r, s')" and "r \<noteq> Undefined_Behaviour"
  shows "session_step mp u s s'"
proof (rule step_read [where before = "[]"])
  show "complete_read mp u outcome (s\<lparr>pending_reads := op # [] @ ops\<rparr>) = (r, s')"
    using assms(2,4) by (cases s) simp
qed (use assms in simp_all)

definition session_init :: "session \<Rightarrow> bool" where
  "session_init s \<longleftrightarrow> (\<exists>f. s = new_session \<lparr>written = [], fail_after = f\<rparr>)"

definition reachable :: "msgpack \<Rightarrow> user \<Rightarrow> session \<Rightarrow> bool" where
  "reachable mp u s \<longleftrightarrow> reach session_init (session_step mp u) s"

end
