(* ===== verification/Session_Invariants.thy ===== *)
theory Session_Invariants
  imports Session_Loop
begin

text \<open>
  From operations to the whole session.  The locale \<open>api_invariant\<close> lists, as its assumptions, the
  operations a predicate on sessions must survive to be kept by user code, and
  \<open>handler_invariant\<close> what it must survive besides to be kept by every message handler;
  \<open>api_updates\<close>, \<open>message_updates\<close> and \<open>field_invariant\<close> give the two from ever smaller updates.
  \<open>read_invariant\<close> is the contract of completed reads; \<open>io_invariant\<close>, which gives it for all callbacks,
  and \<open>step_invariant\<close> add what the io thread and the other transitions do, and
  \<open>session_invariant\<close> the initial states, which carries the predicate to all reachable states.
  Each invariant of the development is an interpretation.
\<close>

section \<open>The request operations, with any message\<close>

definition issue_subscribe ::
    "msgpack \<Rightarrow> bool \<Rightarrow> event_handler \<Rightarrow> (u64 \<Rightarrow> buffer) \<Rightarrow> (session, nat) action" where
  "issue_subscribe mp inline h msg s =
     (let (rid, s1) = next_request_id s; (p, s2) = alloc_subscribe h s1
      in and_then (io_dispatch mp inline (Subscribe_Task rid p (msg rid))) (ret p) s2)"

definition issue_unsubscribe ::
    "msgpack \<Rightarrow> bool \<Rightarrow> (u64 \<Rightarrow> buffer) \<Rightarrow> (session, nat) action" where
  "issue_unsubscribe mp inline msg s =
     (let (rid, s1) = next_request_id s; (p, s2) = alloc_unsubscribe s1
      in and_then (io_dispatch mp inline (Unsubscribe_Task rid p (msg rid))) (ret p) s2)"

definition issue_register ::
    "msgpack \<Rightarrow> bool \<Rightarrow> procedure \<Rightarrow> (u64 \<Rightarrow> buffer) \<Rightarrow> (session, nat) action" where
  "issue_register mp inline f msg s =
     (let (rid, s1) = next_request_id s; (p, s2) = alloc_register f s1
      in and_then (io_dispatch mp inline (Provide_Task rid p (msg rid))) (ret p) s2)"

definition issue_call :: "msgpack \<Rightarrow> bool \<Rightarrow> (u64 \<Rightarrow> buffer) \<Rightarrow> (session, nat) action" where
  "issue_call mp inline msg s =
     (let (rid, s1) = next_request_id s; (p, s2) = alloc_call s1
      in and_then (io_dispatch mp inline (Call_Task rid p (msg rid))) (ret p) s2)"

definition issue_publish :: "msgpack \<Rightarrow> bool \<Rightarrow> (u64 \<Rightarrow> buffer) \<Rightarrow> (session, unit) action" where
  "issue_publish mp inline msg s =
     (let (rid, s1) = next_request_id s in io_dispatch mp inline (Publish_Task (msg rid)) s1)"

lemmas issue_defs =
  issue_subscribe_def issue_unsubscribe_def issue_register_def issue_call_def issue_publish_def

lemma issue_eqs:
  "subscribe mp inline topic h = issue_subscribe mp inline h (subscribe_message topic)"
  "unsubscribe mp inline sub = issue_unsubscribe mp inline (unsubscribe_message sub)"
  "provide mp inline name f options = issue_register mp inline f (register_message name options)"
  "call mp inline g = issue_call mp inline (call_message g)"
  "call_args mp inline g a = issue_call mp inline (call_args_message g a)"
  "call_kw mp inline g a k = issue_call mp inline (call_kw_message g a k)"
  "publish mp inline topic = issue_publish mp inline (publish_message topic)"
  "publish_args mp inline topic a = issue_publish mp inline (publish_args_message topic a)"
  "publish_kw mp inline topic a k = issue_publish mp inline (publish_kw_message topic a k)"
  by (rule ext, simp add: request_defs publish_defs issue_defs)+

definition client_messages_of :: "(u64 \<Rightarrow> buffer) \<Rightarrow> bool" where
  "client_messages_of msg \<longleftrightarrow> (\<forall>r. client_message (msg r))"

lemma client_messages_of_builders [simp]:
  "client_messages_of (subscribe_message topic)"
  "client_messages_of (unsubscribe_message sub)"
  "client_messages_of (register_message name options)"
  "client_messages_of (call_message f)"
  "client_messages_of (call_args_message f a)"
  "client_messages_of (call_kw_message f a k)"
  "client_messages_of (publish_message topic)"
  "client_messages_of (publish_args_message topic a)"
  "client_messages_of (publish_kw_message topic a k)"
  by (simp_all add: client_messages_of_def client_messages)

section \<open>Predicates kept by user code\<close>

locale api_invariant =
  fixes mp :: msgpack and P :: "session \<Rightarrow> bool"
  assumes issue_subscribe_P:
      "client_messages_of msg \<Longrightarrow> keeps P (issue_subscribe mp inline h msg)"
    and issue_unsubscribe_P:
      "client_messages_of msg \<Longrightarrow> keeps P (issue_unsubscribe mp inline msg)"
    and issue_register_P:
      "client_messages_of msg \<Longrightarrow> keeps P (issue_register mp inline f' msg)"
    and issue_call_P: "client_messages_of msg \<Longrightarrow> keeps P (issue_call mp inline msg)"
    and issue_publish_P: "client_messages_of msg \<Longrightarrow> keeps P (issue_publish mp inline msg)"
    and stop_P: "keeps P (stop mp inline)"
    and join_P: "keeps P (join mp inline realm)"
    and leave_P: "keeps P (leave mp inline reason)"
    and reply_P: "keeps P (invocation_reply mp inline p rep)"
    and invocation_P: "P s \<Longrightarrow> P (snd (alloc_invocation (received_invocation rid zone message) s))"
begin

lemma run_api_P: "keeps P (run_api mp inline c)"
  by (cases c)
    (auto simp: issue_eqs no_value_def future_of_def
      intro!: keep_intros issue_subscribe_P issue_unsubscribe_P issue_register_P issue_call_P
        issue_publish_P stop_P join_P leave_P)

lemma run_prog_P: "P s \<Longrightarrow> P (snd (run_prog mp g s))"
proof (induction g arbitrary: s)
  case (Api_Then c k)
  obtain r s' where r: "run_api mp True c s = (r, s')" by (cases "run_api mp True c s")
  from keepsD_eq [OF run_api_P Api_Then.prems r] have "P s'" .
  with r show ?case by (simp add: Api_Then.IH)
next
  case (Reply_Then p rep k)
  obtain r s' where r: "invocation_reply mp True p rep s = (r, s')"
    by (cases "invocation_reply mp True p rep s")
  from keepsD_eq [OF reply_P Reply_Then.prems r] have "P s'" .
  with r show ?case by (simp add: Reply_Then.IH)
qed (simp_all add: action_defs)

lemma run_prog_keeps: "keeps P (run_prog mp g)"
  by (rule keepsI) (rule run_prog_P)

lemma trigger_handlers_P: "keeps P (trigger_handlers mp u hs ev)"
  by (induction hs) (auto intro!: keep_intros run_prog_keeps)

lemma process_event_P: "keeps P (process_event mp u message)"
  unfolding process_event_def receive_defs Let_def
  by (intro keep_intros trigger_handlers_P)

lemma report_exception_P: "keeps P (report_exception mp p e)"
  unfolding report_exception_def by (intro keep_intros reply_P)

lemma invoke_procedure_P:
  "keeps P (invoke_procedure mp u f (received_invocation rid zone message))"
proof (rule keepsI)
  fix s assume "P s"
  then have "P (snd (alloc_invocation (received_invocation rid zone message) s))"
    by (rule invocation_P)
  moreover obtain p s1 where
    alloc: "alloc_invocation (received_invocation rid zone message) s = (p, s1)"
    by (rule prod.exhaust)
  ultimately have "P s1" by simp
  moreover have "keeps P (try_catch (run_prog mp (on_invoke u f p (received_invocation rid zone message)))
      (report_exception mp p))"
    by (intro keep_intros run_prog_keeps report_exception_P)
  ultimately show "P (snd (invoke_procedure mp u f (received_invocation rid zone message) s))"
    by (simp add: invoke_procedure_def alloc keepsD)
qed

lemma process_invocation_P: "keeps P (process_invocation mp u message zone)"
  unfolding process_invocation_def receive_defs
  by (intro keep_intros invoke_procedure_P)

end

section \<open>Predicates kept by the message handlers\<close>

locale handler_invariant = api_invariant mp P
  for mp :: msgpack and P :: "session \<Rightarrow> bool" +
  assumes welcome_P: "keeps P (process_welcome mp message)"
    and goodbye_P: "keeps P (process_goodbye mp message)"
    and error_P: "keeps P (process_error mp message)"
    and call_result_P: "keeps P (process_call_result mp message zone)"
    and subscribed_P: "keeps P (process_subscribed mp message)"
    and unsubscribed_P: "keeps P (process_unsubscribed mp message)"
    and registered_P: "keeps P (process_registered mp message)"
begin

lemma process_message_P: "keeps P (process_message mp u t message zone)"
  by (cases t)
    (simp_all add: unexpected_def not_implemented_def protocol_error_def keep_intros
      welcome_P goodbye_P error_P call_result_P subscribed_P unsubscribed_P registered_P
      process_event_P process_invocation_P)

lemma got_message_P: "keeps P (got_message mp u v zone)"
  unfolding got_message_def receive_defs
  by (cases v) (auto intro!: keep_intros process_message_P)

end

section \<open>Predicates kept by the primitive updates\<close>

text \<open>
  The operations are compositions of a few updates: it is enough that these keep the predicate.
\<close>

fun task_buffers :: "task \<Rightarrow> buffer list" where
  "task_buffers Stop_Task = []"
| "task_buffers (Join_Task b) = [b]"
| "task_buffers (Leave_Task b) = [b]"
| "task_buffers (Subscribe_Task r p b) = [b]"
| "task_buffers (Unsubscribe_Task r p b) = [b]"
| "task_buffers (Provide_Task r p b) = [b]"
| "task_buffers (Publish_Task b) = [b]"
| "task_buffers (Call_Task r p b) = [b]"
| "task_buffers (Send_Result_Task b) = [b]"

definition client_task :: "task \<Rightarrow> bool" where
  "client_task t \<longleftrightarrow> list_all client_message (task_buffers t)"

lemma client_task_simps [simp]:
  "client_task Stop_Task"
  "client_task (Join_Task b) = client_message b"
  "client_task (Leave_Task b) = client_message b"
  "client_task (Subscribe_Task r p b) = client_message b"
  "client_task (Unsubscribe_Task r p b) = client_message b"
  "client_task (Provide_Task r p b) = client_message b"
  "client_task (Publish_Task b) = client_message b"
  "client_task (Call_Task r p b) = client_message b"
  "client_task (Send_Result_Task b) = client_message b"
  by (simp_all add: client_task_def)

locale api_updates =
  fixes mp :: msgpack and P :: "session \<Rightarrow> bool"
  assumes send_U: "client_message b \<Longrightarrow> keeps P (send mp b)"
    and enqueue_U: "P s \<Longrightarrow> client_task t \<Longrightarrow> P (s\<lparr>io_queue := io_queue s @ [t]\<rparr>)"
    and counter_U: "P s \<Longrightarrow> P (s\<lparr>m_request_id := Suc (m_request_id s)\<rparr>)"
    and alloc_U: "P s \<Longrightarrow> P (snd (alloc_call s))" "P s \<Longrightarrow> P (snd (alloc_subscribe h s))"
      "P s \<Longrightarrow> P (snd (alloc_unsubscribe s))" "P s \<Longrightarrow> P (snd (alloc_register f s))"
      "P s \<Longrightarrow> P (snd (alloc_invocation iv s))"
    and fresh_U:
      "P s \<Longrightarrow> client_message b \<Longrightarrow> P (snd (call_task mp r (heap_next s) b (snd (alloc_call s))))"
      "P s \<Longrightarrow> client_message b \<Longrightarrow> P (snd (subscribe_task mp r (heap_next s) b (snd (alloc_subscribe h s))))"
      "P s \<Longrightarrow> client_message b \<Longrightarrow> P (snd (unsubscribe_task mp r (heap_next s) b (snd (alloc_unsubscribe s))))"
      "P s \<Longrightarrow> client_message b \<Longrightarrow> P (snd (provide_task mp r (heap_next s) b (snd (alloc_register f s))))"
    and answered_U: "P s \<Longrightarrow> heap_invocations s p = Some iv \<Longrightarrow> inv_send_result_fn iv \<noteq> None \<Longrightarrow>
      P (s\<lparr>heap_invocations := (heap_invocations s)(p \<mapsto> iv\<lparr>inv_send_result_fn := None\<rparr>)\<rparr>)"
    and stop_task_U: "keeps P stop_task"
    and leave_task_U: "client_message b \<Longrightarrow> keeps P (leave_task mp b)"
    and futures_U: "keeps P (on_stop get_future)" "keeps P (on_join get_future)"
      "keeps P (on_leave get_future)"
begin

lemma send_client: "P s \<Longrightarrow> client_message b \<Longrightarrow> P (snd (send mp b s))"
  by (rule keepsD [OF send_U])

lemma leave_client: "P s \<Longrightarrow> client_message b \<Longrightarrow> P (snd (leave_task mp b s))"
  by (rule keepsD [OF leave_task_U])

text \<open>
  A request made on the io thread hands its new object to its function at once; the other
  functions capture no object.
\<close>

lemma plain_task_P: "client_task t \<Longrightarrow> captured t = [] \<Longrightarrow> keeps P (run_task mp t)"
  by (cases t)
    (simp_all add: captured_def stop_task_U leave_task_U, simp_all add: keeps_def task_defs send_client)

lemma io_dispatch_P: "client_task t \<Longrightarrow> captured t = [] \<Longrightarrow> keeps P (io_dispatch mp inline t)"
  using plain_task_P [of t]
  by (cases inline) (auto simp: keeps_def io_dispatch_def enqueue_U)

lemma fresh_dispatch:
  assumes "P s" and "client_message b"
  shows "P (snd (io_dispatch mp inline (Call_Task r (heap_next s) b) (snd (alloc_call s))))"
    and "P (snd (io_dispatch mp inline (Subscribe_Task r (heap_next s) b) (snd (alloc_subscribe h s))))"
    and "P (snd (io_dispatch mp inline (Unsubscribe_Task r (heap_next s) b) (snd (alloc_unsubscribe s))))"
    and "P (snd (io_dispatch mp inline (Provide_Task r (heap_next s) b) (snd (alloc_register f s))))"
  using assms
  by (cases inline; simp add: io_dispatch_def fresh_U enqueue_U alloc_U)+

lemma counted_P: "next_request_id s = (r, s') \<Longrightarrow> P s \<Longrightarrow> P s'"
  by (auto simp: next_request_id_def counter_U)

lemma alloc_address:
  "alloc_call s = (p, s') \<Longrightarrow> p = heap_next s \<and> s' = snd (alloc_call s)"
  "alloc_subscribe h s = (p, s') \<Longrightarrow> p = heap_next s \<and> s' = snd (alloc_subscribe h s)"
  "alloc_unsubscribe s = (p, s') \<Longrightarrow> p = heap_next s \<and> s' = snd (alloc_unsubscribe s)"
  "alloc_register f s = (p, s') \<Longrightarrow> p = heap_next s \<and> s' = snd (alloc_register f s)"
  by (auto simp: alloc_defs)

lemma issue_keeps:
  "client_messages_of msg \<Longrightarrow> keeps P (issue_subscribe mp inline h msg)"
  "client_messages_of msg \<Longrightarrow> keeps P (issue_unsubscribe mp inline msg)"
  "client_messages_of msg \<Longrightarrow> keeps P (issue_register mp inline f msg)"
  "client_messages_of msg \<Longrightarrow> keeps P (issue_call mp inline msg)"
  "client_messages_of msg \<Longrightarrow> keeps P (issue_publish mp inline msg)"
  by (auto simp: keeps_def issue_defs client_messages_of_def and_then_ret_state captured_def
      split: prod.splits dest!: alloc_address intro!: fresh_dispatch keepsD [OF io_dispatch_P]
      elim!: counted_P)

lemma reply_keeps: "keeps P (invocation_reply mp inline p rep)"
proof -
  have "keeps P (send_result mp inline f (reply_message rep r))" for f r
    by (simp add: keeps_def send_result_def keepsD [OF io_dispatch_P] client_messages captured_def)
  then show ?thesis by (rule invocation_reply_keeps) (rule answered_U)
qed

lemma session_calls_keep:
  "keeps P (stop mp inline)" "keeps P (join mp inline realm)" "keeps P (leave mp inline reason)"
  unfolding stop_def join_def leave_def
  by (intro keep_intros futures_U io_dispatch_P; simp add: client_messages captured_def)+

end

sublocale api_updates \<subseteq> api_invariant
  by unfold_locales (simp_all add: issue_keeps session_calls_keep reply_keeps alloc_U)

locale message_updates = api_updates mp P
  for mp :: msgpack and P :: "session \<Rightarrow> bool" +
  assumes enter_U: "P s \<Longrightarrow> P (enter_call r p s)" "P s \<Longrightarrow> P (enter_subscribe r p s)"
      "P s \<Longrightarrow> P (enter_unsubscribe r p s)" "P s \<Longrightarrow> P (enter_register r p s)"
    and release_U: "P s \<Longrightarrow> P (release_call p s)" "P s \<Longrightarrow> P (release_subscribe p s)"
      "P s \<Longrightarrow> P (release_unsubscribe p s)" "P s \<Longrightarrow> P (release_register p s)"
    and procedures_U: "P s \<Longrightarrow> P (s\<lparr>m_procedures := ps\<rparr>)"
    and handlers_U:
      "P s \<Longrightarrow> P (s\<lparr>m_subscription_handlers := mm_insert i h' (m_subscription_handlers s)\<rparr>)"
    and subscribe_done_U:
      "P s \<Longrightarrow> P (s\<lparr>m_subscribe_requests := map_erase (m_subscribe_requests s) r\<rparr>)"
    and unsubscribe_done_U:
      "P s \<Longrightarrow> P (s\<lparr>m_unsubscribe_requests := map_erase (m_unsubscribe_requests s) r\<rparr>)"
    and objects_U: "keeps P (reject_call p e)" "keeps P (resolve_call p v)"
      "keeps P (respond_subscribe p sv)" "keeps P (respond_unsubscribe p)" "keeps P (respond_register p rv)"
    and session_open_U: "keeps P (and_then (update (\<lambda>s. s\<lparr>m_session_id := i\<rparr>)) (on_join (set_value i)))"
    and session_close_U: "P s \<Longrightarrow> P (s\<lparr>m_session_id := 0\<rparr>)"
    and leave_value_U: "keeps P (on_leave (set_value reason))"
begin

lemma run_task_P: "client_task t \<Longrightarrow> keeps P (run_task mp t)"
  by (cases t)
    (simp_all add: stop_task_U leave_task_U, simp_all add: keeps_def task_defs send_client enter_U release_U)

lemma process_welcome_keeps: "keeps P (process_welcome mp message)"
  unfolding process_welcome_def receive_defs by (intro keep_intros session_open_U)

lemma process_goodbye_keeps: "keeps P (process_goodbye mp message)"
  unfolding process_goodbye_def receive_defs
  by (intro keep_intros keeps_update session_close_U send_U client_messages leave_value_U)

lemma process_error_keeps: "keeps P (process_error mp message)"
  unfolding process_error_def receive_defs Let_def
  by (intro keep_intros objects_U)

lemma process_call_result_keeps: "keeps P (process_call_result mp message zone)"
  unfolding process_call_result_def receive_defs
  by (intro keep_intros objects_U)

lemma process_subscribed_keeps: "keeps P (process_subscribed mp message)"
  unfolding process_subscribed_def receive_defs
  by (intro keep_intros keeps_update objects_U handlers_U subscribe_done_U)

lemma process_unsubscribed_keeps: "keeps P (process_unsubscribed mp message)"
  unfolding process_unsubscribed_def receive_defs
  by (intro keep_intros keeps_update objects_U unsubscribe_done_U)

lemma process_registered_keeps: "keeps P (process_registered mp message)"
  unfolding process_registered_def receive_defs
  by (intro keep_intros keeps_update objects_U procedures_U)

end

sublocale message_updates \<subseteq> handler_invariant
  by unfold_locales
    (simp_all add: process_welcome_keeps process_goodbye_keeps process_error_keeps
      process_call_result_keeps process_subscribed_keeps process_unsubscribed_keeps
      process_registered_keeps)

section \<open>Predicates on individual fields\<close>

text \<open>
  Most invariants look at a few fields.  For them the contents of tables and heaps do not matter.
\<close>

locale field_invariant =
  fixes mp :: msgpack and P :: "session \<Rightarrow> bool"
  assumes send_P: "client_message b \<Longrightarrow> keeps P (send mp b)"
    and enqueue_P: "P s \<Longrightarrow> client_task t \<Longrightarrow> P (s\<lparr>io_queue := io_queue s @ [t]\<rparr>)"
    and counter_P: "P s \<Longrightarrow> P (s\<lparr>m_request_id := n\<rparr>)"
    and calls_P: "P s \<Longrightarrow> P (s\<lparr>m_calls := mc\<rparr>)"
    and subscribes_P: "P s \<Longrightarrow> P (s\<lparr>m_subscribe_requests := ms\<rparr>)"
    and unsubscribes_P: "P s \<Longrightarrow> P (s\<lparr>m_unsubscribe_requests := mu\<rparr>)"
    and registers_P: "P s \<Longrightarrow> P (s\<lparr>m_register_requests := mr\<rparr>)"
    and procedures_P: "P s \<Longrightarrow> P (s\<lparr>m_procedures := ps\<rparr>)"
    and handlers_P:
      "P s \<Longrightarrow> P (s\<lparr>m_subscription_handlers := mm_insert i h (m_subscription_handlers s)\<rparr>)"
    and heap_calls_P: "P s \<Longrightarrow> P (s\<lparr>heap_calls := hc\<rparr>)"
    and heap_subscribes_P: "P s \<Longrightarrow> P (s\<lparr>heap_subscribes := hs\<rparr>)"
    and heap_unsubscribes_P: "P s \<Longrightarrow> P (s\<lparr>heap_unsubscribes := hu\<rparr>)"
    and heap_registers_P: "P s \<Longrightarrow> P (s\<lparr>heap_registers := hr\<rparr>)"
    and new_invocation_P: "P s \<Longrightarrow> P (snd (alloc_invocation iv s))"
    and answered_P: "P s \<Longrightarrow> heap_invocations s p = Some iv \<Longrightarrow> inv_send_result_fn iv \<noteq> None \<Longrightarrow>
      P (s\<lparr>heap_invocations := (heap_invocations s)(p \<mapsto> iv\<lparr>inv_send_result_fn := None\<rparr>)\<rparr>)"
    and heap_next_P: "P s \<Longrightarrow> n = Suc (heap_next s) \<Longrightarrow> P (s\<lparr>heap_next := n\<rparr>)"
    and stop_task_P: "keeps P stop_task"
    and leave_task_P: "client_message b \<Longrightarrow> keeps P (leave_task mp b)"
    and futures_P: "keeps P (on_stop get_future)" "keeps P (on_join get_future)"
      "keeps P (on_leave get_future)"
    and session_open_P: "keeps P (and_then (update (\<lambda>s. s\<lparr>m_session_id := i\<rparr>)) (on_join (set_value i)))"
    and session_close_P: "P s \<Longrightarrow> P (s\<lparr>m_session_id := 0\<rparr>)"
    and leave_value_P: "keeps P (on_leave (set_value reason))"
begin

lemma field_allocs:
  "P s \<Longrightarrow> P (snd (alloc_call s))"
  "P s \<Longrightarrow> P (snd (alloc_subscribe h s))"
  "P s \<Longrightarrow> P (snd (alloc_unsubscribe s))"
  "P s \<Longrightarrow> P (snd (alloc_register f s))"
  by (simp_all add: alloc_defs heap_calls_P heap_subscribes_P heap_unsubscribes_P heap_registers_P
      heap_next_P)

lemma field_enters:
  "P s \<Longrightarrow> P (release_call p s)" "P s \<Longrightarrow> P (release_subscribe p s)"
  "P s \<Longrightarrow> P (release_unsubscribe p s)" "P s \<Longrightarrow> P (release_register p s)"
  "P s \<Longrightarrow> P (enter_call r p s)" "P s \<Longrightarrow> P (enter_subscribe r p s)"
  "P s \<Longrightarrow> P (enter_unsubscribe r p s)" "P s \<Longrightarrow> P (enter_register r p s)"
  by (simp_all add: release_defs enter_defs calls_P subscribes_P unsubscribes_P registers_P
      heap_calls_P heap_subscribes_P heap_unsubscribes_P heap_registers_P)

lemma field_fresh:
  assumes "P s" and "client_message b"
  shows "P (snd (call_task mp r (heap_next s) b (snd (alloc_call s))))"
    and "P (snd (subscribe_task mp r (heap_next s) b (snd (alloc_subscribe h s))))"
    and "P (snd (unsubscribe_task mp r (heap_next s) b (snd (alloc_unsubscribe s))))"
    and "P (snd (provide_task mp r (heap_next s) b (snd (alloc_register f s))))"
  using assms by (simp_all add: task_defs field_allocs field_enters keepsD [OF send_P])

lemma field_objects:
  "keeps P (reject_call p e)" "keeps P (resolve_call p v)" "keeps P (respond_subscribe p sv)"
  "keeps P (respond_unsubscribe p)" "keeps P (respond_register p rv)"
  by (simp_all add: keeps_def reject_call_def resolve_call_def respond_subscribe_def
      respond_unsubscribe_def respond_register_def heap_calls_P heap_subscribes_P
      heap_unsubscribes_P heap_registers_P split: option.splits prod.splits)

end

sublocale field_invariant \<subseteq> message_updates
  by unfold_locales
    (simp_all add: send_P enqueue_P counter_P procedures_P handlers_P field_allocs field_enters
      field_fresh field_objects new_invocation_P answered_P stop_task_P leave_task_P subscribes_P unsubscribes_P futures_P session_open_P session_close_P leave_value_P)

section \<open>The reading side is private to the loop\<close>

text \<open>
  No public operation, callback or message handler touches the decoder, the pending reads, the
  handshake promise or the recorded read errors.
\<close>

definition read_side ::
    "session \<Rightarrow> byte list \<times> byte list \<times> u32 \<times> nat \<times> bool promise \<times> read_op list \<times> io_error list \<times> bool"
  where
  "read_side s =
     (m_unpacker s, m_buffer_message_length s, m_message_length s, zone_count s, m_handshake s,
      pending_reads s, rx_errors s, alive s)"

lemma read_side_updates [simp]:
  "read_side (s\<lparr>m_out := os\<rparr>) = read_side s"
  "read_side (s\<lparr>m_session_stop := stop_p\<rparr>) = read_side s"
  "read_side (s\<lparr>m_session_join := join_p\<rparr>) = read_side s"
  "read_side (s\<lparr>m_session_leave := leave_p\<rparr>) = read_side s"
  "read_side (s\<lparr>io_queue := q\<rparr>) = read_side s"
  by (simp_all add: read_side_def)

lemma read_side_send [simp]: "read_side (snd (send mp b s)) = read_side s"
  using keepsD [OF send_keeps, of "\<lambda>t. read_side t = read_side s"] by simp

interpretation reads: field_invariant mp "\<lambda>s. read_side s = x" for mp x
  by unfold_locales
    (simp_all add: send_keeps keeps_def leave_task_def,
     simp_all add: read_side_def stop_task_def on_promise_defs action_defs alloc_invocation_def
       split: prod.splits)

lemma read_side_run_task: "read_side (snd (run_task mp t s)) = read_side s"
proof -
  have "read_side (snd (stop_task s)) = read_side s"
    by (rule keepsD [OF reads.stop_task_P]) simp
  then show ?thesis
    by (cases t) (simp_all add: task_defs, simp_all add: read_side_def enter_defs release_defs)
qed

lemma read_side_next_task: "read_side (snd (run_next_task mp s)) = read_side s"
  by (auto simp: run_next_task_def read_side_run_task split: list.splits)

text \<open>
  The reads of the receive loop, those of a header or a body: at most one is outstanding, and only
  once the handshake promise is satisfied.  The promise is satisfied once, so only one handshake
  reply starts the loop, however often \<open>start\<close> is called.  No read is outstanding before \<open>start\<close> has
  handed out the handshake future.
\<close>

definition loop_reads :: "session \<Rightarrow> read_op list" where
  "loop_reads s = filter (\<lambda>op. op \<noteq> Read_Handshake) (pending_reads s)"

definition reads_ok :: "session \<Rightarrow> bool" where
  "reads_ok s \<longleftrightarrow>
     length (loop_reads s) \<le> 1 \<and>
     (loop_reads s \<noteq> [] \<longrightarrow> satisfied (m_handshake s)) \<and>
     (pending_reads s \<noteq> [] \<longrightarrow> future_retrieved (m_handshake s))"

text \<open>The loop has ended: the handshake is over and no read of the loop is outstanding.\<close>

definition loop_ended :: "session \<Rightarrow> bool" where
  "loop_ended s \<longleftrightarrow> satisfied (m_handshake s) \<and> loop_reads s = []"

definition arming :: "session \<Rightarrow> read_op list \<times> bool promise" where
  "arming s = (pending_reads s, m_handshake s)"

lemma read_side_arming: "read_side s' = read_side s \<Longrightarrow> arming s' = arming s"
  by (simp add: read_side_def arming_def)

lemma arming_cong:
  "arming s' = arming s \<Longrightarrow> reads_ok s' = reads_ok s"
  "arming s' = arming s \<Longrightarrow> loop_ended s' = loop_ended s"
  by (simp_all add: arming_def reads_ok_def loop_ended_def loop_reads_def)

lemma keeps_arming:
  assumes "\<And>x. keeps (\<lambda>s. read_side s = x) m"
  shows "keeps (\<lambda>s. arming s = x) m"
proof (rule keepsI)
  fix s assume "arming s = x"
  have "read_side (snd (m s)) = read_side s"
    by (rule keepsD [where P = "\<lambda>t. read_side t = read_side s", OF assms]) (rule refl)
  then have "arming (snd (m s)) = arming s" by (rule read_side_arming)
  with \<open>arming s = x\<close> show "arming (snd (m s)) = x" by (simp only:)
qed

text \<open>
  What a completion handler may arm: the next read of the loop, once, and when the completed read was
  that of the handshake only if this has satisfied the promise.  A handler that fails arms nothing.
\<close>

definition arms :: "read_op \<Rightarrow> session \<Rightarrow> unit result \<times> session \<Rightarrow> bool" where
  "arms op s x \<longleftrightarrow>
     (pending_reads (snd x) = pending_reads s \<or>
      fst x = Ok () \<and> (\<exists>l. l \<noteq> Read_Handshake \<and> pending_reads (snd x) = pending_reads s @ [l]) \<and>
        (op = Read_Handshake \<longrightarrow> \<not> satisfied (m_handshake s))) \<and>
     (op \<noteq> Read_Handshake \<or> satisfied (m_handshake s) \<longrightarrow> m_handshake (snd x) = m_handshake s) \<and>
     (op = Read_Handshake \<longrightarrow> satisfied (m_handshake (snd x))) \<and>
     future_retrieved (m_handshake (snd x)) = future_retrieved (m_handshake s)"

lemma arms_quiet:
  assumes "op \<noteq> Read_Handshake" and "\<And>x. keeps (\<lambda>s. arming s = x) m"
  shows "arms op s (m s)"
proof -
  have "arming (snd (m s)) = arming s" by (rule keepsD [OF assms(2)]) (rule refl)
  with assms(1) show ?thesis by (simp add: arms_def arming_def)
qed

lemma handshake_reply_arms: "arms Read_Handshake s (got_handshake_reply e s)"
  by (cases "satisfied (m_handshake s)"; cases e)
    (simp_all add: got_handshake_reply_def protocol_error_def receive_message_def on_handshake_def
      set_value_cases action_defs arms_def)

lemma rx_error_arming: "keeps (\<lambda>s. arming s = x) (handle_rx_error mp e)"
  unfolding handle_rx_error_def
  by (intro keep_intros keeps_update keeps_arming reads.leave_P reads.stop_P reads.leave_value_P)
    (simp add: arming_def)

lemma got_message_arming: "arming (snd (got_message mp u v z s)) = arming s"
  by (rule read_side_arming) (rule keepsD [OF reads.got_message_P], simp)

lemma unpack_loop_arming: "arming (snd (unpack_loop mp u n s)) = arming s"
proof (induction n arbitrary: s)
  case (Suc n)
  have "got_message mp u v z (s\<lparr>m_unpacker := rest, zone_count := k\<rparr>) = (r, s') \<Longrightarrow> arming s' = arming s"
    for v z rest k r s'
    using got_message_arming [of mp u v z "s\<lparr>m_unpacker := rest, zone_count := k\<rparr>"]
    by (simp add: arming_def)
  then show ?case using Suc.IH by (auto split: result.splits option.splits prod.splits)
qed simp

lemma unpack_all_arming: "arming (snd (unpack_all mp u s)) = arming s"
  using unpack_loop_arming [of mp u "Suc (length (m_unpacker s))" s]
  by (auto simp: unpack_all_def simp del: unpack_loop.simps split: prod.splits option.splits)

lemma message_header_arms: "arms Read_Header s (got_message_header mp e s)"
proof (cases e)
  case None
  then show ?thesis by (simp add: got_message_header_def update_def arms_def)
qed (simp add: got_message_header_def arms_quiet [OF _ rx_error_arming])

lemma message_body_arms: "arms Read_Body s (got_message_body mp u e bs s)"
proof (cases e)
  case None
  obtain r s1 where "unpack_all mp u (s\<lparr>m_unpacker := m_unpacker s @ bs\<rparr>) = (r, s1)" by fastforce
  moreover from this have "arming s1 = arming s"
    using unpack_all_arming [of mp u "s\<lparr>m_unpacker := m_unpacker s @ bs\<rparr>"] by (simp add: arming_def)
  ultimately show ?thesis
    using None by (cases r) (auto simp: got_message_body_def receive_message_def action_defs arms_def arming_def)
qed (simp add: got_message_body_def arms_quiet [OF _ rx_error_arming])

lemma on_read_arms: "arms op s (on_read mp u op outcome s)"
proof -
  have "arms op s x" if "arms op (s\<lparr>m_buffer_message_length := bs\<rparr>) x" for op bs x
    using that by (simp add: arms_def)
  then have buffered: "arms Read_Handshake s (got_handshake_reply None (s\<lparr>m_buffer_message_length := bs\<rparr>))"
    "arms Read_Header s (got_message_header mp None (s\<lparr>m_buffer_message_length := bs\<rparr>))" for bs
    by (blast intro: handshake_reply_arms message_header_arms)+
  show ?thesis
    by (cases op; cases outcome)
      (simp_all add: and_then_def bind_act_def update_def handshake_reply_arms message_header_arms
        message_body_arms buffered)
qed

lemma completed_reads_ok:
  assumes "reads_ok s" and "pending_reads s = before @ op # after"
    and "on_read mp u op outcome (s\<lparr>pending_reads := before @ after\<rparr>) = (r, s')"
  shows "reads_ok s'"
  using on_read_arms [of op "s\<lparr>pending_reads := before @ after\<rparr>" mp u outcome] assms
  by (cases "op = Read_Handshake"; cases "satisfied (m_handshake s)")
    (auto simp: arms_def reads_ok_def loop_reads_def)

lemma completed_loop_ended:
  assumes "loop_ended s" and "pending_reads s = before @ op # after"
    and "on_read mp u op outcome (s\<lparr>pending_reads := before @ after\<rparr>) = (r, s')"
  shows "loop_ended s'"
  using on_read_arms [of op "s\<lparr>pending_reads := before @ after\<rparr>" mp u outcome] assms
  by (cases "op = Read_Handshake") (auto simp: arms_def loop_ended_def loop_reads_def)

text \<open>
  A predicate of the reads that starting, completing and destroying keep is kept by every step.
\<close>

lemma step_reads:
  assumes "session_step mp u s s'" and "P s" and "\<And>s s'. arming s' = arming s \<Longrightarrow> P s \<Longrightarrow> P s'"
    and "\<And>s. P s \<Longrightarrow> P (snd (start s))" and "\<And>s. P s \<Longrightarrow> P (destroy_session s)"
    and "\<And>s before op after outcome r s'. P s \<Longrightarrow> pending_reads s = before @ op # after \<Longrightarrow>
      on_read mp u op outcome (s\<lparr>pending_reads := before @ after\<rparr>) = (r, s') \<Longrightarrow> P s'"
  shows "P s'"
  using assms(1)
proof cases
  case (step_api inline c r)
  have "read_side s' = read_side s" by (rule keepsD_eq [OF reads.run_api_P _ step_api(2)]) simp
  with assms(2,3) show ?thesis by (blast intro: read_side_arming)
next
  case (step_start r)
  with assms(2,4) show ?thesis by (metis snd_conv)
next
  case (step_task r)
  then have "read_side s' = read_side s" using read_side_next_task [of mp s] by simp
  with assms(2,3) show ?thesis by (blast intro: read_side_arming)
next
  case (step_read before op after outcome r)
  then show ?thesis using assms(2,6) by (simp add: complete_read_def)
next
  case (step_reply p inline rep r)
  have "read_side s' = read_side s" by (rule keepsD_eq [OF reads.reply_P _ step_reply(2)]) simp
  with assms(2,3) show ?thesis by (blast intro: read_side_arming)
next
  case step_release
  with assms(2,5) show ?thesis by simp
qed

lemma start_arming:
  "arming (snd (start s)) = arming s \<or> m_handshake (snd (start s)) = (m_handshake s)\<lparr>future_retrieved := True\<rparr> \<and>
     pending_reads (snd (start s)) = pending_reads s @ [Read_Handshake]"
proof -
  obtain r os where "asio_write handshake_request (m_out s) = (r, os)" by fastforce
  then show ?thesis
    by (cases r)
      (auto simp: start_def action_defs on_out_def on_handshake_def get_future_def arming_def)
qed

lemma step_reads_ok: "session_step mp u s s' \<Longrightarrow> reads_ok s \<Longrightarrow> reads_ok s'"
proof (erule step_reads, assumption)
  show "reads_ok s'" if "arming s' = arming s" and "reads_ok s" for s s'
    using that(2) unfolding arming_cong(1) [OF that(1)] .
  show "reads_ok (snd (start s))" if "reads_ok s" for s
    using start_arming [of s]
  proof
    assume "arming (snd (start s)) = arming s"
    from arming_cong(1) [OF this] that show ?thesis by (rule iffD2)
  qed (use that in \<open>auto simp: reads_ok_def loop_reads_def\<close>)
  show "reads_ok (destroy_session s)" if "reads_ok s" for s
    using that by (simp add: reads_ok_def loop_reads_def destroy_session_def)
qed (rule completed_reads_ok)

lemma step_loop_ended: "session_step mp u s s' \<Longrightarrow> loop_ended s \<Longrightarrow> loop_ended s'"
proof (erule step_reads, assumption)
  show "loop_ended s'" if "arming s' = arming s" and "loop_ended s" for s s'
    using that(2) unfolding arming_cong(2) [OF that(1)] .
  show "loop_ended (snd (start s))" if "loop_ended s" for s
    using start_arming [of s]
  proof
    assume "arming (snd (start s)) = arming s"
    from arming_cong(2) [OF this] that show ?thesis by (rule iffD2)
  qed (use that in \<open>auto simp: loop_ended_def loop_reads_def\<close>)
  show "loop_ended (destroy_session s)" if "loop_ended s" for s
    using that by (simp add: loop_ended_def loop_reads_def destroy_session_def)
qed (rule completed_loop_ended)

lemma reachable_reads_ok: "reachable mp u s \<Longrightarrow> reads_ok s"
  unfolding reachable_def
proof (erule reach_invariant)
  show "reads_ok s" if "session_init s" for s
    using that by (auto simp: session_init_def new_session_def reads_ok_def loop_reads_def)
qed (rule step_reads_ok)

text \<open>From a state satisfying the first predicate, the action ends in one satisfying the second.\<close>

definition leads :: "('s \<Rightarrow> bool) \<Rightarrow> ('s \<Rightarrow> bool) \<Rightarrow> ('s, 'a) action \<Rightarrow> bool" where
  "leads J K m \<longleftrightarrow> (\<forall>s. J s \<longrightarrow> K (snd (m s)))"

lemma leads_keeps: "keeps J m \<Longrightarrow> (\<And>s. J s \<Longrightarrow> K s) \<Longrightarrow> leads J K m"
  by (simp add: leads_def keeps_def)

lemma leads_and_then:
  assumes "keeps J m" and "leads J K n" and "\<And>s. J s \<Longrightarrow> K s"
  shows "leads J K (and_then m n)"
proof -
  have "K (snd (and_then m n s))" if "J s" for s
  proof -
    obtain r s' where m: "m s = (r, s')" by (cases "m s")
    with assms(1) that have "J s'" using keepsD [of J m s] by simp
    with assms(2,3) m show ?thesis
      by (cases r) (simp_all add: and_then_def bind_act_def leads_def)
  qed
  then show ?thesis by (simp add: leads_def)
qed

lemma leads_if: "leads J K m \<Longrightarrow> leads J K n \<Longrightarrow> leads J K (if b then m else n)"
  by simp

lemma leads_with_state: "(\<And>s0. leads J K (f s0)) \<Longrightarrow> leads J K (with_state f)"
  by (simp add: leads_def with_state_def)

lemma keeps_on_handshake:
  "(\<And>s p. P s \<Longrightarrow> P (s\<lparr>m_handshake := p\<rparr>)) \<Longrightarrow> keeps P (on_handshake f)"
  by (simp add: keeps_def on_handshake_def split: prod.splits)

section \<open>Predicates kept by every transition\<close>

text \<open>What completed reads do, with the callbacks of one application.\<close>

locale read_invariant =
  fixes mp :: msgpack and u :: user and P :: "session \<Rightarrow> bool"
  assumes got_message_P: "keeps P (got_message mp u object zone)"
    and rx_error_P: "keeps P (handle_rx_error mp e)"
    and reads_P: "P s \<Longrightarrow> P (s\<lparr>pending_reads := ops\<rparr>)"
    and handshake_P: "keeps P (on_handshake (set_value v))"
    and prefix_P: "P s \<Longrightarrow> P (s\<lparr>m_buffer_message_length := bs\<rparr>)"
    and length_P: "P s \<Longrightarrow> P (s\<lparr>m_message_length := n\<rparr>)"
    and unpacker_P: "P s \<Longrightarrow> P (s\<lparr>m_unpacker := rest\<rparr>)"
    and zone_P: "P s \<Longrightarrow> P (s\<lparr>zone_count := z\<rparr>)"
begin

lemma unpack_loop_P: "P s \<Longrightarrow> P (snd (unpack_loop mp u n s))"
proof (induction n arbitrary: s)
  case (Suc n)
  have "P (snd (got_message mp u v (zone_count s)
          (s\<lparr>m_unpacker := rest, zone_count := Suc (zone_count s)\<rparr>)))" for v rest
    using got_message_P by (rule keepsD) (simp add: unpacker_P zone_P Suc.prems)
  with Suc show ?case
    by (simp split: result.splits option.splits prod.splits) (metis snd_conv)
qed simp

lemma unpack_all_P: "keeps P (unpack_all mp u)"
proof (rule keepsI)
  fix s assume "P s"
  then have "P (snd (unpack_loop mp u (Suc (length (m_unpacker s))) s))" by (rule unpack_loop_P)
  then show "P (snd (unpack_all mp u s))"
    unfolding unpack_all_def
    by (cases "unpack_loop mp u (Suc (length (m_unpacker s))) s")
      (simp del: unpack_loop.simps split: option.splits)
qed

lemma receive_P: "keeps P receive_message"
  unfolding receive_message_def by (intro keeps_update reads_P)

lemma handshake_reply_P: "keeps P (got_handshake_reply e)"
  unfolding got_handshake_reply_def protocol_error_def
  by (intro keep_intros handshake_P receive_P)

lemma message_header_P: "keeps P (got_message_header mp e)"
  by (cases e) (auto simp: got_message_header_def rx_error_P intro!: keeps_update reads_P length_P)

lemma message_body_P: "keeps P (got_message_body mp u e bs)"
  by (cases e)
    (auto simp: got_message_body_def rx_error_P
      intro!: keep_intros keeps_update unpacker_P unpack_all_P receive_P)

lemma on_read_P: "keeps P (on_read mp u op outcome)"
  by (cases op; cases outcome)
    (auto intro!: keep_intros keeps_update prefix_P handshake_reply_P message_header_P message_body_P)

lemma complete_read_P: "keeps P (complete_read mp u outcome)"
  by (auto simp: keeps_def complete_read_def reads_P intro!: keepsD [OF on_read_P] split: list.split)

end

text \<open>What the io thread does.\<close>

locale io_invariant = handler_invariant mp P
  for mp :: msgpack and P :: "session \<Rightarrow> bool" +
  assumes start_P: "P s \<Longrightarrow> P (snd (start s))"
    and task_P: "keeps P (run_next_task mp)"
    and reads_P: "P s \<Longrightarrow> P (s\<lparr>pending_reads := ops\<rparr>)"
    and handshake_P: "keeps P (on_handshake (set_value v))"
    and prefix_P: "P s \<Longrightarrow> P (s\<lparr>m_buffer_message_length := bs\<rparr>)"
    and length_P: "P s \<Longrightarrow> P (s\<lparr>m_message_length := n\<rparr>)"
    and unpacker_P: "P s \<Longrightarrow> P (s\<lparr>m_unpacker := rest\<rparr>)"
    and zone_P: "P s \<Longrightarrow> P (s\<lparr>zone_count := z\<rparr>)"
    and rx_leave_P: "keeps P (on_leave (set_value reason))"
    and rx_report_P: "P s \<Longrightarrow> P (s\<lparr>rx_errors := es\<rparr>)"
begin

lemma rx_error_P: "keeps P (handle_rx_error mp e)"
  unfolding handle_rx_error_def
  by (intro keep_intros rx_leave_P leave_P stop_P keeps_update rx_report_P)

end

sublocale io_invariant \<subseteq> reading: read_invariant mp u P for u
  by unfold_locales
    (rule got_message_P rx_error_P handshake_P reads_P prefix_P length_P unpacker_P zone_P; assumption?)+

locale step_invariant = io_invariant mp P
  for mp :: msgpack and P :: "session \<Rightarrow> bool" +
  assumes release_P: "P s \<Longrightarrow> P (destroy_session s)"
begin

lemma session_step_P: "session_step mp u s s' \<Longrightarrow> P s \<Longrightarrow> P s'"
proof (induction rule: session_step.induct)
  case (step_api s inline c r s')
  show ?case by (rule keepsD_eq [OF run_api_P step_api.prems step_api.hyps(2)])
next
  case (step_start s r s')
  with start_P [of s] show ?case by simp
next
  case (step_task s r s')
  show ?case by (rule keepsD_eq [OF task_P step_task.prems step_task.hyps(2)])
next
  case (step_read s before op after outcome r s')
  show ?case by (rule keepsD_eq [OF reading.complete_read_P reads_P [OF step_read.prems] step_read.hyps(4)])
next
  case (step_reply s p inline rep r s')
  show ?case by (rule keepsD_eq [OF reply_P step_reply.prems step_reply.hyps(2)])
next
  case (step_release s)
  then show ?case by (simp add: release_P)
qed

lemma steps_P: "(session_step mp u)\<^sup>*\<^sup>* s s' \<Longrightarrow> P s \<Longrightarrow> P s'"
  by (induction rule: rtranclp_induct) (auto intro: session_step_P)

end

locale session_invariant = step_invariant mp P
  for mp :: msgpack and P :: "session \<Rightarrow> bool" +
  assumes init_P: "P (new_session \<lparr>written = [], fail_after = budget\<rparr>)"
begin

lemma reachable_P: "reachable mp u s \<Longrightarrow> P s"
  unfolding reachable_def
  by (erule reach_invariant) (auto simp: session_init_def init_P intro: session_step_P)

end

text \<open>
  The two ways combined: an invariant on individual fields.  It carries along that every queued
  function sends a client message.
\<close>

definition client_queue :: "session \<Rightarrow> bool" where
  "client_queue s \<longleftrightarrow> list_all client_task (io_queue s)"

lemma client_queue_new: "client_queue (new_session os)"
  by (simp add: client_queue_def new_session_def)

locale step_fields = field_invariant mp "\<lambda>s. client_queue s \<and> Q s"
  for mp :: msgpack and Q :: "session \<Rightarrow> bool" +
  assumes start_Q: "Q s \<Longrightarrow> Q (snd (start s))"
    and queue_Q: "Q s \<Longrightarrow> Q (s\<lparr>io_queue := q\<rparr>)"
    and environment_Q:
      "Q s \<Longrightarrow> Q (destroy_session s)" "Q s \<Longrightarrow> Q (s\<lparr>pending_reads := ops\<rparr>)"
      "Q s \<Longrightarrow> Q (s\<lparr>m_handshake := hp\<rparr>)" "Q s \<Longrightarrow> Q (s\<lparr>m_buffer_message_length := bs\<rparr>)"
      "Q s \<Longrightarrow> Q (s\<lparr>m_message_length := n\<rparr>)" "Q s \<Longrightarrow> Q (s\<lparr>m_unpacker := rest\<rparr>)"
      "Q s \<Longrightarrow> Q (s\<lparr>zone_count := z\<rparr>)" "Q s \<Longrightarrow> Q (s\<lparr>rx_errors := es\<rparr>)"
begin

lemma next_task_Q: "keeps (\<lambda>s. client_queue s \<and> Q s) (run_next_task mp)"
proof (rule keepsI)
  fix s assume s: "client_queue s \<and> Q s"
  show "client_queue (snd (run_next_task mp s)) \<and> Q (snd (run_next_task mp s))"
  proof (cases "io_queue s")
    case (Cons t ts)
    with s have "client_queue (s\<lparr>io_queue := ts\<rparr>) \<and> Q (s\<lparr>io_queue := ts\<rparr>)" and "client_task t"
      by (simp_all add: client_queue_def queue_Q)
    with Cons show ?thesis by (simp add: run_next_task_def keepsD [OF run_task_P])
  qed (use s in \<open>simp add: run_next_task_def\<close>)
qed

lemma handshake_Q: "keeps (\<lambda>s. client_queue s \<and> Q s) (on_handshake f)"
  by (rule keeps_on_handshake) (simp add: client_queue_def environment_Q)

end

lemma start_queue: "io_queue (snd (start s)) = io_queue s"
proof -
  obtain r os where "asio_write handshake_request (m_out s) = (r, os)" by fastforce
  then show ?thesis
    by (cases r)
      (simp_all add: start_def action_defs on_out_def on_handshake_def get_future_def)
qed

sublocale step_fields \<subseteq> step_invariant mp "\<lambda>s. client_queue s \<and> Q s"
proof unfold_locales
  fix s assume "client_queue s \<and> Q s"
  then show "client_queue (snd (start s)) \<and> Q (snd (start s))"
    by (simp add: start_Q client_queue_def start_queue)
qed (simp_all add: environment_Q handshake_Q next_task_Q leave_value_P, simp_all add: client_queue_def destroy_session_def)

locale session_fields = step_fields mp Q
  for mp :: msgpack and Q :: "session \<Rightarrow> bool" +
  assumes init_Q: "Q (new_session \<lparr>written = [], fail_after = budget\<rparr>)"

sublocale session_fields \<subseteq> session_invariant mp "\<lambda>s. client_queue s \<and> Q s"
  by unfold_locales (simp add: init_Q client_queue_new)

end
