(* ===== verification/Request_Tables.thy ===== *)
theory Request_Tables
  imports Session_Invariants
begin

text \<open>
  The tables of outstanding requests and the objects they point to.  In every reachable session
  an entry points to an existing request object, no two entries share one, a subscribe or
  unsubscribe request in its table is still unresolved, every id in a table or in a queued
  function was issued by the counter, and a function waiting in the io queue owns an object that
  is in no table yet.  The message handlers therefore never follow a dangling pointer, and the
  SUBSCRIBED and UNSUBSCRIBED handlers never resolve a promise twice.
\<close>

section \<open>One table\<close>

text \<open>
  A table \<open>t\<close>, the addresses \<open>q\<close> that wait to be entered, and the addresses that are usable.
\<close>

definition table_ok :: "('k \<rightharpoonup> nat) \<Rightarrow> nat list \<Rightarrow> (nat \<Rightarrow> bool) \<Rightarrow> bool" where
  "table_ok t q usable \<longleftrightarrow>
     distinct q \<and> set q \<inter> ran t = {} \<and> (\<forall>p \<in> set q \<union> ran t. usable p) \<and> inj_on t (dom t)"

lemma table_ok_empty [simp]: "table_ok Map.empty [] usable"
  by (simp add: table_ok_def)

lemma table_ok_rotate: "table_ok t (q @ [p]) usable = table_ok t (p # q) usable"
  by (auto simp: table_ok_def)

lemma table_ok_drop: "table_ok t (p # q) usable \<Longrightarrow> table_ok t q usable"
  by (auto simp: table_ok_def)

lemma table_ok_usable: "table_ok t q usable \<Longrightarrow> t r = Some p \<Longrightarrow> usable p"
  by (auto simp: table_ok_def ran_def)

lemma table_ok_mono:
  "table_ok t q usable \<Longrightarrow> (\<And>p. usable p \<Longrightarrow> usable' p) \<Longrightarrow> table_ok t q usable'"
  by (auto simp: table_ok_def)

lemma table_ok_released:
  assumes "table_ok t (p # q) usable" and "\<And>x. x \<noteq> p \<Longrightarrow> usable x \<Longrightarrow> usable' x"
  shows "table_ok t q usable'"
proof -
  from assms(1) have "p \<notin> set q \<union> ran t" and "\<forall>x \<in> set q \<union> ran t. usable x"
    by (auto simp: table_ok_def)
  then have "\<forall>x \<in> set q \<union> ran t. usable' x" using assms(2) by metis
  with assms(1) show ?thesis by (simp add: table_ok_def)
qed

lemma table_ok_new:
  assumes "table_ok t q usable" and "\<not> usable p" and "usable' p"
    and "\<And>x. usable x \<Longrightarrow> usable' x"
  shows "table_ok t (p # q) usable'"
  using assms by (auto simp: table_ok_def)

lemma ran_map_emplace: "ran (map_emplace t r p) \<subseteq> insert p (ran t)"
  by (auto simp: ran_def dest: map_emplace_Some)

lemma table_ok_emplace:
  assumes ok: "table_ok t (p # q) usable"
  shows "table_ok (map_emplace t r p) q usable"
proof (cases "t r")
  case None
  with ok show ?thesis
    by (auto simp: table_ok_def inj_on_def ran_def split: if_splits)
next
  case (Some w)
  with table_ok_drop [OF ok] show ?thesis by simp
qed

lemma table_ok_enter: "table_ok t (p # q) usable \<Longrightarrow> t r = None \<Longrightarrow> table_ok (t(r \<mapsto> p)) q usable"
  by (drule table_ok_emplace [where r = r]) simp

lemma ran_map_erase: "inj_on t (dom t) \<Longrightarrow> t r = Some p \<Longrightarrow> ran (map_erase t r) = ran t - {p}"
  by (auto simp: ran_def inj_on_def) (metis domI option.inject)+

lemma inj_map_erase: "inj_on t (dom t) \<Longrightarrow> inj_on (map_erase t r) (dom (map_erase t r))"
proof (rule inj_onI)
  fix a b
  assume inj: "inj_on t (dom t)" and "a \<in> dom (map_erase t r)" "b \<in> dom (map_erase t r)"
    and "map_erase t r a = map_erase t r b"
  then have "t a = t b" "a \<in> dom t" "b \<in> dom t" by simp_all
  then show "a = b" using inj by (simp add: inj_on_eq_iff)
qed

lemma table_ok_erase:
  assumes ok: "table_ok t q usable" and r: "t r = Some p"
    and rest: "\<And>x. x \<noteq> p \<Longrightarrow> usable x \<Longrightarrow> usable' x"
  shows "table_ok (map_erase t r) q usable'"
proof -
  from ok have inj: "inj_on t (dom t)" by (simp add: table_ok_def)
  from ok r have "p \<notin> set q" by (auto simp: table_ok_def ran_def)
  with ok rest ran_map_erase [OF inj r] inj_map_erase [OF inj, of r] show ?thesis
    by (auto simp only: table_ok_def) (metis UnI1)
qed

section \<open>The four tables of a session\<close>

fun task_request :: "task \<Rightarrow> u64 list" where
  "task_request (Call_Task r p b) = [r]"
| "task_request (Subscribe_Task r p b) = [r]"
| "task_request (Unsubscribe_Task r p b) = [r]"
| "task_request (Provide_Task r p b) = [r]"
| "task_request _ = []"

definition present :: "(nat \<rightharpoonup> 'a) \<Rightarrow> nat \<Rightarrow> bool" where
  "present h p \<longleftrightarrow> h p \<noteq> None"

definition open_subscribe :: "(nat \<rightharpoonup> wamp_subscribe_request) \<Rightarrow> nat \<Rightarrow> bool" where
  "open_subscribe h p \<longleftrightarrow>
     (case h p of Some r \<Rightarrow> \<not> satisfied (subscribe_response r) | None \<Rightarrow> False)"

definition open_unsubscribe :: "(nat \<rightharpoonup> wamp_unsubscribe_request) \<Rightarrow> nat \<Rightarrow> bool" where
  "open_unsubscribe h p \<longleftrightarrow>
     (case h p of Some r \<Rightarrow> \<not> satisfied (unsubscribe_response r) | None \<Rightarrow> False)"

lemmas usable_defs = present_def open_subscribe_def open_unsubscribe_def

definition issued_ids :: "nat \<Rightarrow> u64 set" where
  "issued_ids n = word_of_nat ` {0 <.. n}"

definition heap_bounded :: "session \<Rightarrow> bool" where
  "heap_bounded s \<longleftrightarrow>
     (\<forall>p \<ge> heap_next s. heap_calls s p = None \<and> heap_subscribes s p = None \<and>
        heap_unsubscribes s p = None \<and> heap_registers s p = None \<and> heap_invocations s p = None)"

definition ids_issued :: "task list \<Rightarrow> session \<Rightarrow> bool" where
  "ids_issued q s \<longleftrightarrow>
     dom (m_calls s) \<union> dom (m_subscribe_requests s) \<union> dom (m_unsubscribe_requests s) \<union>
     dom (m_register_requests s) \<union> set (concat (map task_request q)) \<subseteq> issued_ids (m_request_id s)"

text \<open>With \<open>q\<close> the functions that still have to run.\<close>

definition tables_ok :: "task list \<Rightarrow> session \<Rightarrow> bool" where
  "tables_ok q s \<longleftrightarrow>
     table_ok (m_calls s) (concat (map call_ptr q)) (present (heap_calls s)) \<and>
     table_ok (m_subscribe_requests s) (concat (map subscribe_ptr q)) (open_subscribe (heap_subscribes s)) \<and>
     table_ok (m_unsubscribe_requests s) (concat (map unsubscribe_ptr q)) (open_unsubscribe (heap_unsubscribes s)) \<and>
     table_ok (m_register_requests s) (concat (map register_ptr q)) (present (heap_registers s)) \<and>
     heap_bounded s \<and> ids_issued q s"

definition requests_ok :: "session \<Rightarrow> bool" where
  "requests_ok s \<longleftrightarrow> tables_ok (io_queue s) s"

lemmas tables_defs =
  tables_ok_def heap_bounded_def ids_issued_def

lemma tables_ok_rotate: "tables_ok (q @ [t]) s = tables_ok (t # q) s"
  by (cases t) (simp_all add: tables_defs table_ok_rotate)

lemma tables_ok_send [simp]: "tables_ok q (snd (send mp b s)) = tables_ok q s"
  by (simp add: tables_defs)

text \<open>Running a function moves the object it owns into the table, or releases it.\<close>

lemma release_tables:
  "tables_ok (Call_Task r p b # q) s \<Longrightarrow> tables_ok q (release_call p s)"
  "tables_ok (Subscribe_Task r p b # q) s \<Longrightarrow> tables_ok q (release_subscribe p s)"
  "tables_ok (Unsubscribe_Task r p b # q) s \<Longrightarrow> tables_ok q (release_unsubscribe p s)"
  "tables_ok (Provide_Task r p b # q) s \<Longrightarrow> tables_ok q (release_register p s)"
  by (auto simp: tables_defs release_defs usable_defs elim!: table_ok_released)

lemma enter_tables:
  "tables_ok (Call_Task r p b # q) s \<Longrightarrow> tables_ok q (enter_call r p s)"
  "tables_ok (Subscribe_Task r p b # q) s \<Longrightarrow> tables_ok q (enter_subscribe r p s)"
  "tables_ok (Unsubscribe_Task r p b # q) s \<Longrightarrow> tables_ok q (enter_unsubscribe r p s)"
  "tables_ok (Provide_Task r p b # q) s \<Longrightarrow> tables_ok q (enter_register r p s)"
  by (simp_all add: enter_defs release_tables) (auto simp: tables_defs table_ok_enter)

lemma run_task_tables: "tables_ok (t # q) s \<Longrightarrow> tables_ok q (snd (run_task mp t s))"
  by (cases t)
    (simp_all add: task_defs on_stop_def set_value_cases release_tables enter_tables,
     auto simp: tables_defs)

lemma run_task_queue: "io_queue (snd (run_task mp t s)) = io_queue s"
  by (cases t) (simp_all add: task_defs on_stop_def enter_defs release_defs split: prod.splits)

lemma io_dispatch_tables:
  "tables_ok (t # io_queue s) s \<Longrightarrow> requests_ok (snd (io_dispatch mp inline t s))"
proof (cases inline)
  case True
  moreover assume "tables_ok (t # io_queue s) s"
  ultimately show ?thesis by (simp add: io_dispatch_def requests_ok_def run_task_tables run_task_queue)
next
  case False
  assume "tables_ok (t # io_queue s) s"
  then have "tables_ok (io_queue s @ [t]) s" by (simp only: tables_ok_rotate)
  with False show ?thesis by (simp add: io_dispatch_def requests_ok_def tables_defs)
qed

text \<open>Taking a request id and allocating the object yields a function that owns the object.\<close>

lemma issued_ids_mono: "issued_ids n \<subseteq> issued_ids (Suc n)"
  by (auto simp: issued_ids_def)

lemma issued_ids_new [simp]: "word_of_nat (Suc n) \<in> issued_ids (Suc n)"
  by (auto simp: issued_ids_def simp del: of_nat_Suc)

lemma ids_issued_counter:
  "ids_issued q s \<Longrightarrow> ids_issued q (s\<lparr>m_request_id := Suc (m_request_id s)\<rparr>)"
  by (simp add: ids_issued_def, elim conjE, intro conjI; erule order_trans; rule issued_ids_mono)

lemma counter_tables:
  "tables_ok q s \<Longrightarrow> tables_ok q (s\<lparr>m_request_id := Suc (m_request_id s)\<rparr>)"
  by (simp add: tables_ok_def ids_issued_counter heap_bounded_def)

lemma alloc_tables:
  assumes "tables_ok q s" and "r \<in> issued_ids (m_request_id s)"
  shows "tables_ok (Call_Task r (heap_next s) b # q) (snd (alloc_call s))"
    and "tables_ok (Subscribe_Task r (heap_next s) b # q) (snd (alloc_subscribe h s))"
    and "tables_ok (Unsubscribe_Task r (heap_next s) b # q) (snd (alloc_unsubscribe s))"
    and "tables_ok (Provide_Task r (heap_next s) b # q) (snd (alloc_register f s))"
  using assms
  by (auto simp: tables_defs alloc_defs usable_defs new_subscribe_request_def
      new_unsubscribe_request_def elim!: table_ok_new)

lemma alloc_invocation_tables:
  "tables_ok q s \<Longrightarrow> tables_ok q (snd (alloc_invocation iv s))"
  by (simp add: tables_defs alloc_defs)

section \<open>Every operation keeps the tables\<close>

lemma io_dispatch_plain:
  assumes "requests_ok s" and "call_ptr t = []" "subscribe_ptr t = []" "unsubscribe_ptr t = []"
    "register_ptr t = []" "task_request t = []"
  shows "requests_ok (snd (io_dispatch mp inline t s))"
  using assms by (intro io_dispatch_tables) (simp add: requests_ok_def tables_defs)

lemma dispatch_then_ret:
  "snd (and_then (io_dispatch mp inline t) (ret p) s) = snd (io_dispatch mp inline t s)"
  by (cases "io_dispatch mp inline t s"; cases "fst (io_dispatch mp inline t s)")
    (simp_all add: action_defs)

lemma counter_requests:
  "requests_ok s \<Longrightarrow> tables_ok (io_queue s) (s\<lparr>m_request_id := Suc (m_request_id s)\<rparr>)"
  by (simp add: requests_ok_def counter_tables)

lemma issue_tables:
  "keeps requests_ok (issue_call mp inline msg)"
  "keeps requests_ok (issue_subscribe mp inline h msg)"
  "keeps requests_ok (issue_unsubscribe mp inline msg)"
  "keeps requests_ok (issue_register mp inline f msg)"
  "keeps requests_ok (issue_publish mp inline msg)"
proof -
  let ?s1 = "\<lambda>s. s\<lparr>m_request_id := Suc (m_request_id s)\<rparr>"
  have id: "word_of_nat (Suc (m_request_id s)) \<in> issued_ids (m_request_id (?s1 s))" for s
    by (simp del: of_nat_Suc)
  note new = alloc_tables [OF counter_requests id]
  show "keeps requests_ok (issue_call mp inline msg)"
    using new(1) by (auto simp: keeps_def issue_defs next_request_id_def alloc_defs
        dispatch_then_ret simp del: of_nat_Suc intro!: io_dispatch_tables)
  show "keeps requests_ok (issue_subscribe mp inline h msg)"
    using new(2) by (auto simp: keeps_def issue_defs next_request_id_def alloc_defs
        dispatch_then_ret simp del: of_nat_Suc intro!: io_dispatch_tables)
  show "keeps requests_ok (issue_unsubscribe mp inline msg)"
    using new(3) by (auto simp: keeps_def issue_defs next_request_id_def alloc_defs
        dispatch_then_ret simp del: of_nat_Suc intro!: io_dispatch_tables)
  show "keeps requests_ok (issue_register mp inline f msg)"
    using new(4) by (auto simp: keeps_def issue_defs next_request_id_def alloc_defs
        dispatch_then_ret simp del: of_nat_Suc intro!: io_dispatch_tables)
  show "keeps requests_ok (issue_publish mp inline msg)"
    by (auto simp: keeps_def issue_defs next_request_id_def simp del: of_nat_Suc
        intro!: io_dispatch_plain) (simp add: requests_ok_def counter_tables)
qed

lemma futures_tables:
  "keeps requests_ok (on_stop f1)" "keeps requests_ok (on_join f2)" "keeps requests_ok (on_leave f3)"
  by (simp_all add: keeps_def on_promise_defs requests_ok_def tables_defs split: prod.splits)

lemma session_tables:
  "keeps requests_ok (stop mp inline)" "keeps requests_ok (join mp inline realm)"
  "keeps requests_ok (leave mp inline reason)"
  unfolding stop_def join_def leave_def
  by (intro keep_intros futures_tables keepsI io_dispatch_plain; simp)+

text \<open>The destructor leaves the objects that queued functions hold as they are.\<close>

lemma destroy_tables: "requests_ok s \<Longrightarrow> requests_ok (destroy_session s)"
  by (auto simp: requests_ok_def tables_ok_def ids_issued_def heap_bounded_def destroy_session_def
      release_all_def table_ok_def usable_defs split: option.splits)

lemma send_tables: "keeps requests_ok (send mp b)"
  by (simp add: keeps_def requests_ok_def)

lemma reply_tables: "keeps requests_ok (invocation_reply mp inline p rep)"
proof -
  have "keeps requests_ok (send_result mp inline f b)" for f b
    by (simp add: keeps_def send_result_def io_dispatch_plain)
  then show ?thesis
    by (rule invocation_reply_keeps) (auto simp: requests_ok_def tables_defs)
qed

lemma next_task_tables: "keeps requests_ok (run_next_task mp)"
proof (rule keepsI)
  fix s assume ok: "requests_ok s"
  show "requests_ok (snd (run_next_task mp s))"
  proof (cases "io_queue s")
    case (Cons t ts)
    with ok have "tables_ok (t # ts) (s\<lparr>io_queue := ts\<rparr>)"
      by (simp add: requests_ok_def tables_defs)
    then have "tables_ok ts (snd (run_task mp t (s\<lparr>io_queue := ts\<rparr>)))" by (rule run_task_tables)
    with Cons show ?thesis by (simp add: run_next_task_def requests_ok_def run_task_queue)
  qed (use ok in \<open>simp add: run_next_task_def\<close>)
qed

section \<open>The message handlers\<close>

lemma heap_update_tables:
  "requests_ok s \<Longrightarrow> heap_calls s p = Some c \<Longrightarrow>
   requests_ok (s\<lparr>heap_calls := (heap_calls s)(p \<mapsto> c')\<rparr>)"
  "requests_ok s \<Longrightarrow> heap_registers s p = Some r \<Longrightarrow>
   requests_ok (s\<lparr>heap_registers := (heap_registers s)(p \<mapsto> r')\<rparr>)"
  by (auto simp: requests_ok_def tables_defs present_def elim!: table_ok_mono)

lemma answer_tables:
  "keeps requests_ok (reject_call p e)" "keeps requests_ok (resolve_call p v)"
  "keeps requests_ok (respond_register p rv)"
  by (auto simp: keeps_def reject_call_def resolve_call_def respond_register_def
      heap_update_tables split: option.splits prod.splits)

text \<open>A pending subscribe or unsubscribe request exists and is unresolved.\<close>

lemma pending_subscribe:
  assumes "requests_ok s" and "m_subscribe_requests s r = Some p"
  obtains c where "heap_subscribes s p = Some c" and "\<not> satisfied (subscribe_response c)"
proof -
  have "open_subscribe (heap_subscribes s) p"
    using assms by (auto simp: requests_ok_def tables_ok_def dest: table_ok_usable)
  then show ?thesis using that by (auto simp: open_subscribe_def split: option.splits)
qed

lemma pending_unsubscribe:
  assumes "requests_ok s" and "m_unsubscribe_requests s r = Some p"
  obtains c where "heap_unsubscribes s p = Some c" and "\<not> satisfied (unsubscribe_response c)"
proof -
  have "open_unsubscribe (heap_unsubscribes s) p"
    using assms by (auto simp: requests_ok_def tables_ok_def dest: table_ok_usable)
  then show ?thesis using that by (auto simp: open_unsubscribe_def split: option.splits)
qed

lemma pending_call:
  assumes "requests_ok s" and "m_calls s r = Some p"
  obtains c where "heap_calls s p = Some c"
proof -
  have "present (heap_calls s) p"
    using assms by (auto simp: requests_ok_def tables_ok_def dest: table_ok_usable)
  then show ?thesis using that by (auto simp: present_def)
qed

lemma pending_register:
  assumes "requests_ok s" and "m_register_requests s r = Some p"
  obtains c where "heap_registers s p = Some c"
proof -
  have "present (heap_registers s) p"
    using assms by (auto simp: requests_ok_def tables_ok_def dest: table_ok_usable)
  then show ?thesis using that by (auto simp: present_def)
qed

lemma subscribe_done_tables:
  assumes ok: "requests_ok s" and r: "m_subscribe_requests s r = Some p"
  shows "requests_ok (s\<lparr>m_subscription_handlers := hs,
           heap_subscribes := (heap_subscribes s)(p \<mapsto> c),
           m_subscribe_requests := map_erase (m_subscribe_requests s) r\<rparr>)"
proof -
  obtain c0 where "heap_subscribes s p = Some c0" by (rule pending_subscribe [OF ok r])
  moreover from ok r have "table_ok (map_erase (m_subscribe_requests s) r)
      (concat (map subscribe_ptr (io_queue s))) (open_subscribe ((heap_subscribes s)(p \<mapsto> c)))"
    by (intro table_ok_erase [of _ _ "open_subscribe (heap_subscribes s)" r p])
      (simp_all add: requests_ok_def tables_ok_def open_subscribe_def)
  ultimately show ?thesis
    using ok by (auto simp: requests_ok_def tables_defs)
qed

lemma unsubscribe_done_tables:
  assumes ok: "requests_ok s" and r: "m_unsubscribe_requests s r = Some p"
  shows "requests_ok (s\<lparr>heap_unsubscribes := (heap_unsubscribes s)(p \<mapsto> c),
           m_unsubscribe_requests := map_erase (m_unsubscribe_requests s) r\<rparr>)"
proof -
  obtain c0 where "heap_unsubscribes s p = Some c0" by (rule pending_unsubscribe [OF ok r])
  moreover from ok r have "table_ok (map_erase (m_unsubscribe_requests s) r)
      (concat (map unsubscribe_ptr (io_queue s))) (open_unsubscribe ((heap_unsubscribes s)(p \<mapsto> c)))"
    by (intro table_ok_erase [of _ _ "open_unsubscribe (heap_unsubscribes s)" r p])
      (simp_all add: requests_ok_def tables_ok_def open_unsubscribe_def)
  ultimately show ?thesis
    using ok by (auto simp: requests_ok_def tables_defs)
qed

lemma process_subscribed_tables: "keeps requests_ok (process_subscribed mp message)"
  unfolding process_subscribed_def receive_defs
proof (intro keeps_if keeps_raise keeps_bind keeps_lift_result keeps_element_at keeps_with_stateI)
  fix r s assume ok: "requests_ok s"
  show "requests_ok (snd ((case m_subscribe_requests s r of
      None \<Rightarrow> raise (Protocol_Error ''SUBSCRIBED - no pending request ID'')
    | Some p \<Rightarrow> bind_act (element_at message 2) (\<lambda>x2.
        if \<not> is_positive_integer x2
        then raise (Protocol_Error ''SUBSCRIBED - SUBSCRIBED.Subscription must be an integer'')
        else bind_act (lift_result (or_throw (as_uint64 mp x2) type_error))
          (\<lambda>i. case heap_subscribes s p of None \<Rightarrow> lift_result Undefined_Behaviour
           | Some request \<Rightarrow>
               and_then (update (\<lambda>s. s\<lparr>m_subscription_handlers :=
                   mm_insert i (subscribe_handler request) (m_subscription_handlers s)\<rparr>))
                 (and_then (respond_subscribe p (new_subscription i))
                   (update (\<lambda>s. s\<lparr>m_subscribe_requests := map_erase (m_subscribe_requests s) r\<rparr>)))))) s))"
  proof (cases "m_subscribe_requests s r")
    case None
    with ok show ?thesis by (simp add: raise_def)
  next
    case (Some p)
    obtain c where c: "heap_subscribes s p = Some c" "\<not> satisfied (subscribe_response c)"
      by (rule pending_subscribe [OF ok Some])
    from ok Some c show ?thesis
      by (cases "as_uint64 mp (message ! 2)"; cases "2 < length message")
        (simp_all add: element_at_def action_defs respond_subscribe_def set_response_cases subscribe_done_tables)
  qed
qed

lemma process_unsubscribed_tables: "keeps requests_ok (process_unsubscribed mp message)"
  unfolding process_unsubscribed_def receive_defs
proof (intro keeps_if keeps_raise keeps_bind keeps_lift_result keeps_element_at keeps_with_stateI)
  fix r s assume ok: "requests_ok s"
  show "requests_ok (snd ((case m_unsubscribe_requests s r of
      None \<Rightarrow> raise (Protocol_Error ''UNSUBSCRIBED - no pending request ID'')
    | Some p \<Rightarrow> and_then (respond_unsubscribe p)
        (update (\<lambda>s. s\<lparr>m_unsubscribe_requests := map_erase (m_unsubscribe_requests s) r\<rparr>))) s))"
  proof (cases "m_unsubscribe_requests s r")
    case None
    with ok show ?thesis by (simp add: raise_def)
  next
    case (Some p)
    obtain c where c: "heap_unsubscribes s p = Some c" "\<not> satisfied (unsubscribe_response c)"
      by (rule pending_unsubscribe [OF ok Some])
    from ok Some c show ?thesis
      by (simp add: action_defs respond_unsubscribe_def set_response_cases unsubscribe_done_tables)
  qed
qed

lemma plain_updates_tables:
  "requests_ok s \<Longrightarrow> requests_ok (s\<lparr>m_session_id := i\<rparr>)"
  "requests_ok s \<Longrightarrow> requests_ok (s\<lparr>m_procedures := ps\<rparr>)"
  by (simp_all add: requests_ok_def tables_defs)

lemma process_tables:
  "keeps requests_ok (process_welcome mp message)"
  "keeps requests_ok (process_goodbye mp message)"
  "keeps requests_ok (process_error mp message)"
  "keeps requests_ok (process_call_result mp message zone)"
  "keeps requests_ok (process_registered mp message)"
  unfolding process_welcome_def process_goodbye_def process_error_def process_call_result_def
    process_registered_def receive_defs Let_def
  by (intro keep_intros keeps_update futures_tables send_tables answer_tables plain_updates_tables;
      assumption)+

lemma start_tables: "requests_ok s \<Longrightarrow> requests_ok (snd (start s))"
proof -
  obtain r os where "asio_write handshake_request (m_out s) = (r, os)" by fastforce
  moreover assume "requests_ok s"
  ultimately show ?thesis
    by (cases r)
      (simp_all add: start_def action_defs on_out_def on_handshake_def get_future_def
         requests_ok_def tables_defs)
qed

lemma requests_handshake: "requests_ok (s\<lparr>m_handshake := p\<rparr>) = requests_ok s"
  by (simp add: requests_ok_def tables_defs)

interpretation requests: session_invariant mp requests_ok for mp
  by unfold_locales
    (simp_all add: issue_tables session_tables reply_tables process_tables start_tables
       process_subscribed_tables process_unsubscribed_tables next_task_tables futures_tables
       keeps_on_handshake requests_handshake destroy_tables,
     simp_all add: requests_ok_def alloc_invocation_tables, simp_all add: tables_defs new_session_def
       alloc_invocation_def)

end
