(* ===== verification/Session_Runs.thy ===== *)
theory Session_Runs
  imports Session_Loop
begin

text \<open>
  Executable runs.  \<open>do_step\<close> performs one transition named by a \<open>move\<close>, or fails when the
  move is not enabled; \<open>run\<close> performs a list of them.  The transition relation is exactly what
  single moves can do, so a run from a new session ends in a reachable one.  \<open>scripted\<close> is an
  instance of the msgpack parameter whose decoder reads one byte per message and looks the
  message up in a given list; runs over it exhibit concrete reachable sessions.
\<close>

section \<open>Moves\<close>

datatype move =
    Do_Api bool api_call
  | Do_Start
  | Do_Task
  | Do_Read read_outcome
  | Do_Read_At nat read_outcome
  | Do_Reply bool nat reply
  | Do_Release

fun defined_after :: "'a result \<times> session \<Rightarrow> session option" where
  "defined_after (Undefined_Behaviour, s) = None"
| "defined_after (_, s) = Some s"

fun do_step :: "msgpack \<Rightarrow> user \<Rightarrow> move \<Rightarrow> session \<Rightarrow> session option" where
  "do_step mp u (Do_Api inline c) s = (if alive s then defined_after (run_api mp inline c s) else None)"
| "do_step mp u Do_Start s =
     (if alive s then Some (snd (start s)) else None)"
| "do_step mp u Do_Task s = (if io_queue s = [] then None else defined_after (run_next_task mp s))"
| "do_step mp u (Do_Read outcome) s =
     (case pending_reads s of
        [] \<Rightarrow> None
      | op # ops \<Rightarrow> (if alive s \<and> read_fits s op outcome
                     then defined_after (complete_read mp u outcome s) else None))"
| "do_step mp u (Do_Read_At n outcome) s =
     (if alive s \<and> n < length (pending_reads s) \<and> read_fits s (pending_reads s ! n) outcome
      then defined_after (complete_read mp u outcome
        (s\<lparr>pending_reads := pending_reads s ! n # take n (pending_reads s) @ drop (Suc n) (pending_reads s)\<rparr>))
      else None)"
| "do_step mp u (Do_Reply inline p rep) s =
     (case heap_invocations s p of
        None \<Rightarrow> None | Some _ \<Rightarrow> Some (snd (invocation_reply mp inline p rep s)))"
| "do_step mp u Do_Release s = (if alive s \<and> pending_reads s = [] then Some (destroy_session s) else None)"

fun run :: "msgpack \<Rightarrow> user \<Rightarrow> move list \<Rightarrow> session \<Rightarrow> session option" where
  "run mp u [] s = Some s"
| "run mp u (m # ms) s = (case do_step mp u m s of None \<Rightarrow> None | Some s' \<Rightarrow> run mp u ms s')"

lemma defined_after_Some:
  "defined_after x = Some s' \<longleftrightarrow> fst x \<noteq> Undefined_Behaviour \<and> snd x = s'"
  by (cases x; cases "fst x") auto

lemma do_step_sound: "do_step mp u m s = Some s' \<Longrightarrow> session_step mp u s s'"
proof (cases m)
  case (Do_Api inline c)
  moreover assume "do_step mp u m s = Some s'"
  ultimately show ?thesis
    by (cases "run_api mp inline c s")
      (auto simp: defined_after_Some split: if_splits intro: session_step.intros)
next
  case Do_Start
  moreover assume "do_step mp u m s = Some s'"
  ultimately show ?thesis
    by (cases "start s") (auto split: if_splits intro: session_step.intros)
next
  case Do_Task
  moreover assume "do_step mp u m s = Some s'"
  ultimately show ?thesis
    by (cases "run_next_task mp s")
      (auto simp: defined_after_Some split: if_splits intro: session_step.intros)
next
  case (Do_Read outcome)
  moreover assume "do_step mp u m s = Some s'"
  ultimately show ?thesis
    by (cases "complete_read mp u outcome s")
      (auto simp: defined_after_Some split: if_splits list.splits intro: step_first_read)
next
  case (Do_Read_At n outcome)
  moreover assume "do_step mp u m s = Some s'"
  ultimately show ?thesis
    by (auto simp: defined_after_Some split: if_splits
        intro: step_read [OF _ id_take_nth_drop _ surjective_pairing])
next
  case (Do_Reply inline p rep)
  moreover assume "do_step mp u m s = Some s'"
  ultimately show ?thesis
    by (cases "invocation_reply mp inline p rep s")
      (auto split: option.splits intro: session_step.intros)
next
  case Do_Release
  moreover assume "do_step mp u m s = Some s'"
  ultimately show ?thesis by (auto split: if_splits intro: session_step.intros)
qed

lemma do_step_complete: "session_step mp u s s' \<Longrightarrow> \<exists>m. do_step mp u m s = Some s'"
proof (induction rule: session_step.induct)
  case (step_api s inline c r s')
  then have "do_step mp u (Do_Api inline c) s = Some s'" by (simp add: defined_after_Some)
  then show ?case ..
next
  case (step_start s r s')
  then have "do_step mp u Do_Start s = Some s'" by simp
  then show ?case ..
next
  case (step_task s r s')
  then have "do_step mp u Do_Task s = Some s'" by (simp add: defined_after_Some)
  then show ?case ..
next
  case (step_read s before op after outcome r s')
  then have "do_step mp u (Do_Read_At (length before) outcome) s = Some s'"
    by (simp add: defined_after_Some nth_append)
  then show ?case ..
next
  case (step_reply s p inline rep r s')
  then have "do_step mp u (Do_Reply inline p rep) s = Some s'" by auto
  then show ?case ..
next
  case (step_release s)
  then have "do_step mp u Do_Release s = Some (destroy_session s)" by simp
  then show ?case ..
qed

lemma reachable_step: "reachable mp u s \<Longrightarrow> session_step mp u s s' \<Longrightarrow> reachable mp u s'"
  unfolding reachable_def by (rule reach_step)

lemma run_reachable: "run mp u ms s = Some s' \<Longrightarrow> reachable mp u s \<Longrightarrow> reachable mp u s'"
  by (induction ms arbitrary: s)
    (auto simp: reachable_def split: option.splits intro: reach_step dest: do_step_sound)

definition healthy :: ostream where
  "healthy = \<lparr>written = [], fail_after = None\<rparr>"

lemma reachable_new: "reachable mp u (new_session healthy)"
  unfolding reachable_def healthy_def by (rule reach_init) (auto simp: session_init_def)

text \<open>The final state of a run that is enabled.\<close>

definition after_run :: "msgpack \<Rightarrow> user \<Rightarrow> move list \<Rightarrow> session" where
  "after_run mp u ms = the (run mp u ms (new_session healthy))"

definition enabled :: "msgpack \<Rightarrow> user \<Rightarrow> move list \<Rightarrow> bool" where
  "enabled mp u ms \<longleftrightarrow> \<not> Option.is_none (run mp u ms (new_session healthy))"

lemma after_run_reachable: "enabled mp u ms \<Longrightarrow> reachable mp u (after_run mp u ms)"
  by (auto simp: after_run_def enabled_def Option.is_none_def intro: run_reachable reachable_new)

section \<open>A concrete environment\<close>

fun scripted_next :: "msgobj list \<Rightarrow> byte list \<Rightarrow> (msgobj \<times> byte list) option result" where
  "scripted_next ms [] = Ok None"
| "scripted_next ms (b # bs) =
     (if unat b < length ms then Ok (Some (ms ! unat b, bs))
      else Throw (Library_Error Msgpack_Parse_Error))"

definition scripted :: "msgobj list \<Rightarrow> msgpack" where
  "scripted ms = msgpack_example\<lparr>unpack_next := scripted_next ms\<rparr>"

lemma scripted_simps [simp]:
  "as_uint64 (scripted ms) = example_uint64"
  "as_int (scripted ms) = example_int"
  "as_string (scripted ms) = example_string"
  "as_string_map (scripted ms) = example_string_map"
  "encode (scripted ms) = example_encode"
  "unpack_next (scripted ms) = scripted_next ms"
  "library_what (scripted ms) = (\<lambda>_. ''std::exception'')"
  by (simp_all add: scripted_def)

lemma scripted_ok [simp]: "msgpack_ok (scripted ms)"
  by (simp add: msgpack_ok_def)

lemma scripted_consumes [simp]: "unpack_consumes (scripted ms)"
proof -
  have "scripted_next ms b = Ok (Some (v, r)) \<Longrightarrow> length r < length b" for b v r
    by (cases b) (auto split: if_splits)
  then show ?thesis by (auto simp: unpack_consumes_def)
qed

definition silent_user :: user where
  "silent_user = \<lparr>on_event = \<lambda>_ _. Done, on_invoke = \<lambda>_ _ _. Done\<rparr>"

text \<open>Start, the router's handshake reply, and one WELCOME message (the first of the script).\<close>

definition welcome_object :: msgobj where
  "welcome_object = ARRAY [POSITIVE_INTEGER 2, POSITIVE_INTEGER 7, MAP []]"

definition deliver :: "byte \<Rightarrow> move list" where
  "deliver b = [Do_Read (Read_Ok [0, 0, 0, 1]), Do_Read (Read_Ok [b])]"

definition join_moves :: "move list" where
  "join_moves = [Do_Start, Do_Read (Read_Ok [0x7F, 0xF2, 0, 0]), Do_Api True (Api_Join ''realm1'')]
     @ deliver 0"

text \<open>
  The demonstration: a script of router messages, and the session after joining and some more
  moves.  Its request ids are 1, 2 and so on, its object addresses 0, 1 and so on.
\<close>

definition demo_mp :: msgpack where
  "demo_mp = scripted
     [welcome_object,
      ARRAY [POSITIVE_INTEGER 33, POSITIVE_INTEGER 1, POSITIVE_INTEGER 9],
      ARRAY [POSITIVE_INTEGER 65, POSITIVE_INTEGER 1, POSITIVE_INTEGER 9],
      ARRAY [POSITIVE_INTEGER 68, POSITIVE_INTEGER 4, POSITIVE_INTEGER 9, MAP []]]"

definition demo :: "move list \<Rightarrow> session" where
  "demo ms = after_run demo_mp silent_user (join_moves @ ms)"

lemma demo_mp_ok [simp]: "msgpack_ok demo_mp" "unpack_consumes demo_mp"
  by (simp_all add: demo_mp_def)

lemma demo_reachable:
  "enabled demo_mp silent_user (join_moves @ ms) \<Longrightarrow> reachable demo_mp silent_user (demo ms)"
  unfolding demo_def by (rule after_run_reachable)

end
