(* ===== verification/Framing.thy ===== *)
theory Framing
  imports Request_Tables Session_Runs
begin

text \<open>
  The message layer of the session: the four-byte length prefix, the alternation of header and
  body reads, and the streaming decoder loop.  \<open>objects\<close> and \<open>handle_all\<close> are the abstract
  specification of the loop: the objects contained in the buffered bytes, in order, each handed
  to \<open>got_message\<close>, up to the first failure.
\<close>

section \<open>The length prefix\<close>

lemma base_256:
  "(((n div 2 ^ 24 mod 256) * 256 + n div 2 ^ 16 mod 256) * 256 + n div 2 ^ 8 mod 256) * 256
     + n mod 256 = n mod 2 ^ 32" for n :: nat
  using mod_mult2_eq [of n "2 ^ 8" "2 ^ 8"] mod_mult2_eq [of n "2 ^ 16" "2 ^ 8"]
    mod_mult2_eq [of n "2 ^ 24" "2 ^ 8"]
  by simp

lemma ntohl_htonl: "ntohl_bytes (htonl_bytes w) = w"
proof -
  have w: "unat w < 4294967296" using unsigned_less [of w, where ?'a = nat] by simp
  then have top: "unat w div 16777216 mod 256 = unat w div 16777216" by simp
  have "fold (\<lambda>b n. n * 256 + unat b) (htonl_bytes w) 0 = unat w"
    using base_256 [of "unat w"] w top
    by (simp add: htonl_bytes_def unsigned_ucast_eq unsigned_drop_bit_eq)
      (simp add: take_bit_eq_mod drop_bit_eq_div)
  then show ?thesis by (simp add: ntohl_bytes_def)
qed

lemma length_prefix_size [simp]: "length (length_prefix d) = 4"
  by (simp add: length_prefix_def htonl_bytes_def)

lemma length_prefix_value: "ntohl_bytes (length_prefix d) = word_of_nat (length d)"
  by (simp add: length_prefix_def ntohl_htonl)

text \<open>
  A message on the wire is its byte length as a 32-bit number in network byte order, followed by the
  message itself.  The receiver's \<open>ntohl\<close> recovers the length modulo \<open>2 ^ 32\<close>.
\<close>

lemma frame_layout:
  "unat (ntohl_bytes (take 4 (frame mp b))) = length (encode mp b) mod 2 ^ 32 \<and>
   drop 4 (frame mp b) = encode mp b"
  by (simp add: frame_def length_prefix_value unat_of_nat)

section \<open>Reading one message\<close>

lemma read_header:
  assumes "pending_reads s = [Read_Header]"
  shows "complete_read mp u (Read_Ok (length_prefix d)) s =
    (Ok (), s\<lparr>m_buffer_message_length := length_prefix d, m_message_length := word_of_nat (length d),
              pending_reads := [Read_Body]\<rparr>)"
  using assms
  by (cases s) (simp add: complete_read_def got_message_header_def action_defs length_prefix_value)

text \<open>Receiving the length prefix of \<open>d\<close> makes the session wait for exactly \<open>length d\<close> bytes,
  provided the length fits into 32 bits.\<close>

lemma frame_received:
  assumes "pending_reads s = [Read_Header]" and "length d < 2 ^ 32"
  shows "complete_read mp u (Read_Ok (length_prefix d)) s =
      (Ok (), s\<lparr>m_buffer_message_length := length_prefix d, m_message_length := word_of_nat (length d),
                pending_reads := [Read_Body]\<rparr>) \<and>
    (\<forall>bs. read_fits (snd (complete_read mp u (Read_Ok (length_prefix d)) s)) Read_Body (Read_Ok bs)
       \<longleftrightarrow> length bs = length d)"
  using assms by (simp add: read_header unat_of_nat)

section \<open>The decoder loop\<close>

text \<open>
  The objects in a sequence of bytes with what is left after each, and how decoding ends: \<open>Ok\<close>
  when more bytes are needed, the decoder's exception otherwise.
\<close>

fun objects :: "msgpack \<Rightarrow> nat \<Rightarrow> byte list \<Rightarrow> (msgobj \<times> byte list) list \<times> unit result" where
  "objects mp 0 bs = ([], Ok ())"
| "objects mp (Suc n) bs =
     (case unpack_next mp bs of
        Ok None \<Rightarrow> ([], Ok ())
      | Ok (Some (v, rest)) \<Rightarrow> (case objects mp n rest of (vs, r) \<Rightarrow> ((v, rest) # vs, r))
      | Throw e \<Rightarrow> ([], Throw e)
      | Undefined_Behaviour \<Rightarrow> ([], Undefined_Behaviour))"

fun handle_all ::
    "msgpack \<Rightarrow> user \<Rightarrow> (msgobj \<times> byte list) list \<Rightarrow> (session, unit) action" where
  "handle_all mp u [] = ret ()"
| "handle_all mp u ((v, rest) # vs) =
     (\<lambda>s. and_then (got_message mp u v (zone_count s)) (handle_all mp u vs)
        (s\<lparr>m_unpacker := rest, zone_count := Suc (zone_count s)\<rparr>))"

lemma got_message_unpacker:
  "m_unpacker (snd (got_message mp u v z s)) = m_unpacker s"
  "pending_reads (snd (got_message mp u v z s)) = pending_reads s"
  using keepsD [OF reads.got_message_P [where x = "read_side s"], of s]
  by (simp_all add: read_side_def)

lemma unpack_loop_objects:
  assumes "unpack_consumes mp"
  shows "length (m_unpacker s) < n \<Longrightarrow>
    unpack_loop mp u n s =
      (case and_then (handle_all mp u (fst (objects mp n (m_unpacker s))))
              (lift_result (snd (objects mp n (m_unpacker s)))) s of (r, s') \<Rightarrow> (Some r, s'))"
proof (induction n arbitrary: s)
  case (Suc n)
  show ?case
  proof (cases "unpack_next mp (m_unpacker s)")
    case (Ok x)
    show ?thesis
    proof (cases x)
      case None
      with Ok show ?thesis by (simp add: action_defs)
    next
      case (Some vr)
      obtain v rest where vr: "vr = (v, rest)" by (cases vr)
      let ?s1 = "s\<lparr>m_unpacker := rest, zone_count := Suc (zone_count s)\<rparr>"
      obtain r s' where g: "got_message mp u v (zone_count s) ?s1 = (r, s')"
        by (cases "got_message mp u v (zone_count s) ?s1")
      have rest: "m_unpacker s' = rest"
        using got_message_unpacker(1) [of mp u v "zone_count s" ?s1] g by simp
      have "length rest < n"
        using assms Ok Some vr Suc.prems by (fastforce simp: unpack_consumes_def)
      with rest have "unpack_loop mp u n s' =
          (case and_then (handle_all mp u (fst (objects mp n rest)))
              (lift_result (snd (objects mp n rest))) s' of (r, s') \<Rightarrow> (Some r, s'))"
        using Suc.IH [of s'] by simp
      moreover obtain vs e where "objects mp n rest = (vs, e)" by (cases "objects mp n rest")
      ultimately show ?thesis
        using Ok Some vr g by (cases r) (simp_all add: and_then_def bind_act_def)
    qed
  qed (simp_all add: action_defs)
qed simp

lemma objects_fuel:
  assumes "unpack_consumes mp"
  shows "length bs < n \<Longrightarrow> objects mp n bs = objects mp (Suc (length bs)) bs"
proof (induction "length bs" arbitrary: bs n rule: less_induct)
  case less
  then obtain m where n: "n = Suc m" by (cases n) auto
  show ?case
  proof (cases "unpack_next mp bs")
    case (Ok x)
    show ?thesis
    proof (cases x)
      case (Some vr)
      obtain v rest where vr: "vr = (v, rest)" by (cases vr)
      have "length rest < length bs"
        using assms Ok Some vr by (auto simp: unpack_consumes_def)
      with less n have "objects mp m rest = objects mp (length bs) rest" by simp
      with Ok Some vr n show ?thesis by simp
    qed (use Ok n in simp)
  qed (simp_all add: n)
qed

text \<open>C9: The decoder loop is its specification: it hands the objects contained in the received
  bytes to \<open>got_message\<close>, in order, up to the first exception, and then raises what the decoder
  raised, if anything.  The loop ends: since each object consumes at least one byte, any bound above
  the number of buffered bytes is enough, and all such bounds give the same result.\<close>

theorem unpack_all_refines:
  assumes "unpack_consumes mp"
  shows "unpack_all mp u s =
    (let (vs, r) = objects mp (Suc (length (m_unpacker s))) (m_unpacker s)
     in and_then (handle_all mp u vs) (lift_result r) s) \<and>
    (\<forall>n. length (m_unpacker s) < n \<longrightarrow> fst (unpack_loop mp u n s) \<noteq> None \<and>
       unpack_loop mp u n s = unpack_loop mp u (Suc (length (m_unpacker s))) s)"
proof (intro conjI allI impI)
  show "unpack_all mp u s =
    (let (vs, r) = objects mp (Suc (length (m_unpacker s))) (m_unpacker s)
     in and_then (handle_all mp u vs) (lift_result r) s)"
    by (simp add: unpack_all_def unpack_loop_objects [OF assms] del: unpack_loop.simps objects.simps
        split: prod.splits)
  fix n assume n: "length (m_unpacker s) < n"
  show "fst (unpack_loop mp u n s) \<noteq> None"
    "unpack_loop mp u n s = unpack_loop mp u (Suc (length (m_unpacker s))) s"
    by (simp_all add: unpack_loop_objects [OF assms] n objects_fuel [OF assms n]
        del: unpack_loop.simps objects.simps split: prod.splits)
qed

theorem unpack_all_refines_witness:
  "let mp = scripted [ARRAY [POSITIVE_INTEGER 3]]; s = (new_session healthy)\<lparr>m_unpacker := [0, 0, 9]\<rparr>
   in unpack_all mp silent_user s =
        (Throw (Library_Error Msgpack_Parse_Error), s\<lparr>m_unpacker := [9], zone_count := 2\<rparr>)"
  unfolding Let_def
  by (subst unpack_all_refines [THEN conjunct1])
    (simp_all add: got_message_def action_defs receive_defs new_session_def)

section \<open>When reading goes on\<close>

text \<open>C18: In every reachable session, whichever outstanding read completes: when its handler throws,
  no read takes its place, so an exception from a message handler or from the decoder ends the
  receive loop, and it ends for good.  The handler of a handshake reply leaves a loop that is running
  alone, but if none is running and the handler throws, none starts any more, even when \<open>start\<close> is
  called again: no state that the session reaches later has a header or a body read outstanding.\<close>

theorem failed_read_ends_loop:
  assumes "reachable mp u s" and "pending_reads s = before @ op # after"
    and "complete_read mp u outcome (s\<lparr>pending_reads := op # before @ after\<rparr>) = (r, s')"
    and "r \<noteq> Ok ()"
  shows "pending_reads s' = before @ after \<and>
    (op \<noteq> Read_Handshake \<longrightarrow> filter (\<lambda>op. op \<noteq> Read_Handshake) (before @ after) = []) \<and>
    (filter (\<lambda>op. op \<noteq> Read_Handshake) (before @ after) = [] \<longrightarrow>
       (\<forall>s''. (session_step mp u)\<^sup>*\<^sup>* s' s'' \<longrightarrow>
          filter (\<lambda>op. op \<noteq> Read_Handshake) (pending_reads s'') = []))"
proof (intro conjI impI allI)
  let ?s = "s\<lparr>pending_reads := before @ after\<rparr>"
  have ok: "reads_ok s" by (rule reachable_reads_ok [OF assms(1)])
  have arms: "arms op ?s (r, s')"
    using on_read_arms [of op ?s mp u outcome] assms(3) by (simp add: complete_read_def)
  with assms(4) have pending: "pending_reads s' = before @ after" by (simp add: arms_def)
  then show "pending_reads s' = before @ after" .
  show "filter (\<lambda>op. op \<noteq> Read_Handshake) (before @ after) = []" if "op \<noteq> Read_Handshake"
    using ok assms(2) that by (simp add: reads_ok_def loop_reads_def)
  fix s''
  assume last: "filter (\<lambda>op. op \<noteq> Read_Handshake) (before @ after) = []"
    and later: "(session_step mp u)\<^sup>*\<^sup>* s' s''"
  have "satisfied (m_handshake s')"
    using arms ok assms(2) by (cases "op = Read_Handshake") (simp_all add: arms_def reads_ok_def loop_reads_def)
  with last pending have "loop_ended s'" by (simp add: loop_ended_def loop_reads_def)
  with later have "loop_ended s''"
    by (induction rule: rtranclp_induct) (simp_all add: step_loop_ended)
  then show "filter (\<lambda>op. op \<noteq> Read_Handshake) (pending_reads s'') = []"
    by (simp add: loop_ended_def loop_reads_def)
qed

text \<open>
  The application has called \<open>start\<close> twice, and the second reply is outstanding when a message
  arrives that no handler takes.
\<close>

theorem failed_read_ends_loop_witness:
  "let mp = scripted [ARRAY [POSITIVE_INTEGER 16]];
       s = after_run mp silent_user
             [Do_Start, Do_Read (Read_Ok [0x7F, 0xF2, 0, 0]), Do_Start,
              Do_Read_At 0 (Read_Ok [0, 0, 0, 1])];
       s' = snd (complete_read mp silent_user (Read_Ok [0]) (s\<lparr>pending_reads := [Read_Body, Read_Handshake]\<rparr>))
   in pending_reads s = [Read_Handshake, Read_Body] \<and> pending_reads s' = [Read_Handshake] \<and>
      (\<forall>s''. \<not> (session_step mp silent_user)\<^sup>*\<^sup>* s' s'' \<or> filter (\<lambda>op. op \<noteq> Read_Handshake) (pending_reads s'') = [])"
  unfolding Let_def
proof (intro conjI)
  let ?mp = "scripted [ARRAY [POSITIVE_INTEGER 16]]"
  let ?ms = "[Do_Start, Do_Read (Read_Ok [0x7F, 0xF2, 0, 0]), Do_Start,
              Do_Read_At 0 (Read_Ok [0, 0, 0, 1])]"
  let ?s = "after_run ?mp silent_user ?ms"
  let ?done = "complete_read ?mp silent_user (Read_Ok [0]) (?s\<lparr>pending_reads := [Read_Body, Read_Handshake]\<rparr>)"
  show reads: "pending_reads ?s = [Read_Handshake, Read_Body]" by code_simp
  have "enabled ?mp silent_user ?ms" by code_simp
  then have reach: "reachable ?mp silent_user ?s" by (rule after_run_reachable)
  have fails: "fst ?done \<noteq> Ok ()" by code_simp
  note ended = failed_read_ends_loop [OF reach, where before = "[Read_Handshake]" and op = Read_Body
      and after = "[]" and outcome = "Read_Ok [0]" and r = "fst ?done" and s' = "snd ?done"]
  show "pending_reads (snd ?done) = [Read_Handshake]"
    using ended reads fails by simp
  show "\<forall>s''. \<not> (session_step ?mp silent_user)\<^sup>*\<^sup>* (snd ?done) s'' \<or>
      filter (\<lambda>op. op \<noteq> Read_Handshake) (pending_reads s'') = []"
    using ended reads fails by simp
qed

end
