(* ===== verification/Session_Safety.thy ===== *)
theory Session_Safety
  imports Session_Invariants
begin

text \<open>
  Invariants of all reachable sessions that concern individual fields, each an interpretation of
  \<open>session_fields\<close>: what has been written is a sequence of complete client messages (up to a
  last one cut off by a failing stream), and how the stop, join and goodbye flags, the promises
  and the streams go together.
\<close>

section \<open>What is on the wire\<close>

text \<open>Writing \<open>bs\<close> turns one stream into another: all of it, or a part and the stream is closed.\<close>

definition writes :: "byte list \<Rightarrow> ostream \<Rightarrow> ostream \<Rightarrow> bool" where
  "writes bs os os' \<longleftrightarrow>
     (fail_after os = Some 0 \<longrightarrow> written os' = written os \<and> fail_after os' = Some 0) \<and>
     (\<exists>k. written os' = written os @ take k bs \<and> (length bs \<le> k \<or> fail_after os' = Some 0))"

lemma writes_asio: "bs \<noteq> [] \<Longrightarrow> writes bs os (snd (asio_write bs os))"
proof (cases "fail_after os")
  case None
  then show ?thesis by (simp add: writes_def) (rule exI [of _ "length bs"], simp)
next
  case (Some n)
  assume "bs \<noteq> []"
  with Some show ?thesis
    by (auto simp: writes_def asio_write_def intro: exI [of _ n] exI [of _ "length bs"])
qed

lemma asio_write_pair:
  "p \<noteq> [] \<Longrightarrow>
   writes (p @ d) os
     (case asio_write p os of (Ok _, os1) \<Rightarrow> snd (asio_write d os1) | (_, os1) \<Rightarrow> os1)"
proof (cases "fail_after os")
  case None
  then show ?thesis by (simp add: writes_def) (rule exI [of _ "length p + length d"], simp)
next
  case (Some n)
  assume p: "p \<noteq> []"
  show ?thesis
  proof (cases "length p \<le> n")
    case True
    with p have "0 < n" by (cases p) auto
    with Some True show ?thesis
      by (auto simp: writes_def asio_write_def intro: exI [of _ n] exI [of _ "length p + length d"])
  next
    case False
    with Some p show ?thesis
      by (auto simp: writes_def asio_write_def intro!: exI [of _ n])
  qed
qed

lemma length_prefix_nonempty [simp]: "length_prefix bs \<noteq> []"
  by (simp add: length_prefix_def htonl_bytes_def)

lemma send_writes:
  "\<not> m_stopped s \<Longrightarrow> writes (frame mp b) (m_out s) (m_out (snd (send mp b s)))"
  using asio_write_pair [of "length_prefix (encode mp b)" "encode mp b" "m_out s"]
  by (auto simp: send_def action_defs on_out_def frame_def split: prod.splits result.splits)

definition chunk :: "msgpack \<Rightarrow> byte list \<Rightarrow> bool" where
  "chunk mp c \<longleftrightarrow> c = handshake_request \<or> (\<exists>b. client_message b \<and> c = frame mp b)"

definition wire_ok :: "msgpack \<Rightarrow> ostream \<Rightarrow> bool" where
  "wire_ok mp os \<longleftrightarrow>
     (\<exists>cs. list_all (chunk mp) cs \<and>
        (written os = concat cs \<or>
         fail_after os = Some 0 \<and> (\<exists>k. written os = take k (concat cs))))"

lemma wire_ok_writes:
  assumes "wire_ok mp os" and "chunk mp c" and w: "writes c os os'"
  shows "wire_ok mp os'"
proof -
  obtain cs where cs: "list_all (chunk mp) cs" and
    out: "written os = concat cs \<or> fail_after os = Some 0 \<and> (\<exists>k. written os = take k (concat cs))"
    using assms(1) by (auto simp: wire_ok_def)
  from out show ?thesis
  proof
    assume full: "written os = concat cs"
    obtain k where k: "written os' = written os @ take k c" "length c \<le> k \<or> fail_after os' = Some 0"
      using w by (auto simp: writes_def)
    have "list_all (chunk mp) (cs @ [c])" using cs assms(2) by simp
    moreover have "written os' = concat (cs @ [c]) \<or> fail_after os' = Some 0 \<and>
        (\<exists>j. written os' = take j (concat (cs @ [c])))"
    proof (cases "length c \<le> k")
      case True
      with k full show ?thesis by simp
    next
      case False
      with k full have "written os' = take (length (concat cs) + k) (concat (cs @ [c]))" by simp
      with False k(2) show ?thesis by blast
    qed
    ultimately show ?thesis by (auto simp only: wire_ok_def)
  next
    assume closed: "fail_after os = Some 0 \<and> (\<exists>k. written os = take k (concat cs))"
    with w have "written os' = written os \<and> fail_after os' = Some 0" by (simp add: writes_def)
    with closed cs show ?thesis by (auto simp: wire_ok_def)
  qed
qed

lemma wire_ok_close: "wire_ok mp os \<Longrightarrow> wire_ok mp (close_out os)"
  by (auto simp: wire_ok_def close_out_def)

lemma wire_ok_send:
  assumes "client_message b" and "wire_ok mp (m_out s)"
  shows "wire_ok mp (m_out (snd (send mp b s)))"
proof (cases "m_stopped s")
  case False
  then show ?thesis
    using wire_ok_writes [OF assms(2) _ send_writes] assms(1) by (auto simp: chunk_def)
qed (simp add: assms)

lemma wire_ok_init: "wire_ok mp \<lparr>written = [], fail_after = f\<rparr>"
  by (simp add: wire_ok_def) (rule exI [of _ "[]"], simp)

lemma wire_ok_start: "wire_ok mp (m_out s) \<Longrightarrow> wire_ok mp (m_out (snd (start s)))"
proof -
  obtain r os where w: "asio_write handshake_request (m_out s) = (r, os)" by fastforce
  assume "wire_ok mp (m_out s)"
  moreover have "writes handshake_request (m_out s) os"
    using writes_asio [of handshake_request "m_out s"] w by (simp add: handshake_request_def)
  ultimately have "wire_ok mp os"
    using wire_ok_writes [of mp "m_out s" handshake_request os] by (simp add: chunk_def)
  with w show ?thesis
    by (cases r)
      (simp_all add: start_def action_defs on_out_def on_handshake_def get_future_def)
qed

interpretation wire: session_fields mp "\<lambda>s. wire_ok mp (m_out s)" for mp
proof unfold_locales
  show "client_message b \<Longrightarrow> keeps (\<lambda>s. client_queue s \<and> wire_ok mp (m_out s)) (leave_task mp b)" for b
    by (simp add: keeps_def leave_task_def wire_ok_send client_queue_def)
qed (simp_all add: keeps_def stop_task_def on_promise_defs action_defs wire_ok_send wire_ok_close
       wire_ok_start wire_ok_init new_session_def alloc_invocation_def split: prod.splits,
     simp_all add: client_queue_def alloc_invocation_def)

section \<open>Flags, promises and streams\<close>

text \<open>
  The handlers are sorted by subscription id.  A stopped session has its stop promise fulfilled
  and both streams closed; the stop promise of a live session that is not stopped is open.  A session that has a session id, or has said goodbye, was joined.
\<close>

definition fields_ok :: "session \<Rightarrow> bool" where
  "fields_ok s \<longleftrightarrow>
     mm_sorted (m_subscription_handlers s) \<and>
     (m_stopped s \<longleftrightarrow> shared_state (m_session_stop s) = Has_Value ()) \<and>
     (alive s \<and> \<not> m_stopped s \<longrightarrow> \<not> satisfied (m_session_stop s)) \<and>
     (m_stopped s \<longrightarrow> fail_after (m_out s) = Some 0 \<and> \<not> m_in_open s) \<and>
     (m_session_id s \<noteq> 0 \<or> m_goodbye_sent s \<longrightarrow> satisfied (m_session_join s))"

lemma fields_ok_send: "fields_ok s \<Longrightarrow> fields_ok (snd (send mp b s))"
  by (auto simp: fields_ok_def send_closed)

lemma fields_ok_start: "fields_ok s \<Longrightarrow> fields_ok (snd (start s))"
proof -
  obtain r os where w: "asio_write handshake_request (m_out s) = (r, os)" by fastforce
  assume ok: "fields_ok s"
  have "m_stopped s \<Longrightarrow> fail_after os = Some 0"
    using ok w asio_write_closed [of "m_out s" handshake_request]
    by (auto simp: fields_ok_def handshake_request_def)
  with ok w show ?thesis
    by (cases r)
      (simp_all add: fields_ok_def start_def action_defs on_out_def on_handshake_def get_future_def)
qed

lemma fields_ok_destroy: "fields_ok s \<Longrightarrow> fields_ok (destroy_session s)"
  by (simp add: fields_ok_def destroy_session_def)

interpretation flags: session_fields mp fields_ok for mp
proof unfold_locales
  show "keeps (\<lambda>s. client_queue s \<and> fields_ok s) (leave_task mp b)" for b
    by (simp add: keeps_def leave_task_def fields_ok_def client_queue_def send_closed)
  show "keeps (\<lambda>s. client_queue s \<and> fields_ok s) stop_task"
    by (simp add: keeps_def stop_task_def on_stop_def close_out_def fields_ok_def client_queue_def
        set_value_cases)
qed (simp_all add: keeps_def fields_ok_send fields_ok_start fields_ok_destroy client_queue_def alloc_invocation_def,
     simp_all add: fields_ok_def on_promise_defs action_defs set_value_cases get_future_def
       new_session_def mm_sorted_insert alloc_invocation_def split: prod.splits)

section \<open>A stopped session\<close>

text \<open>Once the output stream is closed it stays as it is, whatever the session does.\<close>

definition closed_at :: "ostream \<Rightarrow> session \<Rightarrow> bool" where
  "closed_at os s \<longleftrightarrow> m_stopped s \<and> m_out s = os \<and> fail_after os = Some 0"

lemma closed_at_start: "closed_at os s \<Longrightarrow> closed_at os (snd (start s))"
  by (simp add: closed_at_def start_def action_defs on_out_def asio_write_closed handshake_request_def)

interpretation closed: step_fields mp "closed_at os" for mp os
proof unfold_locales
  show "keeps (\<lambda>s. client_queue s \<and> closed_at os s) (leave_task mp b)" for b
    by (simp add: keeps_def leave_task_def closed_at_def client_queue_def)
  show "keeps (\<lambda>s. client_queue s \<and> closed_at os s) stop_task"
    by (simp add: keeps_def stop_task_def closed_at_def client_queue_def)
qed (simp_all add: keeps_def closed_at_start client_queue_def alloc_invocation_def,
     simp_all add: closed_at_def on_promise_defs action_defs set_value_cases get_future_def
       alloc_invocation_def
       split: prod.splits)

section \<open>An answered invocation\<close>

text \<open>An invocation that has been answered never becomes sendable again.\<close>

definition answered_at :: "nat \<Rightarrow> wamp_invocation \<Rightarrow> session \<Rightarrow> bool" where
  "answered_at p iv s \<longleftrightarrow>
     p < heap_next s \<and> heap_invocations s p = Some iv \<and> inv_send_result_fn iv = None"

interpretation answered: step_fields mp "answered_at p iv" for mp p iv
proof unfold_locales
  show "keeps (\<lambda>s. client_queue s \<and> answered_at p iv s) (leave_task mp b)" for b
    by (simp add: keeps_def leave_task_def answered_at_def client_queue_def)
  show "keeps (\<lambda>s. client_queue s \<and> answered_at p iv s) stop_task"
    by (simp add: keeps_def stop_task_def on_stop_def answered_at_def client_queue_def
        split: prod.splits)
  show "answered_at p iv (snd (start s))" if "answered_at p iv s" for s
    using that by (simp add: answered_at_def start_def action_defs on_out_def on_handshake_def
        get_future_def split: prod.splits result.splits)
qed (simp_all add: keeps_def client_queue_def alloc_invocation_def,
     auto simp: answered_at_def on_promise_defs action_defs set_value_cases get_future_def
       alloc_invocation_def split: prod.splits)

end
