(* ===== verification/Session_Handlers.thy ===== *)
theory Session_Handlers
  imports Framing Session_Safety
begin

text \<open>
  What each message of the router does, in any reachable session: \<open>got_message\<close> on a well-formed
  message of each kind, and on replies to requests that are not pending.
\<close>

lemma payload_ok_iff:
  "payload_ok xs \<longleftrightarrow> xs = [] \<or> (\<exists>a. xs = [ARRAY a]) \<or> (\<exists>a k. xs = [ARRAY a, MAP k])"
  by (cases xs rule: payload_ok.cases) auto

lemma reachable_requests_ok: "reachable mp u s \<Longrightarrow> requests_ok s"
  by (rule requests.reachable_P)

lemma reachable_sorted: "reachable mp u s \<Longrightarrow> mm_sorted (m_subscription_handlers s)"
  using flags.reachable_P [of mp u s] by (simp add: fields_ok_def)

text \<open>Dispatch on the message code.\<close>

lemma got_message_code:
  assumes "msgpack_ok mp" and "uint w < 2 ^ 31" and "message_type_of (uint w) = Some t"
  shows "got_message mp u (ARRAY (POSITIVE_INTEGER w # xs)) z =
    process_message mp u t (POSITIVE_INTEGER w # xs) z"
  using assms by (auto simp: got_message_def receive_defs action_defs)

section \<open>Subscriber\<close>

text \<open>SUBSCRIBED for a pending request: the handler is entered under the subscription id, behind
  the handlers subscribed under that id earlier; the future receives the subscription and the
  request leaves its table.  This holds in every reachable session: the message never fails.\<close>

lemma subscribed_effect:
  assumes "msgpack_ok mp" and "reachable mp u s" and "m_subscribe_requests s r = Some p"
  shows "\<exists>req. heap_subscribes s p = Some req \<and>
    got_message mp u (ARRAY [POSITIVE_INTEGER 33, POSITIVE_INTEGER r, POSITIVE_INTEGER i]) z s =
      (Ok (), s\<lparr>m_subscription_handlers :=
                  mm_insert i (subscribe_handler req) (m_subscription_handlers s),
                heap_subscribes := (heap_subscribes s)(p \<mapsto> req\<lparr>subscribe_response :=
                  (subscribe_response req)\<lparr>shared_state := Has_Value (new_subscription i)\<rparr>\<rparr>),
                m_subscribe_requests := (m_subscribe_requests s)(r := None)\<rparr>) \<and>
    (\<forall>j. mm_values j (mm_insert i (subscribe_handler req) (m_subscription_handlers s)) =
       mm_values j (m_subscription_handlers s) @ (if j = i then [subscribe_handler req] else []))"
proof -
  obtain req where "heap_subscribes s p = Some req" "\<not> satisfied (subscribe_response req)"
    by (rule pending_subscribe [OF reachable_requests_ok [OF assms(2)] assms(3)])
  with assms(1,3) reachable_sorted [OF assms(2)] show ?thesis
    by (cases s) (simp add: got_message_code process_subscribed_def receive_defs action_defs
        respond_subscribe_def set_response_cases map_erase_def mm_values_insert)
qed

text \<open>An event, as the router may send it.\<close>

definition event_fields :: "u64 \<Rightarrow> u64 \<Rightarrow> (msgobj \<times> msgobj) list \<Rightarrow> msgobj list \<Rightarrow> wamp_message" where
  "event_fields i pub d payload =
     [POSITIVE_INTEGER 36, POSITIVE_INTEGER i, POSITIVE_INTEGER pub, MAP d] @ payload"

lemma bounds_from_start:
  assumes "mm_sorted m"
  shows "mm_lower_bound k m \<noteq> [] \<and> mm_lower_bound k m \<noteq> mm_upper_bound k m \<longleftrightarrow> mm_values k m \<noteq> []"
  using assms
proof (induction m)
  case (Cons p m)
  obtain j w where p: "p = (j, w)" by (cases p)
  show ?case
  proof (cases "j = k")
    case True
    then show ?thesis
      using p mm_length_upper_bound [of k m] by (auto dest: arg_cong [of _ _ length])
  next
    case False
    show ?thesis
    proof (cases "j < k")
      case True
      with Cons p show ?thesis by auto
    next
      case greater: False
      with Cons.prems p \<open>j \<noteq> k\<close> have "\<forall>q \<in> set ((j, w) # m). k < fst q" by force
      then have "mm_upper_bound k ((j, w) # m) = (j, w) # m" "mm_values k ((j, w) # m) = []"
        by (rule mm_upper_bound_all_greater, intro mm_values_not_in, force)
      with p greater show ?thesis by simp
    qed
  qed
qed simp

lemma received_event_fields:
  assumes "payload_ok payload"
  shows "ev_arguments (received_event (event_fields i pub d payload)) =
      (case payload of [] \<Rightarrow> ARRAY [] | a # _ \<Rightarrow> a)"
    and "ev_kw_arguments (received_event (event_fields i pub d payload)) =
      (case payload of a # k # _ \<Rightarrow> k | _ \<Rightarrow> MAP [])"
  using assms by (auto simp: received_event_def event_fields_def event_set_arguments_def
      event_set_kw_arguments_def payload_ok_iff nth_Cons' new_event_def EMPTY_ARGUMENTS_def
      EMPTY_KW_ARGUMENTS_def)

lemma event_dispatch:
  assumes "msgpack_ok mp" and "reachable mp u s" and "payload_ok payload"
  shows "got_message mp u (ARRAY (event_fields i pub d payload)) z s =
    try_catch (trigger_handlers mp u (mm_values i (m_subscription_handlers s))
        (received_event (event_fields i pub d payload))) (\<lambda>_. ret ()) s"
proof -
  note sorted = reachable_sorted [OF assms(2)]
  have "map snd (mm_between (mm_lower_bound i (m_subscription_handlers s))
      (mm_upper_bound i (m_subscription_handlers s))) = mm_values i (m_subscription_handlers s)"
    using mm_range_eq_values [OF sorted] by (simp add: mm_range_def)
  with assms(1,3) bounds_from_start [OF sorted, of i] show ?thesis
    by (cases "mm_values i (m_subscription_handlers s) = []")
      (auto simp: got_message_code process_event_def receive_defs action_defs event_fields_def
        payload_ok_iff nth_Cons')
qed

text \<open>A callback's exceptions are values of its run: it never leaves the defined behaviour.\<close>

lemma run_prog_defined: "fst (run_prog mp g s) \<noteq> Undefined_Behaviour"
  by (induction g arbitrary: s) (simp_all add: action_defs split: prod.splits)

text \<open>
  The loop over the handlers, as the sequence of states between them: the first \<open>k\<close> handlers return,
  and the next one, if there is one, throws.
\<close>

lemma trigger_handlers_trace:
  "\<exists>\<sigma> k. \<sigma> 0 = s \<and> k \<le> length hs \<and>
     (\<forall>j < k. run_prog mp (on_event u (hs ! j) ev) (\<sigma> j) = (Ok (), \<sigma> (Suc j))) \<and>
     (if k = length hs then trigger_handlers mp u hs ev s = (Ok (), \<sigma> k)
      else \<exists>e s'. run_prog mp (on_event u (hs ! k) ev) (\<sigma> k) = (Throw e, s') \<and>
                  trigger_handlers mp u hs ev s = (Throw e, s'))"
proof (induction hs arbitrary: s)
  case Nil
  show ?case by (rule exI [of _ "\<lambda>_. s"], rule exI [of _ 0]) (simp add: action_defs)
next
  case (Cons h hs)
  obtain r s1 where first: "run_prog mp (on_event u h ev) s = (r, s1)" by fastforce
  show ?case
  proof (cases r)
    case (Ok x)
    obtain \<sigma> k where \<sigma>: "\<sigma> 0 = s1" "k \<le> length hs"
      "\<forall>j < k. run_prog mp (on_event u (hs ! j) ev) (\<sigma> j) = (Ok (), \<sigma> (Suc j))"
      "if k = length hs then trigger_handlers mp u hs ev s1 = (Ok (), \<sigma> k)
       else \<exists>e s'. run_prog mp (on_event u (hs ! k) ev) (\<sigma> k) = (Throw e, s') \<and>
                  trigger_handlers mp u hs ev s1 = (Throw e, s')"
      using Cons.IH [of s1] by blast
    have "run_prog mp (on_event u ((h # hs) ! j) ev) (case_nat s \<sigma> j) = (Ok (), case_nat s \<sigma> (Suc j))"
      if "j < Suc k" for j
      using that first Ok \<sigma>(1,3) by (cases j) simp_all
    with \<sigma>(2,4) first Ok show ?thesis
      by (intro exI [of _ "case_nat s \<sigma>"] exI [of _ "Suc k"]) (simp add: action_defs)
  next
    case (Throw e)
    with first show ?thesis
      by (intro exI [of _ "\<lambda>_. s"] exI [of _ 0]) (simp add: action_defs)
  next
    case Undefined_Behaviour
    with first run_prog_defined [of mp "on_event u h ev" s] show ?thesis by simp
  qed
qed

text \<open>C8: EVENT calls the handlers subscribed under its subscription id, one after the other in the
  order in which they were subscribed, with the event's payload: each runs once, in the state its
  predecessor left, until all have returned or one throws.  The exception is contained: the state
  in which that handler threw stays, the handlers behind it are skipped, and the message counts as
  handled.  An event for an id without handlers is ignored.\<close>

theorem event_effect:
  assumes "msgpack_ok mp" and "reachable mp u s" and "payload_ok payload"
  shows "let ev = received_event (event_fields i pub d payload);
        hs = mm_values i (m_subscription_handlers s);
        run = \<lambda>k. run_prog mp (on_event u (hs ! k) ev);
        received = got_message mp u (ARRAY (event_fields i pub d payload)) z s
    in ev_arguments ev = (case payload of [] \<Rightarrow> ARRAY [] | a # _ \<Rightarrow> a) \<and>
       ev_kw_arguments ev = (case payload of a # k # _ \<Rightarrow> k | _ \<Rightarrow> MAP []) \<and>
       (\<exists>\<sigma> k. \<sigma> 0 = s \<and> k \<le> length hs \<and> (\<forall>j < k. run j (\<sigma> j) = (Ok (), \<sigma> (Suc j))) \<and>
          (if k = length hs then received = (Ok (), \<sigma> k)
           else \<exists>e s'. run k (\<sigma> k) = (Throw e, s') \<and> received = (Ok (), s')))"
proof -
  let ?ev = "received_event (event_fields i pub d payload)"
  let ?hs = "mm_values i (m_subscription_handlers s)"
  obtain \<sigma> k where \<sigma>: "\<sigma> 0 = s" "k \<le> length ?hs"
    "\<forall>j < k. run_prog mp (on_event u (?hs ! j) ?ev) (\<sigma> j) = (Ok (), \<sigma> (Suc j))"
    "if k = length ?hs then trigger_handlers mp u ?hs ?ev s = (Ok (), \<sigma> k)
     else \<exists>e s'. run_prog mp (on_event u (?hs ! k) ?ev) (\<sigma> k) = (Throw e, s') \<and>
                trigger_handlers mp u ?hs ?ev s = (Throw e, s')"
    using trigger_handlers_trace [of s ?hs mp u ?ev] by blast
  then have "if k = length ?hs then got_message mp u (ARRAY (event_fields i pub d payload)) z s = (Ok (), \<sigma> k)
     else \<exists>e s'. run_prog mp (on_event u (?hs ! k) ?ev) (\<sigma> k) = (Throw e, s') \<and>
                got_message mp u (ARRAY (event_fields i pub d payload)) z s = (Ok (), s')"
    by (auto simp: event_dispatch [OF assms] action_defs)
  with \<sigma>(1-3) show ?thesis
    unfolding Let_def by (intro conjI received_event_fields [OF assms(3)]) blast
qed

text \<open>Two handlers under one id: the first publishes, the second throws.\<close>

definition handlers_mp :: msgpack where
  "handlers_mp = scripted
     [welcome_object,
      ARRAY [POSITIVE_INTEGER 33, POSITIVE_INTEGER 1, POSITIVE_INTEGER 9],
      ARRAY [POSITIVE_INTEGER 33, POSITIVE_INTEGER 2, POSITIVE_INTEGER 9]]"

definition handlers_user :: user where
  "handlers_user =
     \<lparr>on_event = \<lambda>h ev. if h = 5 then Api_Then (Api_Publish ''seen'') (\<lambda>_. Done)
                       else Raise (Runtime_Error ''handler''),
      on_invoke = \<lambda>_ _ _. Done\<rparr>"

definition handlers_session :: session where
  "handlers_session = after_run handlers_mp handlers_user
     (join_moves @ Do_Api True (Api_Subscribe ''topic'' 5) # deliver 1 @
        Do_Api True (Api_Subscribe ''topic'' 6) # deliver 2)"

theorem event_effect_witness:
  "mm_values 9 (m_subscription_handlers handlers_session) = [5, 6] \<and>
   got_message handlers_mp handlers_user (ARRAY (event_fields 9 1 [] [ARRAY [NIL]])) 0 handlers_session =
     (Ok (), snd (run_api handlers_mp True (Api_Publish ''seen'') handlers_session))"
proof
  show hs: "mm_values 9 (m_subscription_handlers handlers_session) = [5, 6]" by code_simp
  have "enabled handlers_mp handlers_user (join_moves @ Do_Api True (Api_Subscribe ''topic'' 5) # deliver 1 @
      Do_Api True (Api_Subscribe ''topic'' 6) # deliver 2)" by code_simp
  then have reach: "reachable handlers_mp handlers_user handlers_session"
    unfolding handlers_session_def by (rule after_run_reachable)
  have ok: "msgpack_ok handlers_mp" by (simp add: handlers_mp_def)
  let ?run = "\<lambda>h. run_prog handlers_mp (on_event handlers_user h
      (received_event (event_fields 9 1 [] [ARRAY [NIL]])))"
  let ?received = "got_message handlers_mp handlers_user
      (ARRAY (event_fields 9 1 [] [ARRAY [NIL]])) 0 handlers_session"
  let ?published = "snd (run_api handlers_mp True (Api_Publish ''seen'') handlers_session)"
  have first: "?run 5 handlers_session = (Ok (), ?published)" and second: "\<And>t. fst (?run 6 t) \<noteq> Ok ()"
    "\<And>t. snd (?run 6 t) = t"
    by (simp_all add: handlers_user_def action_defs split: prod.split)
  obtain \<sigma> k where \<sigma>: "\<sigma> 0 = handlers_session" "k \<le> Suc (Suc 0)"
    "\<forall>j < k. ?run ([5, 6] ! j) (\<sigma> j) = (Ok (), \<sigma> (Suc j))"
    "if k = Suc (Suc 0) then ?received = (Ok (), \<sigma> k)
     else \<exists>e s'. ?run ([5, 6] ! k) (\<sigma> k) = (Throw e, s') \<and> ?received = (Ok (), s')"
    using event_effect [OF ok reach, of "[ARRAY [NIL]]" 9 1 "[]" 0]
    unfolding Let_def hs by auto
  consider "k = 0" | "k = 1" | "k = 2" using \<sigma>(2) by linarith
  then show "?received = (Ok (), ?published)"
  proof cases
    case 2
    with \<sigma> first have "\<sigma> 1 = ?published" by simp
    with 2 \<sigma>(4) second(2) [of "\<sigma> 1"] show ?thesis by auto
  next
    case 3
    with \<sigma>(3) [THEN spec, of 1] have "?run 6 (\<sigma> 1) = (Ok (), \<sigma> 2)" by (simp add: numeral_2_eq_2)
    with second(1) [of "\<sigma> 1"] show ?thesis by simp
  qed (use \<sigma> first in simp)
qed

text \<open>UNSUBSCRIBED for a pending request resolves its future and removes the request; the
  handlers subscribed under the id stay where they are.\<close>

lemma unsubscribed_effect:
  assumes "msgpack_ok mp" and "reachable mp u s" and "m_unsubscribe_requests s r = Some p"
  shows "\<exists>req. heap_unsubscribes s p = Some req \<and>
    got_message mp u (ARRAY [POSITIVE_INTEGER 35, POSITIVE_INTEGER r]) z s =
      (Ok (), s\<lparr>heap_unsubscribes := (heap_unsubscribes s)(p \<mapsto> req\<lparr>unsubscribe_response :=
                  (unsubscribe_response req)\<lparr>shared_state := Has_Value ()\<rparr>\<rparr>),
                m_unsubscribe_requests := (m_unsubscribe_requests s)(r := None)\<rparr>)"
proof -
  obtain req where "heap_unsubscribes s p = Some req" "\<not> satisfied (unsubscribe_response req)"
    by (rule pending_unsubscribe [OF reachable_requests_ok [OF assms(2)] assms(3)])
  with assms(1,3) show ?thesis
    by (cases s) (simp add: got_message_code process_unsubscribed_def receive_defs action_defs
        respond_unsubscribe_def set_response_cases map_erase_def)
qed

text \<open>REGISTERED for an entered request installs the procedure under the registration id and
  resolves the future; the entry stays, and a repeated REGISTERED throws after it has installed
  the procedure again.\<close>

lemma registered_effect:
  assumes "msgpack_ok mp" and "reachable mp u s" and "m_register_requests s r = Some p"
  shows "\<exists>req. heap_registers s p = Some req \<and>
    got_message mp u (ARRAY [POSITIVE_INTEGER 65, POSITIVE_INTEGER r, POSITIVE_INTEGER i]) z s =
      (let s1 = s\<lparr>m_procedures := (m_procedures s)(i \<mapsto> register_procedure req)\<rparr>
       in if satisfied (register_response req)
          then (Throw (Library_Error Promise_Already_Satisfied), s1)
          else (Ok (), s1\<lparr>heap_registers := (heap_registers s)(p \<mapsto> req\<lparr>register_response :=
                 (register_response req)\<lparr>shared_state := Has_Value (new_registration i)\<rparr>\<rparr>)\<rparr>))"
proof -
  obtain req where "heap_registers s p = Some req"
    by (rule pending_register [OF reachable_requests_ok [OF assms(2)] assms(3)])
  moreover from this have "(heap_registers s)(p \<mapsto> req) = heap_registers s" by auto
  ultimately show ?thesis
    using assms(1,3)
    by (cases s) (simp add: got_message_code process_registered_def receive_defs action_defs
        respond_register_def set_response_cases)
qed

text \<open>C7: The router's replies to subscribe, unsubscribe and register requests.  SUBSCRIBED for a pending
  request enters its handler under the subscription id, behind the handlers subscribed under that id
  earlier; UNSUBSCRIBED for a pending request leaves all handlers where they are.  Both resolve the
  future and remove the request from its table, in every reachable session: they never fail.
  REGISTERED installs the procedure under the registration id and resolves the future, but the entry
  stays, and a repeated REGISTERED throws after it has installed the procedure again.\<close>

theorem request_replies:
  assumes "msgpack_ok mp" and "reachable mp u s"
  shows "(\<forall>p. m_subscribe_requests s r = Some p \<longrightarrow> (\<exists>req. heap_subscribes s p = Some req \<and>
      got_message mp u (ARRAY [POSITIVE_INTEGER 33, POSITIVE_INTEGER r, POSITIVE_INTEGER i]) z s =
        (Ok (), s\<lparr>m_subscription_handlers :=
                    mm_insert i (subscribe_handler req) (m_subscription_handlers s),
                  heap_subscribes := (heap_subscribes s)(p \<mapsto> req\<lparr>subscribe_response :=
                    (subscribe_response req)\<lparr>shared_state := Has_Value (new_subscription i)\<rparr>\<rparr>),
                  m_subscribe_requests := (m_subscribe_requests s)(r := None)\<rparr>) \<and>
      (\<forall>j. mm_values j (mm_insert i (subscribe_handler req) (m_subscription_handlers s)) =
         mm_values j (m_subscription_handlers s) @ (if j = i then [subscribe_handler req] else [])))) \<and>
    (\<forall>p. m_unsubscribe_requests s r = Some p \<longrightarrow> (\<exists>req. heap_unsubscribes s p = Some req \<and>
      got_message mp u (ARRAY [POSITIVE_INTEGER 35, POSITIVE_INTEGER r]) z s =
        (Ok (), s\<lparr>heap_unsubscribes := (heap_unsubscribes s)(p \<mapsto> req\<lparr>unsubscribe_response :=
                    (unsubscribe_response req)\<lparr>shared_state := Has_Value ()\<rparr>\<rparr>),
                  m_unsubscribe_requests := (m_unsubscribe_requests s)(r := None)\<rparr>))) \<and>
    (\<forall>p. m_register_requests s r = Some p \<longrightarrow> (\<exists>req. heap_registers s p = Some req \<and>
      got_message mp u (ARRAY [POSITIVE_INTEGER 65, POSITIVE_INTEGER r, POSITIVE_INTEGER i]) z s =
        (let s1 = s\<lparr>m_procedures := (m_procedures s)(i \<mapsto> register_procedure req)\<rparr>
         in if satisfied (register_response req)
            then (Throw (Library_Error Promise_Already_Satisfied), s1)
            else (Ok (), s1\<lparr>heap_registers := (heap_registers s)(p \<mapsto> req\<lparr>register_response :=
                   (register_response req)\<lparr>shared_state := Has_Value (new_registration i)\<rparr>\<rparr>)\<rparr>))))"
  by (intro conjI allI impI subscribed_effect unsubscribed_effect registered_effect assms)

theorem request_replies_witness:
  "fst (got_message demo_mp silent_user
      (ARRAY [POSITIVE_INTEGER 33, POSITIVE_INTEGER 1, POSITIVE_INTEGER 9]) 0
      (demo [Do_Api True (Api_Subscribe ''topic'' 5)])) = Ok () \<and>
   fst (got_message demo_mp silent_user (ARRAY [POSITIVE_INTEGER 35, POSITIVE_INTEGER 1]) 0
      (demo [Do_Api True (Api_Unsubscribe \<lparr>subscription_id = 9\<rparr>)])) = Ok () \<and>
   m_procedures (snd (got_message demo_mp silent_user
      (ARRAY [POSITIVE_INTEGER 65, POSITIVE_INTEGER 1, POSITIVE_INTEGER 9]) 0
      (demo [Do_Api True (Api_Provide ''add'' 3 [])]))) 9 \<noteq> None"
proof (intro conjI)
  let ?ms = "[Do_Api True (Api_Subscribe ''topic'' 5)]"
  have "enabled demo_mp silent_user (join_moves @ ?ms)" by code_simp
  then have reach: "reachable demo_mp silent_user (demo ?ms)" by (rule demo_reachable)
  have "m_subscribe_requests (demo ?ms) 1 = Some 0" by code_simp
  from request_replies [OF demo_mp_ok(1) reach, THEN conjunct1, rule_format, OF this, of 9 0]
  show "fst (got_message demo_mp silent_user
      (ARRAY [POSITIVE_INTEGER 33, POSITIVE_INTEGER 1, POSITIVE_INTEGER 9]) 0 (demo ?ms)) = Ok ()" by auto
next
  let ?ms = "[Do_Api True (Api_Unsubscribe \<lparr>subscription_id = 9\<rparr>)]"
  have "enabled demo_mp silent_user (join_moves @ ?ms)" by code_simp
  then have reach: "reachable demo_mp silent_user (demo ?ms)" by (rule demo_reachable)
  have "m_unsubscribe_requests (demo ?ms) 1 = Some 0" by code_simp
  from request_replies [OF demo_mp_ok(1) reach, THEN conjunct2, THEN conjunct1, rule_format, OF this, of 0]
  show "fst (got_message demo_mp silent_user (ARRAY [POSITIVE_INTEGER 35, POSITIVE_INTEGER 1]) 0
      (demo ?ms)) = Ok ()" by auto
next
  let ?ms = "[Do_Api True (Api_Provide ''add'' 3 [])]"
  have "enabled demo_mp silent_user (join_moves @ ?ms)" by code_simp
  then have reach: "reachable demo_mp silent_user (demo ?ms)" by (rule demo_reachable)
  have "m_register_requests (demo ?ms) 1 = Some 0" by code_simp
  from request_replies [OF demo_mp_ok(1) reach, THEN conjunct2, THEN conjunct2, rule_format, OF this, of 9 0]
  obtain req where "got_message demo_mp silent_user
      (ARRAY [POSITIVE_INTEGER 65, POSITIVE_INTEGER 1, POSITIVE_INTEGER 9]) 0 (demo ?ms) =
      (let s1 = (demo ?ms)\<lparr>m_procedures := (m_procedures (demo ?ms))(9 \<mapsto> register_procedure req)\<rparr>
       in if satisfied (register_response req)
          then (Throw (Library_Error Promise_Already_Satisfied), s1)
          else (Ok (), s1\<lparr>heap_registers := (heap_registers (demo ?ms))(0 \<mapsto> req\<lparr>register_response :=
                 (register_response req)\<lparr>shared_state := Has_Value (new_registration 9)\<rparr>\<rparr>)\<rparr>))"
    by blast
  then show "m_procedures (snd (got_message demo_mp silent_user
      (ARRAY [POSITIVE_INTEGER 65, POSITIVE_INTEGER 1, POSITIVE_INTEGER 9]) 0 (demo ?ms))) 9 \<noteq> None"
    by (cases "satisfied (register_response req)") (simp_all add: Let_def)
qed

section \<open>Caller\<close>

definition result_fields :: "u64 \<Rightarrow> (msgobj \<times> msgobj) list \<Rightarrow> msgobj list \<Rightarrow> wamp_message" where
  "result_fields r d payload = [POSITIVE_INTEGER 50, POSITIVE_INTEGER r, MAP d] @ payload"

lemma result_fields_shape:
  fixes r :: u64 and d :: "(msgobj \<times> msgobj) list"
  assumes "payload_ok payload"
  defines "m \<equiv> result_fields r d payload"
  shows "(length m \<noteq> 3 \<and> length m \<noteq> 4 \<and> length m \<noteq> 5) = False"
    and "m ! 0 = POSITIVE_INTEGER 50" "m ! Suc 0 = POSITIVE_INTEGER r" "m ! 2 = MAP d"
    and "Suc 0 < length m" "2 < length m"
    and "(3 < length m \<and> \<not> is_array (m ! 3)) = False"
    and "(4 < length m \<and> \<not> is_map (m ! 4)) = False"
  using assms(1) by (auto simp: m_def result_fields_def payload_ok_iff nth_Cons')

lemma call_heap_same: "heap_calls s p = Some c \<Longrightarrow> s\<lparr>heap_calls := (heap_calls s)(p \<mapsto> c)\<rparr> = s"
  by (cases s) auto

lemma result_resolves:
  assumes "msgpack_ok mp" and "m_calls s r = Some p" and "payload_ok payload"
  shows "got_message mp u (ARRAY (result_fields r d payload)) z s =
    resolve_call p (received_result z (result_fields r d payload)) s"
proof -
  have "got_message mp u (ARRAY (result_fields r d payload)) z s =
      process_call_result mp (result_fields r d payload) z s"
    using assms(1) by (simp add: result_fields_def got_message_code)
  also have "\<dots> = resolve_call p (received_result z (result_fields r d payload)) s"
    unfolding process_call_result_def receive_defs
    using assms(1,2)
    by (simp only: result_fields_shape [OF assms(3)] bind_element_at One_nat_def if_False)
      (simp add: bind_act_def lift_result_def with_state_def)
  finally show ?thesis .
qed

text \<open>RESULT for an entered call resolves the call's future with the payload when it is still
  open; the entry stays in the table, so a second RESULT for the same id finds the future
  resolved and ends in an exception, leaving the session as it was.\<close>

lemma result_effect:
  assumes "msgpack_ok mp" and "reachable mp u s" and "m_calls s r = Some p" and "payload_ok payload"
  shows "\<exists>c res. heap_calls s p = Some c \<and>
    obj (cr_arguments res) = (case payload of [] \<Rightarrow> ARRAY [] | a # _ \<Rightarrow> a) \<and>
    obj (cr_kw_arguments res) = (case payload of a # k # _ \<Rightarrow> k | _ \<Rightarrow> MAP []) \<and>
    got_message mp u (ARRAY (result_fields r d payload)) z s =
      (if satisfied (call_promise c) then (Throw (Library_Error Promise_Already_Satisfied), s)
       else (Ok (), s\<lparr>heap_calls := (heap_calls s)(p \<mapsto> c\<lparr>call_promise := (call_promise c)
              \<lparr>shared_state := Has_Value res\<rparr>\<rparr>)\<rparr>))"
proof -
  let ?res = "received_result z (result_fields r d payload)"
  have "obj (cr_arguments ?res) = (case payload of [] \<Rightarrow> ARRAY [] | a # _ \<Rightarrow> a)"
    "obj (cr_kw_arguments ?res) = (case payload of a # k # _ \<Rightarrow> k | _ \<Rightarrow> MAP [])"
    using assms(4)
    by (auto simp: received_result_def result_fields_def call_result_with_zone_def
        call_result_set_arguments_def call_result_set_kw_arguments_def static_arguments_def
        static_kw_arguments_def EMPTY_ARGUMENTS_def EMPTY_KW_ARGUMENTS_def payload_ok_iff nth_Cons'
        Let_def)
  moreover obtain c where "heap_calls s p = Some c"
    by (rule pending_call [OF reachable_requests_ok [OF assms(2)] assms(3)])
  ultimately show ?thesis
    by (intro exI [of _ c] exI [of _ ?res])
      (simp add: result_resolves [OF assms(1,3,4)] resolve_call_def set_response_cases call_heap_same)
qed

definition error_fields ::
    "message_type \<Rightarrow> u64 \<Rightarrow> (msgobj \<times> msgobj) list \<Rightarrow> string \<Rightarrow> msgobj list \<Rightarrow> wamp_message" where
  "error_fields t r d uri payload =
     [POSITIVE_INTEGER 8, POSITIVE_INTEGER (word_of_int (message_code t)), POSITIVE_INTEGER r, MAP d,
      STR_OBJ uri] @ payload"

lemma message_code_word [simp]:
  "uint (word_of_int (message_code t) :: u64) = message_code t" "message_code t < 2147483648"
  by (cases t; simp)+

lemma error_fields_shape:
  fixes t :: message_type and r :: u64 and d :: "(msgobj \<times> msgobj) list" and uri :: string
  assumes "payload_ok payload"
  defines "m \<equiv> error_fields t r d uri payload"
  shows "(length m \<noteq> 5 \<and> length m \<noteq> 6 \<and> length m \<noteq> 7) = False"
    and "m ! 0 = POSITIVE_INTEGER 8" "m ! Suc 0 = POSITIVE_INTEGER (word_of_int (message_code t))"
    and "m ! 2 = POSITIVE_INTEGER r" "m ! 3 = MAP d" "m ! 4 = STR_OBJ uri"
    and "Suc 0 < length m" "2 < length m" "3 < length m" "4 < length m"
    and "(5 < length m \<and> \<not> is_array (m ! 5)) = False"
    and "(6 < length m \<and> \<not> is_map (m ! 6)) = False"
  using assms(1) by (auto simp: m_def error_fields_def payload_ok_iff nth_Cons')

lemma error_dispatch:
  assumes "msgpack_ok mp" and "payload_ok payload" and "t \<in> set error_request_types"
  shows "got_message mp u (ARRAY (error_fields t r d uri payload)) z s =
    (if t = CALL then
       (case m_calls s r of
          Some p \<Rightarrow> reject_call p (Runtime_Error (error_text mp uri (error_fields t r d uri payload))) s
        | None \<Rightarrow> protocol_error ''bogus ERROR message for non-pending CALL request ID'' s)
     else (Ok (), s))"
proof -
  have "got_message mp u (ARRAY (error_fields t r d uri payload)) z s =
      process_error mp (error_fields t r d uri payload) s"
    using assms(1) by (simp add: error_fields_def got_message_code)
  also have "\<dots> = (if t = CALL then
       (case m_calls s r of
          Some p \<Rightarrow> reject_call p (Runtime_Error (error_text mp uri (error_fields t r d uri payload))) s
        | None \<Rightarrow> protocol_error ''bogus ERROR message for non-pending CALL request ID'' s)
     else (Ok (), s))"
    unfolding process_error_def receive_defs Let_def
    using assms(1,3)
    by (simp only: error_fields_shape [OF assms(2)] bind_element_at One_nat_def if_False)
      (simp add: bind_act_def lift_result_def with_state_def ret_def inj_image_mem_iff
        split: option.splits)
  finally show ?thesis .
qed

text \<open>The text of the rejection: the URI, extended by the keyword \<open>what\<close> of the payload.\<close>

lemma error_text_payload:
  assumes "payload_ok payload"
  shows "error_text mp uri (error_fields t r d uri payload) =
    (case payload of
       a # k # _ \<Rightarrow> (case as_string_map mp k of
          None \<Rightarrow> uri @ '': unknown exception''
        | Some kw \<Rightarrow> (case kw ''what'' of None \<Rightarrow> uri | Some w \<Rightarrow> uri @ '': '' @ w))
     | _ \<Rightarrow> uri)"
  using assms by (auto simp: error_text_def error_fields_def payload_ok_iff nth_Cons')

text \<open>ERROR for an entered call rejects the call's future with the error URI, extended by the
  keyword \<open>what\<close> where the message carries one.\<close>

lemma error_rejects_call:
  assumes "msgpack_ok mp" and "reachable mp u s" and "m_calls s r = Some p" and "payload_ok payload"
  shows "\<exists>c. heap_calls s p = Some c \<and>
    got_message mp u (ARRAY (error_fields CALL r d uri payload)) z s =
      (if satisfied (call_promise c) then (Throw (Library_Error Promise_Already_Satisfied), s)
       else (Ok (), s\<lparr>heap_calls := (heap_calls s)(p \<mapsto> c\<lparr>call_promise := (call_promise c)
              \<lparr>shared_state := Has_Exception
                 (Runtime_Error (error_text mp uri (error_fields CALL r d uri payload)))\<rparr>\<rparr>)\<rparr>))"
proof -
  obtain c where "heap_calls s p = Some c"
    by (rule pending_call [OF reachable_requests_ok [OF assms(2)] assms(3)])
  with assms(3) show ?thesis
    by (simp add: error_dispatch [OF assms(1,4)] error_request_types_def reject_call_def
        set_response_cases call_heap_same)
qed

text \<open>ERROR for any request other than a call is accepted and ignored: the futures of failed
  subscribe, unsubscribe, register and publish requests are never rejected.\<close>

lemma error_ignored:
  assumes "msgpack_ok mp" and "payload_ok payload"
    and "t \<in> {REGISTER, UNREGISTER, PUBLISH, SUBSCRIBE, UNSUBSCRIBE}"
  shows "got_message mp u (ARRAY (error_fields t r d uri payload)) z s = (Ok (), s)"
proof -
  have "t \<in> set error_request_types" "t \<noteq> CALL"
    using assms(3) by (auto simp: error_request_types_def)
  then show ?thesis by (simp add: error_dispatch [OF assms(1,2)])
qed

text \<open>C16: The router's answers to a call.  RESULT resolves the future of an entered call with the payload,
  ERROR rejects it with the error URI, extended by the keyword \<open>what\<close> where the payload carries one,
  when the future is still open.  The entry stays in the table, so a second answer finds the future
  resolved and ends in an exception, leaving the session as it was.  ERROR for any request other than
  a call is accepted and ignored: futures of failed subscribe, unsubscribe, register and publish
  requests are never rejected.\<close>

theorem call_replies:
  assumes "msgpack_ok mp" and "reachable mp u s" and "payload_ok payload"
  shows "(\<forall>p. m_calls s r = Some p \<longrightarrow> (\<exists>c res. heap_calls s p = Some c \<and>
      obj (cr_arguments res) = (case payload of [] \<Rightarrow> ARRAY [] | a # _ \<Rightarrow> a) \<and>
      obj (cr_kw_arguments res) = (case payload of a # k # _ \<Rightarrow> k | _ \<Rightarrow> MAP []) \<and>
      (let text = (case payload of
            a # k # _ \<Rightarrow> (case as_string_map mp k of
               None \<Rightarrow> uri @ '': unknown exception''
             | Some kw \<Rightarrow> (case kw ''what'' of None \<Rightarrow> uri | Some w \<Rightarrow> uri @ '': '' @ w))
          | _ \<Rightarrow> uri);
         answered = (\<lambda>v. if satisfied (call_promise c)
           then (Throw (Library_Error Promise_Already_Satisfied), s)
           else (Ok (), s\<lparr>heap_calls := (heap_calls s)(p \<mapsto> c\<lparr>call_promise := (call_promise c)
                  \<lparr>shared_state := v\<rparr>\<rparr>)\<rparr>))
       in got_message mp u (ARRAY (result_fields r d payload)) z s = answered (Has_Value res) \<and>
          got_message mp u (ARRAY (error_fields CALL r d uri payload)) z s =
            answered (Has_Exception (Runtime_Error text))))) \<and>
    (t \<in> {REGISTER, UNREGISTER, PUBLISH, SUBSCRIBE, UNSUBSCRIBE} \<longrightarrow>
      got_message mp u (ARRAY (error_fields t r d uri payload)) z s = (Ok (), s))"
proof (intro conjI allI impI)
  fix p assume p: "m_calls s r = Some p"
  obtain c res where res: "heap_calls s p = Some c"
      "obj (cr_arguments res) = (case payload of [] \<Rightarrow> ARRAY [] | a # _ \<Rightarrow> a)"
      "obj (cr_kw_arguments res) = (case payload of a # k # _ \<Rightarrow> k | _ \<Rightarrow> MAP [])"
      "got_message mp u (ARRAY (result_fields r d payload)) z s =
        (if satisfied (call_promise c) then (Throw (Library_Error Promise_Already_Satisfied), s)
         else (Ok (), s\<lparr>heap_calls := (heap_calls s)(p \<mapsto> c\<lparr>call_promise := (call_promise c)
                \<lparr>shared_state := Has_Value res\<rparr>\<rparr>)\<rparr>))"
    using result_effect [OF assms(1,2) p assms(3)] by blast
  obtain c' where "heap_calls s p = Some c'"
      "got_message mp u (ARRAY (error_fields CALL r d uri payload)) z s =
        (if satisfied (call_promise c') then (Throw (Library_Error Promise_Already_Satisfied), s)
         else (Ok (), s\<lparr>heap_calls := (heap_calls s)(p \<mapsto> c'\<lparr>call_promise := (call_promise c')
                \<lparr>shared_state := Has_Exception
                   (Runtime_Error (error_text mp uri (error_fields CALL r d uri payload)))\<rparr>\<rparr>)\<rparr>))"
    using error_rejects_call [OF assms(1,2) p assms(3)] by blast
  with res show "\<exists>c res. heap_calls s p = Some c \<and>
      obj (cr_arguments res) = (case payload of [] \<Rightarrow> ARRAY [] | a # _ \<Rightarrow> a) \<and>
      obj (cr_kw_arguments res) = (case payload of a # k # _ \<Rightarrow> k | _ \<Rightarrow> MAP []) \<and>
      (let text = (case payload of
            a # k # _ \<Rightarrow> (case as_string_map mp k of
               None \<Rightarrow> uri @ '': unknown exception''
             | Some kw \<Rightarrow> (case kw ''what'' of None \<Rightarrow> uri | Some w \<Rightarrow> uri @ '': '' @ w))
          | _ \<Rightarrow> uri);
         answered = (\<lambda>v. if satisfied (call_promise c)
           then (Throw (Library_Error Promise_Already_Satisfied), s)
           else (Ok (), s\<lparr>heap_calls := (heap_calls s)(p \<mapsto> c\<lparr>call_promise := (call_promise c)
                  \<lparr>shared_state := v\<rparr>\<rparr>)\<rparr>))
       in got_message mp u (ARRAY (result_fields r d payload)) z s = answered (Has_Value res) \<and>
          got_message mp u (ARRAY (error_fields CALL r d uri payload)) z s =
            answered (Has_Exception (Runtime_Error text)))"
    by (intro exI [of _ c] exI [of _ res]) (simp add: Let_def error_text_payload [OF assms(3)])
qed (rule error_ignored [OF assms(1,3)])

theorem call_replies_witness:
  "fst (got_message demo_mp silent_user (ARRAY (result_fields 1 [] [ARRAY [NIL]])) 0
     (demo [Do_Api True (Api_Call ''add'')])) = Ok () \<and>
   got_message demo_mp silent_user (ARRAY (error_fields SUBSCRIBE 1 [] ''no.such'' [])) 0
     (demo [Do_Api True (Api_Call ''add'')]) = (Ok (), demo [Do_Api True (Api_Call ''add'')])"
proof
  let ?ms = "[Do_Api True (Api_Call ''add'')]"
  have "enabled demo_mp silent_user (join_moves @ ?ms)" by code_simp
  then have reach: "reachable demo_mp silent_user (demo ?ms)" by (rule demo_reachable)
  have p: "m_calls (demo ?ms) 1 = Some 0" by code_simp
  have "map_option (\<lambda>c. satisfied (call_promise c)) (heap_calls (demo ?ms) 0) = Some False"
    by code_simp
  with call_replies [OF demo_mp_ok(1) reach, of "[ARRAY [NIL]]" 1 "[]" "[]" 0 CALL] p
  show "fst (got_message demo_mp silent_user (ARRAY (result_fields 1 [] [ARRAY [NIL]])) 0
     (demo ?ms)) = Ok ()" by (auto simp: Let_def)
  show "got_message demo_mp silent_user (ARRAY (error_fields SUBSCRIBE 1 [] ''no.such'' [])) 0 (demo ?ms) =
      (Ok (), demo ?ms)"
    using call_replies [OF demo_mp_ok(1) reach, of "[]" 1 "''no.such''" "[]" 0 SUBSCRIBE] by simp
qed

end
