(* ===== verification/Callee.thy ===== *)
theory Callee
  imports Session_Handlers
begin

text \<open>
  Invocations end to end: an INVOCATION runs the registered procedure on a fresh invocation
  object, an exception of the procedure is reported to the caller, and an invocation is answered
  at most once over the whole life of the session.
\<close>

definition invocation_fields ::
    "u64 \<Rightarrow> u64 \<Rightarrow> (msgobj \<times> msgobj) list \<Rightarrow> msgobj list \<Rightarrow> wamp_message" where
  "invocation_fields r i d payload =
     [POSITIVE_INTEGER 68, POSITIVE_INTEGER r, POSITIVE_INTEGER i, MAP d] @ payload"

lemma invocation_fields_shape:
  fixes r i :: u64 and d :: "(msgobj \<times> msgobj) list"
  assumes "payload_ok payload"
  defines "m \<equiv> invocation_fields r i d payload"
  shows "(length m \<noteq> 4 \<and> length m \<noteq> 5 \<and> length m \<noteq> 6) = False"
    and "m ! 0 = POSITIVE_INTEGER 68" "m ! Suc 0 = POSITIVE_INTEGER r" "m ! 2 = POSITIVE_INTEGER i"
    and "m ! 3 = MAP d" "Suc 0 < length m" "2 < length m" "3 < length m"
    and "(4 < length m \<and> \<not> is_array (m ! 4)) = False"
    and "(5 < length m \<and> \<not> is_map (m ! 5)) = False"
  using assms(1) by (auto simp: m_def invocation_fields_def payload_ok_iff nth_Cons')

lemma invocation_dispatch:
  assumes "msgpack_ok mp" and "payload_ok payload"
  shows "got_message mp u (ARRAY (invocation_fields r i d payload)) z s =
    (case m_procedures s i of
       Some f \<Rightarrow> invoke_procedure mp u f (received_invocation r z (invocation_fields r i d payload)) s
     | None \<Rightarrow> protocol_error ''bogus INVOCATION message for non-registered registration ID'' s)"
proof -
  have "got_message mp u (ARRAY (invocation_fields r i d payload)) z s =
      process_invocation mp u (invocation_fields r i d payload) z s"
    using assms(1) by (simp add: invocation_fields_def got_message_code)
  also have "\<dots> = (case m_procedures s i of
       Some f \<Rightarrow> invoke_procedure mp u f (received_invocation r z (invocation_fields r i d payload)) s
     | None \<Rightarrow> protocol_error ''bogus INVOCATION message for non-registered registration ID'' s)"
    unfolding process_invocation_def receive_defs
    using assms(1)
    by (simp only: invocation_fields_shape [OF assms(2)] bind_element_at One_nat_def if_False)
      (simp add: bind_act_def lift_result_def with_state_def split: option.splits)
  finally show ?thesis .
qed

lemma received_invocation_fields:
  assumes "payload_ok payload"
  shows "inv_request_id (received_invocation r z (invocation_fields r i d payload)) = r"
    and "inv_details (received_invocation r z (invocation_fields r i d payload)) = MAP d"
    and "sendable (received_invocation r z (invocation_fields r i d payload))"
    and "inv_arguments (received_invocation r z (invocation_fields r i d payload)) =
      (case payload of [] \<Rightarrow> ARRAY [] | a # _ \<Rightarrow> a)"
    and "inv_kw_arguments (received_invocation r z (invocation_fields r i d payload)) =
      (case payload of a # k # _ \<Rightarrow> k | _ \<Rightarrow> MAP [])"
  using assms
  by (auto simp: received_invocation_def invocation_fields_def invocation_setters sendable_def
      payload_ok_iff nth_Cons' new_invocation_def EMPTY_ARGUMENTS_def EMPTY_KW_ARGUMENTS_def)

text \<open>C11: INVOCATION of a registered procedure calls it once with a fresh invocation object that
  carries the request id, the details and the payload and can be answered; whatever the procedure
  throws, no exception leaves the message handler.\<close>

theorem invocation_runs_procedure:
  assumes "msgpack_ok mp" and "payload_ok payload" and "m_procedures s i = Some f"
  shows "let p = heap_next s; iv = received_invocation r z (invocation_fields r i d payload)
    in inv_request_id iv = r \<and> inv_details iv = MAP d \<and> sendable iv \<and>
       inv_arguments iv = (case payload of [] \<Rightarrow> ARRAY [] | a # _ \<Rightarrow> a) \<and>
       inv_kw_arguments iv = (case payload of a # k # _ \<Rightarrow> k | _ \<Rightarrow> MAP []) \<and>
       got_message mp u (ARRAY (invocation_fields r i d payload)) z s =
         try_catch (run_prog mp (on_invoke u f p iv)) (report_exception mp p)
           (s\<lparr>heap_invocations := (heap_invocations s)(p \<mapsto> iv), heap_next := Suc p\<rparr>) \<and>
       (\<forall>e. fst (got_message mp u (ARRAY (invocation_fields r i d payload)) z s) \<noteq> Throw e)"
proof -
  let ?iv = "received_invocation r z (invocation_fields r i d payload)"
  note fields = received_invocation_fields [OF assms(2), of r z i d]
  have report: "fst (report_exception mp p e t) \<noteq> Throw e'" for p e e' t
  proof (cases "invocation_sendable p t")
    case True
    then obtain iv g where "heap_invocations t p = Some iv" "inv_send_result_fn iv = Some g"
      by (auto simp: invocation_sendable_def sendable_def split: option.splits)
    with True show ?thesis
      by (simp add: report_exception_def with_state_def invocation_reply_sendable)
  qed (simp add: report_exception_def with_state_def ret_def)
  have "got_message mp u (ARRAY (invocation_fields r i d payload)) z s =
    try_catch (run_prog mp (on_invoke u f (heap_next s) ?iv)) (report_exception mp (heap_next s))
      (s\<lparr>heap_invocations := (heap_invocations s)(heap_next s \<mapsto> ?iv), heap_next := Suc (heap_next s)\<rparr>)"
    using assms(3)
    by (simp add: invocation_dispatch [OF assms(1,2)] invoke_procedure_def alloc_invocation_def)
  with fields report show ?thesis
    by (auto simp: try_catch_def split: result.splits prod.splits)
qed

text \<open>A session with one procedure registered under id 9.\<close>

definition provider_moves :: "move list" where
  "provider_moves = Do_Api True (Api_Provide ''add'' 3 []) # deliver 2"

theorem invocation_runs_procedure_witness:
  "m_procedures (demo provider_moves) 9 = Some 3 \<and>
   fst (got_message demo_mp silent_user (ARRAY (invocation_fields 4 9 [] [ARRAY [NIL]])) 0
     (demo provider_moves)) \<noteq> Throw No_Session_Error"
proof -
  have f: "m_procedures (demo provider_moves) 9 = Some 3" by code_simp
  have "payload_ok [ARRAY [NIL]]" by simp
  from f invocation_runs_procedure [OF demo_mp_ok(1) this f, of 4 0 "[]" silent_user]
  show ?thesis unfolding Let_def by blast
qed

section \<open>Replies\<close>

text \<open>C26: When a procedure ends in an exception and has not answered its invocation, the caller is
  sent exactly one ERROR reply: with the exception's text when it derives from
  \<open>std::exception\<close>, with the bare error URI otherwise.  When it has answered, nothing is sent.\<close>

theorem procedure_failure_reported:
  assumes "heap_invocations s p = Some iv" and "alive s" and "\<not> m_stopped s"
    and "fail_after (m_out s) = None"
  shows "written (m_out (snd (report_exception mp p e s))) = written (m_out s) @
    (if sendable iv then
       frame mp (case exn_what (library_what mp) e of
           Some w \<Rightarrow> error_kw_message ''wamp.error.runtime_error'' []
                       [(STR_OBJ ''what'', STR_OBJ w)] (inv_request_id iv)
         | None \<Rightarrow> error_message ''wamp.error.runtime_error'' (inv_request_id iv))
     else [])"
proof (cases "inv_send_result_fn iv")
  case None
  with assms(1) show ?thesis
    by (simp add: report_exception_def with_state_def invocation_sendable_def sendable_def ret_def)
next
  case (Some g)
  with assms show ?thesis
    by (auto simp: report_exception_def with_state_def invocation_sendable_def sendable_def
        invocation_reply_sendable send_result_eq send_healthy split: option.splits)
qed

definition serving_moves :: "move list" where
  "serving_moves = provider_moves @ deliver 3"

theorem procedure_failure_reported_witness:
  "\<exists>iv. heap_invocations (demo serving_moves) 1 = Some iv \<and>
     written (m_out (snd (report_exception demo_mp 1 Non_Std_Exception (demo serving_moves)))) =
       written (m_out (demo serving_moves)) @
       (if sendable iv then frame demo_mp (error_message ''wamp.error.runtime_error'' (inv_request_id iv))
        else [])"
proof -
  have "\<not> Option.is_none (heap_invocations (demo serving_moves) 1)" by code_simp
  then obtain iv where iv: "heap_invocations (demo serving_moves) 1 = Some iv"
    by (auto simp: Option.is_none_def)
  have "alive (demo serving_moves)" by code_simp
  moreover have "\<not> m_stopped (demo serving_moves)" by code_simp
  moreover have "fail_after (m_out (demo serving_moves)) = None" by code_simp
  ultimately show ?thesis
    using procedure_failure_reported [OF iv, of demo_mp Non_Std_Exception] iv by simp
qed

text \<open>C12: An invocation is answered at most once: after a reply has succeeded, every later reply to
  the same invocation, in whatever state the session has reached by then, throws and changes
  nothing.\<close>

theorem reply_at_most_once:
  assumes "reachable mp u s" and "invocation_reply mp inline p rep s = (Ok (), s1)"
    and "(session_step mp u)\<^sup>*\<^sup>* s1 s2"
  shows "invocation_reply mp inline' p rep' s2 = (Throw not_sendable_error, s2)"
proof -
  obtain iv where iv: "heap_invocations s p = Some iv"
    using assms(2) by (cases "heap_invocations s p") (simp_all add: invocation_reply_missing)
  obtain g where g: "inv_send_result_fn iv = Some g"
    using assms(2) iv
    by (cases "inv_send_result_fn iv") (simp_all add: invocation_reply_not_sendable)
  have reach: "reachable mp u s1"
    by (rule reachable_step [OF assms(1) step_reply [OF _ assms(2)]]) (simp add: iv)
  have "p < heap_next s"
    using reachable_requests_ok [OF assms(1)] iv
    by (force simp: requests_ok_def tables_ok_def heap_bounded_def not_less [symmetric])
  then have "answered_at p (iv\<lparr>inv_send_result_fn := None\<rparr>) s1"
    using assms(2) iv g
    by (auto simp: invocation_reply_sendable send_result_eq answered_at_def Let_def)
  moreover have "client_queue s1"
    using wire.reachable_P [OF reach] by simp
  ultimately have "answered_at p (iv\<lparr>inv_send_result_fn := None\<rparr>) s2"
    using answered.steps_P [OF assms(3)] by blast
  then show ?thesis by (intro invocation_reply_not_sendable) (auto simp: answered_at_def)
qed

theorem reply_at_most_once_witness:
  "fst (invocation_reply demo_mp True 1 Empty_Result (demo serving_moves)) = Ok () \<and>
   fst (invocation_reply demo_mp True 1 Empty_Result
     (snd (invocation_reply demo_mp True 1 Empty_Result (demo serving_moves)))) = Throw not_sendable_error"
proof -
  have "enabled demo_mp silent_user (join_moves @ serving_moves)" by code_simp
  then have reach: "reachable demo_mp silent_user (demo serving_moves)" by (rule demo_reachable)
  have ok: "fst (invocation_reply demo_mp True 1 Empty_Result (demo serving_moves)) = Ok ()"
    by code_simp
  then have eq: "invocation_reply demo_mp True 1 Empty_Result (demo serving_moves) =
      (Ok (), snd (invocation_reply demo_mp True 1 Empty_Result (demo serving_moves)))"
    by (metis prod.collapse)
  with ok reply_at_most_once [OF reach eq rtranclp.rtrancl_refl] show ?thesis by simp
qed

end
