(* ===== verification/Protocol_Checks.thy ===== *)
theory Protocol_Checks
  imports Callee
begin

text \<open>
  What the session does with messages it does not accept: malformed ones, messages of the other
  roles, replies to requests it has not made.  Also the absence of undefined behaviour: apart
  from the two messages whose length is not checked, no message makes a reachable session follow
  a dangling pointer or read past the end of a vector.
\<close>

section \<open>Messages that are rejected or ignored\<close>

definition ignored_types :: "message_type set" where
  "ignored_types = {ABORT, HEARTBEAT, PUBLISHED, UNREGISTERED}"

definition rejected_types :: "message_type set" where
  "rejected_types =
     {HELLO, CHALLENGE, AUTHENTICATE, PUBLISH, SUBSCRIBE, UNSUBSCRIBE, CALL, CANCEL, REGISTER,
      UNREGISTER, INTERRUPT, YIELD}"

text \<open>Anything but a non-empty array that starts with a nonnegative integer is rejected with a
  protocol error and changes nothing.\<close>

lemma malformed_rejected:
  assumes "\<nexists>w xs. v = ARRAY (POSITIVE_INTEGER w # xs)"
  shows "\<exists>m. got_message mp u v z s = (Throw (Protocol_Error m), s)"
proof (cases v)
  case (ARRAY xs)
  with assms show ?thesis
    by (cases xs) (auto simp: got_message_def protocol_error_def raise_def is_positive_integer_iff)
qed (simp_all add: got_message_def protocol_error_def raise_def)

text \<open>A message whose code is not a WAMP code, or is ABORT, HEARTBEAT, PUBLISHED or UNREGISTERED,
  is ignored whatever it contains; a message that only a router may receive, or that is not
  implemented, raises a protocol error and changes nothing.  So does anything but a non-empty
  array that starts with a nonnegative integer.\<close>

lemma unhandled_messages:
  assumes "msgpack_ok mp" and "uint w < 2 ^ 31"
  shows "(message_type_of (uint w) = None \<or> message_type_of (uint w) \<in> Some ` ignored_types \<longrightarrow>
      got_message mp u (ARRAY (POSITIVE_INTEGER w # xs)) z s = (Ok (), s)) \<and>
    (message_type_of (uint w) \<in> Some ` rejected_types \<longrightarrow>
      (\<exists>m. got_message mp u (ARRAY (POSITIVE_INTEGER w # xs)) z s = (Throw (Protocol_Error m), s))) \<and>
    ((\<nexists>w xs. v = ARRAY (POSITIVE_INTEGER w # xs)) \<longrightarrow>
      (\<exists>m. got_message mp u v z s = (Throw (Protocol_Error m), s)))"
proof (cases "message_type_of (uint w)")
  case None
  with assms malformed_rejected [of v mp u z s] show ?thesis
    by (auto simp: got_message_def receive_defs action_defs)
next
  case (Some t)
  with assms malformed_rejected [of v mp u z s] show ?thesis
    by (cases t)
      (simp_all add: got_message_code ignored_types_def rejected_types_def unexpected_def
        not_implemented_def protocol_error_def action_defs)
qed

text \<open>A RESULT, a SUBSCRIBED, UNSUBSCRIBED or REGISTERED, an ERROR for a call and an INVOCATION
  whose id is in none of the tables raise a protocol error and change nothing.\<close>

lemma unknown_ids_rejected:
  assumes "msgpack_ok mp" and "payload_ok payload"
  shows "(m_calls s r = None \<longrightarrow>
      got_message mp u (ARRAY (result_fields r d payload)) z s =
        (Throw (Protocol_Error ''bogus RESULT message for non-pending request ID''), s) \<and>
      got_message mp u (ARRAY (error_fields CALL r d uri payload)) z s =
        (Throw (Protocol_Error ''bogus ERROR message for non-pending CALL request ID''), s)) \<and>
    (m_subscribe_requests s r = None \<longrightarrow>
      got_message mp u (ARRAY [POSITIVE_INTEGER 33, POSITIVE_INTEGER r, x]) z s =
        (Throw (Protocol_Error ''SUBSCRIBED - no pending request ID''), s)) \<and>
    (m_unsubscribe_requests s r = None \<longrightarrow>
      got_message mp u (ARRAY [POSITIVE_INTEGER 35, POSITIVE_INTEGER r]) z s =
        (Throw (Protocol_Error ''UNSUBSCRIBED - no pending request ID''), s)) \<and>
    (m_register_requests s r = None \<longrightarrow>
      got_message mp u (ARRAY [POSITIVE_INTEGER 65, POSITIVE_INTEGER r, x]) z s =
        (Throw (Protocol_Error ''REGISTERED - no pending request ID''), s)) \<and>
    (m_procedures s i = None \<longrightarrow>
      got_message mp u (ARRAY (invocation_fields r i d payload)) z s =
        (Throw (Protocol_Error ''bogus INVOCATION message for non-registered registration ID''), s))"
proof (intro conjI impI)
  assume none: "m_calls s r = None"
  have "got_message mp u (ARRAY (result_fields r d payload)) z s =
      process_call_result mp (result_fields r d payload) z s"
    using assms(1) by (simp add: result_fields_def got_message_code)
  also have "\<dots> = (Throw (Protocol_Error ''bogus RESULT message for non-pending request ID''), s)"
    unfolding process_call_result_def receive_defs
    using none assms(1)
    by (simp only: result_fields_shape [OF assms(2)] bind_element_at One_nat_def if_False)
      (simp add: bind_act_def lift_result_def with_state_def raise_def)
  finally show "got_message mp u (ARRAY (result_fields r d payload)) z s =
      (Throw (Protocol_Error ''bogus RESULT message for non-pending request ID''), s)" .
  show "got_message mp u (ARRAY (error_fields CALL r d uri payload)) z s =
      (Throw (Protocol_Error ''bogus ERROR message for non-pending CALL request ID''), s)"
    using none by (simp add: error_dispatch [OF assms] error_request_types_def protocol_error_def
        raise_def)
next
  assume "m_procedures s i = None"
  then show "got_message mp u (ARRAY (invocation_fields r i d payload)) z s =
      (Throw (Protocol_Error ''bogus INVOCATION message for non-registered registration ID''), s)"
    by (simp add: invocation_dispatch [OF assms] protocol_error_def raise_def)
qed (simp_all add: assms(1) got_message_code process_subscribed_def process_unsubscribed_def
       process_registered_def receive_defs action_defs)

text \<open>C27: Messages the session does not accept.  A message whose code is not a WAMP code, or is ABORT,
  HEARTBEAT, PUBLISHED or UNREGISTERED, is ignored whatever it contains.  A message that only a
  router may receive, or that is not implemented, anything but a non-empty array that starts with a
  nonnegative integer, and a reply, call error or invocation whose id is in none of the tables, raise
  a protocol error and change nothing.\<close>

theorem rejected_messages:
  fixes u :: user and s :: session and z :: nat
  assumes "msgpack_ok mp" and "payload_ok payload"
  defines "rejected \<equiv> (\<lambda>v. \<exists>m. got_message mp u v z s = (Throw (Protocol_Error m), s))"
  shows "(uint w < 2 ^ 31 \<and> (message_type_of (uint w) = None \<or>
       message_type_of (uint w) \<in> Some ` ignored_types) \<longrightarrow>
      got_message mp u (ARRAY (POSITIVE_INTEGER w # xs)) z s = (Ok (), s)) \<and>
    (uint w < 2 ^ 31 \<and> message_type_of (uint w) \<in> Some ` rejected_types \<longrightarrow>
      rejected (ARRAY (POSITIVE_INTEGER w # xs))) \<and>
    ((\<nexists>w xs. v = ARRAY (POSITIVE_INTEGER w # xs)) \<longrightarrow> rejected v) \<and>
    (m_calls s r = None \<longrightarrow> rejected (ARRAY (result_fields r d payload)) \<and>
      rejected (ARRAY (error_fields CALL r d uri payload))) \<and>
    (m_subscribe_requests s r = None \<longrightarrow>
      rejected (ARRAY [POSITIVE_INTEGER 33, POSITIVE_INTEGER r, x])) \<and>
    (m_unsubscribe_requests s r = None \<longrightarrow>
      rejected (ARRAY [POSITIVE_INTEGER 35, POSITIVE_INTEGER r])) \<and>
    (m_register_requests s r = None \<longrightarrow>
      rejected (ARRAY [POSITIVE_INTEGER 65, POSITIVE_INTEGER r, x])) \<and>
    (m_procedures s i = None \<longrightarrow> rejected (ARRAY (invocation_fields r i d payload)))"
  using unhandled_messages [OF assms(1), of w u xs z s v] malformed_rejected [of v mp u z s]
    unknown_ids_rejected [OF assms(1,2), of s r u d z uri x i]
  unfolding rejected_def by blast

theorem rejected_messages_witness:
  "got_message demo_mp silent_user (ARRAY [POSITIVE_INTEGER 3]) 0 (demo []) = (Ok (), demo []) \<and>
   (\<exists>m. got_message demo_mp silent_user (ARRAY [POSITIVE_INTEGER 48]) 0 (demo []) =
      (Throw (Protocol_Error m), demo [])) \<and>
   (\<exists>m. got_message demo_mp silent_user (ARRAY [STR_OBJ ''x'']) 0 (demo []) =
      (Throw (Protocol_Error m), demo [])) \<and>
   (\<exists>m. got_message demo_mp silent_user (ARRAY (result_fields 8 [] [])) 0 (demo []) =
      (Throw (Protocol_Error m), demo []))"
proof -
  have "m_calls (demo []) 8 = None" by code_simp
  then show ?thesis
    using rejected_messages [OF demo_mp_ok(1), where payload = "[]" and w = 3 and u = silent_user and xs = "[]"
          and z = 0 and s = "demo []" and v = "ARRAY [STR_OBJ ''x'']" and r = 8 and d = "[]"]
      rejected_messages [OF demo_mp_ok(1), where payload = "[]" and w = 48 and u = silent_user
          and xs = "[]" and z = 0 and s = "demo []"]
    by (simp add: ignored_types_def rejected_types_def)
qed

section \<open>No undefined behaviour\<close>

definition safe_in :: "session \<Rightarrow> (session, 'a) action \<Rightarrow> bool" where
  "safe_in s m \<longleftrightarrow> fst (m s) \<noteq> Undefined_Behaviour"

lemma safe_in_basic:
  "safe_in s (raise e)" "safe_in s (ret a)" "safe_in s (update f)"
  by (simp_all add: safe_in_def action_defs)

lemma safe_in_if: "(b \<Longrightarrow> safe_in s m) \<Longrightarrow> (\<not> b \<Longrightarrow> safe_in s n) \<Longrightarrow> safe_in s (if b then m else n)"
  by simp

lemma safe_in_convert:
  "(\<And>a. safe_in s (f a)) \<Longrightarrow> safe_in s (bind_act (lift_result (or_throw x e)) f)"
  by (cases x) (simp_all add: safe_in_def action_defs)

lemma safe_in_with_state: "safe_in s (f s) \<Longrightarrow> safe_in s (with_state f)"
  by (simp add: safe_in_def with_state_def)

lemma safe_in_update_then: "safe_in (f s) m \<Longrightarrow> safe_in s (and_then (update f) m)"
  by (simp add: safe_in_def action_defs)

lemma safe_in_and_then_update: "safe_in s m \<Longrightarrow> safe_in s (and_then m (update f))"
  by (cases "m s"; cases "fst (m s)") (simp_all add: safe_in_def action_defs)

lemma safe_in_element:
  "i < length m \<Longrightarrow> safe_in s (f (m ! i)) \<Longrightarrow> safe_in s (bind_act (element_at m i) f)"
  by simp

lemmas safe_intros =
  safe_in_basic safe_in_element safe_in_if safe_in_convert safe_in_with_state safe_in_update_then
  safe_in_and_then_update

lemma safe_answers:
  "heap_calls s p = Some c \<Longrightarrow> safe_in s (resolve_call p v)"
  "heap_calls s p = Some c \<Longrightarrow> safe_in s (reject_call p e)"
  "heap_subscribes s p = Some c1 \<Longrightarrow> safe_in s (respond_subscribe p sv)"
  "heap_unsubscribes s p = Some c2 \<Longrightarrow> safe_in s (respond_unsubscribe p)"
  "heap_registers s p = Some c3 \<Longrightarrow> safe_in s (respond_register p rv)"
  by (simp_all add: safe_in_def resolve_call_def reject_call_def respond_subscribe_def
      respond_unsubscribe_def respond_register_def set_response_cases)

text \<open>User code that never replies through an invocation pointer it was not given.\<close>

definition user_defined :: "msgpack \<Rightarrow> user \<Rightarrow> bool" where
  "user_defined mp u \<longleftrightarrow>
     (\<forall>h ev s. safe_in s (run_prog mp (on_event u h ev))) \<and>
     (\<forall>f p iv s. heap_invocations s p \<noteq> None \<longrightarrow> safe_in s (run_prog mp (on_invoke u f p iv)))"

lemma safe_trigger:
  assumes "user_defined mp u"
  shows "safe_in s (trigger_handlers mp u hs ev)"
proof (induction hs arbitrary: s)
  case (Cons h hs)
  have "safe_in s (run_prog mp (on_event u h ev))" using assms by (simp add: user_defined_def)
  with Cons show ?case
    by (auto simp: safe_in_def and_then_def bind_act_def split: prod.splits result.splits)
qed (simp add: safe_in_basic)

lemma safe_swallow: "safe_in s m \<Longrightarrow> safe_in s (try_catch m (\<lambda>_. ret ()))"
  by (auto simp: safe_in_def try_catch_def ret_def split: prod.splits result.splits)

lemma safe_report: "safe_in s (report_exception mp p e)"
proof (cases "invocation_sendable p s")
  case True
  then obtain iv g where "heap_invocations s p = Some iv" "inv_send_result_fn iv = Some g"
    by (auto simp: invocation_sendable_def sendable_def split: option.splits)
  with True show ?thesis
    by (simp add: safe_in_def report_exception_def with_state_def invocation_reply_sendable)
qed (simp add: safe_in_def report_exception_def with_state_def ret_def)

lemma safe_invoke:
  assumes "user_defined mp u"
  shows "safe_in s (invoke_procedure mp u f iv)"
proof -
  let ?s1 = "s\<lparr>heap_invocations := (heap_invocations s)(heap_next s \<mapsto> iv), heap_next := Suc (heap_next s)\<rparr>"
  have "safe_in ?s1 (run_prog mp (on_invoke u f (heap_next s) iv))"
    using assms by (simp add: user_defined_def)
  then show ?thesis
    using safe_report [of _ mp "heap_next s"]
    by (auto simp: safe_in_def invoke_procedure_def alloc_invocation_def try_catch_def
        split: prod.splits result.splits)
qed

lemma safe_in_case:
  "(x = None \<Longrightarrow> safe_in s m) \<Longrightarrow> (\<And>v. x = Some v \<Longrightarrow> safe_in s (f v)) \<Longrightarrow>
   safe_in s (case x of None \<Rightarrow> m | Some v \<Rightarrow> f v)"
  by (cases x) simp_all

text \<open>In a reachable session the objects of pending requests exist.\<close>

lemma pending_objects:
  assumes "requests_ok s"
  shows "m_calls s r = Some p \<Longrightarrow> \<exists>c. heap_calls s p = Some c"
    and "m_subscribe_requests s r = Some p \<Longrightarrow> \<exists>c. heap_subscribes s p = Some c"
    and "m_unsubscribe_requests s r = Some p \<Longrightarrow> \<exists>c. heap_unsubscribes s p = Some c"
    and "m_register_requests s r = Some p \<Longrightarrow> \<exists>c. heap_registers s p = Some c"
  by (blast elim: pending_call [OF assms] pending_subscribe [OF assms]
      pending_unsubscribe [OF assms] pending_register [OF assms])+

lemma safe_process_subscribed:
  "requests_ok s \<Longrightarrow> safe_in s (process_subscribed mp message)"
  unfolding process_subscribed_def receive_defs
  by (intro safe_intros safe_in_case)
    (auto dest!: pending_objects(2) [rotated] intro: safe_answers safe_intros)

lemma safe_process_unsubscribed:
  "requests_ok s \<Longrightarrow> safe_in s (process_unsubscribed mp message)"
  unfolding process_unsubscribed_def receive_defs
  by (intro safe_intros safe_in_case)
    (auto dest!: pending_objects(3) [rotated] intro: safe_answers safe_intros)

lemma safe_process_registered:
  "requests_ok s \<Longrightarrow> safe_in s (process_registered mp message)"
  unfolding process_registered_def receive_defs
  by (intro safe_intros safe_in_case)
    (auto dest!: pending_objects(4) [rotated] intro: safe_answers safe_intros)

lemma safe_process_call_result:
  "requests_ok s \<Longrightarrow> safe_in s (process_call_result mp message zone)"
  unfolding process_call_result_def receive_defs
  by (intro safe_intros safe_in_case)
    (auto dest!: pending_objects(1) [rotated] intro: safe_answers safe_intros)

lemma safe_process_error:
  "requests_ok s \<Longrightarrow> safe_in s (process_error mp message)"
  unfolding process_error_def receive_defs Let_def
  by (intro safe_intros safe_in_case)
    (auto dest!: pending_objects(1) [rotated] intro: safe_answers safe_intros)

lemma safe_process_event: "user_defined mp u \<Longrightarrow> safe_in s (process_event mp u message)"
  unfolding process_event_def receive_defs Let_def
  by (intro safe_intros safe_swallow safe_trigger) auto

lemma safe_process_invocation:
  "user_defined mp u \<Longrightarrow> safe_in s (process_invocation mp u message zone)"
  unfolding process_invocation_def receive_defs
  by (intro safe_intros) (auto split: option.splits intro!: safe_intros safe_invoke)

lemma safe_in_and_then:
  assumes "\<And>t. safe_in t m" and "\<And>t. safe_in t n"
  shows "safe_in s (and_then m n)"
  using assms(1) [of s] assms(2)
  by (auto simp: safe_in_def and_then_def bind_act_def split: prod.splits result.splits)

lemma safe_promises:
  "safe_in s (on_join (set_value i))" "safe_in s (on_leave (set_value reason))"
  by (simp_all add: safe_in_def on_promise_defs set_value_cases)

lemma safe_send: "safe_in s (send mp b)"
  by (simp add: safe_in_def)

lemma safe_process_welcome: "1 < length message \<Longrightarrow> safe_in s (process_welcome mp message)"
  unfolding process_welcome_def receive_defs
  by (simp, intro safe_intros safe_promises)

lemma safe_process_goodbye: "2 < length message \<Longrightarrow> safe_in s (process_goodbye mp message)"
  unfolding process_goodbye_def receive_defs
  by (simp, intro safe_in_and_then safe_intros safe_promises safe_send)

lemma safe_process_message:
  assumes "requests_ok s" and "user_defined mp u"
    and "t = WELCOME \<Longrightarrow> 1 < length message" and "t = GOODBYE \<Longrightarrow> 2 < length message"
  shows "safe_in s (process_message mp u t message zone)"
  using assms
  by (cases t)
    (simp_all add: safe_process_welcome safe_process_goodbye safe_process_error
      safe_process_call_result safe_process_subscribed safe_process_unsubscribed
      safe_process_registered safe_process_event safe_process_invocation unexpected_def
      not_implemented_def protocol_error_def safe_in_basic)

text \<open>The two messages whose length is not checked before they are read.\<close>

fun short_message :: "msgobj \<Rightarrow> bool" where
  "short_message (ARRAY (POSITIVE_INTEGER w # xs)) = (w = 2 \<and> xs = [] \<or> w = 6 \<and> length xs < 2)"
| "short_message _ = False"

lemma short_goodbye:
  assumes "length message \<le> 2"
  shows "fst (process_goodbye mp message s) = Undefined_Behaviour"
proof -
  obtain os where "send mp (goodbye_message ''wamp.error.goodbye_and_out'') (s\<lparr>m_session_id := 0\<rparr>) =
      (Ok (), s\<lparr>m_session_id := 0, m_out := os\<rparr>)"
    using send_effect by blast
  with assms show ?thesis by (simp add: process_goodbye_def element_at_def receive_defs action_defs)
qed

lemma short_message_undefined:
  assumes "msgpack_ok mp" and "short_message v"
  shows "fst (got_message mp u v z s) = Undefined_Behaviour"
  using assms
  by (cases v rule: short_message.cases)
    (auto simp: got_message_code short_goodbye, simp add: process_welcome_def element_at_def action_defs)

lemma message_word: "uint w = message_code t \<longleftrightarrow> w = word_of_int (message_code t)" for w :: u64
  by (cases t) (auto simp: word_uint_eq_iff)

text \<open>C3: In a reachable session the only messages that lead to undefined behaviour are a WELCOME
  without a session id and a GOODBYE without a reason, which read past the end of the message:
  request objects are alive when a reply refers to them, and every other element the handlers
  read is there.\<close>

theorem no_undefined_behaviour:
  assumes "msgpack_ok mp" and "reachable mp u s" and "user_defined mp u"
  shows "fst (got_message mp u v z s) = Undefined_Behaviour \<longleftrightarrow> short_message v"
proof (cases "\<exists>w xs t. v = ARRAY (POSITIVE_INTEGER w # xs) \<and> uint w < 2 ^ 31 \<and>
    message_type_of (uint w) = Some t")
  case False
  then have "\<not> short_message v" by (cases v rule: short_message.cases) auto
  moreover from False assms(1) have "fst (got_message mp u v z s) \<noteq> Undefined_Behaviour"
    by (cases v)
      (auto simp: got_message_def receive_defs action_defs is_positive_integer_iff neq_Nil_conv
        split: if_splits option.splits)
  ultimately show ?thesis by simp
next
  case True
  then obtain w xs t where v: "v = ARRAY (POSITIVE_INTEGER w # xs)" "uint w < 2 ^ 31"
      "message_type_of (uint w) = Some t"
    by blast
  then have w: "w = word_of_int (message_code t)" using message_type_of_Some message_word by metis
  show ?thesis
  proof (cases "short_message v")
    case False
    with v w have "safe_in s (process_message mp u t (POSITIVE_INTEGER w # xs) z)"
      by (intro safe_process_message reachable_requests_ok [OF assms(2)] assms(3)) auto
    with False v assms(1) show ?thesis by (simp add: got_message_code safe_in_def)
  qed (simp add: short_message_undefined assms(1))
qed

theorem no_undefined_behaviour_witness:
  "fst (got_message demo_mp silent_user (ARRAY [POSITIVE_INTEGER 33, POSITIVE_INTEGER 1, POSITIVE_INTEGER 9]) 0
     (demo [Do_Api True (Api_Subscribe ''topic'' 5)])) \<noteq> Undefined_Behaviour"
proof -
  let ?ms = "[Do_Api True (Api_Subscribe ''topic'' 5)]"
  have "enabled demo_mp silent_user (join_moves @ ?ms)" by code_simp
  then have "reachable demo_mp silent_user (demo ?ms)" by (rule demo_reachable)
  moreover have "user_defined demo_mp silent_user"
    by (simp add: user_defined_def silent_user_def safe_in_basic)
  ultimately show ?thesis by (simp add: no_undefined_behaviour [OF demo_mp_ok(1)])
qed

end
