(* ===== verification/Session_Futures.thy ===== *)
theory Session_Futures
  imports Request_Tables Session_Runs
begin

text \<open>
  The futures a session hands out, seen as a board: each is unresolved or shows its outcome.  The
  session implements a board that is written once: an outcome never changes and no future
  disappears, whatever the application, the router and the network do; and a request is resolved by
  an answer to its own id, or breaks with the function or the session that holds it.
\<close>

section \<open>The board\<close>

datatype future =
    Handshake_Future
  | Join_Future
  | Leave_Future
  | Stop_Future
  | Call_Future nat
  | Subscribe_Future nat
  | Unsubscribe_Future nat
  | Register_Future nat

datatype outcome =
    Unresolved
  | Handshake_Done bool
  | Joined_As u64
  | Left_For string
  | Done_With unit
  | Called wamp_call_result
  | Subscribed wamp_subscription
  | Registered wamp_registration
  | Failed exn

lemma all_future_iff:
  "(\<forall>f. P f) \<longleftrightarrow> P Handshake_Future \<and> P Join_Future \<and> P Leave_Future \<and> P Stop_Future \<and>
     (\<forall>p. P (Call_Future p)) \<and> (\<forall>p. P (Subscribe_Future p)) \<and> (\<forall>p. P (Unsubscribe_Future p)) \<and>
     (\<forall>p. P (Register_Future p))"
  by (metis future.exhaust)

definition promise_outcome :: "('a \<Rightarrow> outcome) \<Rightarrow> 'a promise \<Rightarrow> outcome" where
  "promise_outcome shown p =
     (case shared_state p of
        Pending \<Rightarrow> Unresolved
      | Has_Value v \<Rightarrow> shown v
      | Has_Exception e \<Rightarrow> Failed e)"

fun board :: "session \<Rightarrow> future \<Rightarrow> outcome option" where
  "board s Handshake_Future = Some (promise_outcome Handshake_Done (m_handshake s))"
| "board s Join_Future = Some (promise_outcome Joined_As (m_session_join s))"
| "board s Leave_Future = Some (promise_outcome Left_For (m_session_leave s))"
| "board s Stop_Future = Some (promise_outcome Done_With (m_session_stop s))"
| "board s (Call_Future p) = map_option (\<lambda>c. promise_outcome Called (call_promise c)) (heap_calls s p)"
| "board s (Subscribe_Future p) =
     map_option (\<lambda>r. promise_outcome Subscribed (subscribe_response r)) (heap_subscribes s p)"
| "board s (Unsubscribe_Future p) =
     map_option (\<lambda>r. promise_outcome Done_With (unsubscribe_response r)) (heap_unsubscribes s p)"
| "board s (Register_Future p) =
     map_option (\<lambda>r. promise_outcome Registered (register_response r)) (heap_registers s p)"

lemma promise_outcome_simps [simp]:
  "\<not> satisfied p \<Longrightarrow> promise_outcome shown p = Unresolved"
  "promise_outcome shown (p\<lparr>shared_state := Has_Value v\<rparr>) = shown v"
  "promise_outcome shown (p\<lparr>shared_state := Has_Exception e\<rparr>) = Failed e"
  "promise_outcome shown (p\<lparr>future_retrieved := b\<rparr>) = promise_outcome shown p"
  "promise_outcome shown new_promise = Unresolved"
  by (simp_all add: promise_outcome_def satisfied_def)

lemma promise_outcome_open [simp]:
  "promise_outcome Called c = Unresolved \<longleftrightarrow> \<not> satisfied c"
  "promise_outcome Subscribed sp = Unresolved \<longleftrightarrow> \<not> satisfied sp"
  "promise_outcome Done_With up = Unresolved \<longleftrightarrow> \<not> satisfied up"
  "promise_outcome Registered rp = Unresolved \<longleftrightarrow> \<not> satisfied rp"
  by (simp_all add: promise_outcome_def satisfied_def split: promise_state.split)

lemma promise_outcome_abandon [simp]:
  "promise_outcome shown (abandon p) =
     (if satisfied p then promise_outcome shown p else Failed (Library_Error Broken_Promise))"
  by (simp add: promise_outcome_def abandon_def satisfied_def split: promise_state.split)

text \<open>The board depends on the promises only.\<close>

lemma board_updates [simp]:
  "board (s\<lparr>m_out := os\<rparr>) = board s"
  "board (s\<lparr>m_in_open := b\<rparr>) = board s"
  "board (s\<lparr>m_stopped := b\<rparr>) = board s"
  "board (s\<lparr>m_buffer_message_length := bs\<rparr>) = board s"
  "board (s\<lparr>m_message_length := n\<rparr>) = board s"
  "board (s\<lparr>m_unpacker := bs\<rparr>) = board s"
  "board (s\<lparr>m_request_id := k\<rparr>) = board s"
  "board (s\<lparr>m_session_id := i\<rparr>) = board s"
  "board (s\<lparr>m_goodbye_sent := b\<rparr>) = board s"
  "board (s\<lparr>m_calls := t\<rparr>) = board s"
  "board (s\<lparr>m_subscribe_requests := t\<rparr>) = board s"
  "board (s\<lparr>m_unsubscribe_requests := t\<rparr>) = board s"
  "board (s\<lparr>m_register_requests := t\<rparr>) = board s"
  "board (s\<lparr>m_subscription_handlers := hs\<rparr>) = board s"
  "board (s\<lparr>m_procedures := ps\<rparr>) = board s"
  "board (s\<lparr>heap_invocations := hi\<rparr>) = board s"
  "board (s\<lparr>heap_next := k\<rparr>) = board s"
  "board (s\<lparr>zone_count := k\<rparr>) = board s"
  "board (s\<lparr>io_queue := q\<rparr>) = board s"
  "board (s\<lparr>pending_reads := ops\<rparr>) = board s"
  "board (s\<lparr>rx_errors := es\<rparr>) = board s"
  "board (s\<lparr>alive := b\<rparr>) = board s"
  by (rule ext, case_tac x; simp)+

lemma board_send [simp]: "board (snd (send mp b s)) = board s"
  using keepsD [OF send_keeps, of "\<lambda>t. board t = board s" s mp b] by simp

section \<open>A board that is written once\<close>

definition extends :: "(future \<Rightarrow> outcome option) \<Rightarrow> (future \<Rightarrow> outcome option) \<Rightarrow> bool" where
  "extends b b' \<longleftrightarrow>
     (\<forall>f. b' f = b f \<or> b f = None \<or> b f = Some Unresolved \<and> b' f \<noteq> None)"

lemma extends_refl [simp]: "extends b b"
  by (simp add: extends_def)

lemma extends_trans [trans]: "extends a b \<Longrightarrow> extends b c \<Longrightarrow> extends a c"
  unfolding extends_def by metis

text \<open>Filling one promise, or making one new object.\<close>

lemma board_promises:
  "\<not> satisfied (m_handshake s) \<Longrightarrow> extends (board s) (board (s\<lparr>m_handshake := hp\<rparr>))"
  "\<not> satisfied (m_session_join s) \<Longrightarrow> extends (board s) (board (s\<lparr>m_session_join := jp\<rparr>))"
  "\<not> satisfied (m_session_leave s) \<Longrightarrow> extends (board s) (board (s\<lparr>m_session_leave := lp\<rparr>))"
  "\<not> satisfied (m_session_stop s) \<Longrightarrow> extends (board s) (board (s\<lparr>m_session_stop := sp\<rparr>))"
  by (simp_all add: extends_def all_future_iff)

lemma board_retrieved:
  "board (s\<lparr>m_handshake := (m_handshake s)\<lparr>future_retrieved := b\<rparr>\<rparr>) = board s"
  "board (s\<lparr>m_session_join := (m_session_join s)\<lparr>future_retrieved := b\<rparr>\<rparr>) = board s"
  "board (s\<lparr>m_session_leave := (m_session_leave s)\<lparr>future_retrieved := b\<rparr>\<rparr>) = board s"
  "board (s\<lparr>m_session_stop := (m_session_stop s)\<lparr>future_retrieved := b\<rparr>\<rparr>) = board s"
  by (rule ext, case_tac x; simp)+

lemma board_settled:
  "extends (board s) (board (snd (on_handshake (set_value h) s)))"
  "extends (board s) (board (snd (on_join (set_value i) s)))"
  "extends (board s) (board (snd (on_leave (set_value l) s)))"
  "extends (board s) (board (snd (on_stop (set_value ()) s)))"
  by (simp_all add: on_promise_defs set_value_cases board_promises)

lemma board_futures:
  "board (snd (on_handshake get_future s)) = board s"
  "board (snd (on_join get_future s)) = board s"
  "board (snd (on_leave get_future s)) = board s"
  "board (snd (on_stop get_future s)) = board s"
  by (simp_all add: on_promise_defs get_future_def board_retrieved)

lemma board_allocs:
  assumes "heap_bounded s"
  shows "extends (board s) (board (snd (alloc_call s)))"
    and "extends (board s) (board (snd (alloc_subscribe h s)))"
    and "extends (board s) (board (snd (alloc_unsubscribe s)))"
    and "extends (board s) (board (snd (alloc_register g s)))"
    and "board (snd (alloc_invocation iv s)) = board s"
  using assms by (simp_all add: extends_def alloc_defs all_future_iff heap_bounded_def)

lemma board_objects:
  "extends (board s) (board (snd (reject_call p e s)))"
  "extends (board s) (board (snd (resolve_call p v s)))"
  "extends (board s) (board (snd (respond_subscribe p sv s)))"
  "extends (board s) (board (snd (respond_unsubscribe p s)))"
  "extends (board s) (board (snd (respond_register p rv s)))"
  by (simp_all add: extends_def all_future_iff reject_call_def resolve_call_def respond_subscribe_def
      respond_unsubscribe_def respond_register_def set_response_cases fun_upd_idem split: option.splits)

lemma board_released:
  "extends (board s) (board (release_call p s))"
  "extends (board s) (board (release_subscribe p s))"
  "extends (board s) (board (release_unsubscribe p s))"
  "extends (board s) (board (release_register p s))"
  by (simp_all add: extends_def all_future_iff release_defs destroy_defs map_option_case split: option.split)

lemma board_destroyed: "extends (board s) (board (destroy_session s))"
  by (simp add: extends_def all_future_iff destroy_session_def release_all_def destroy_defs
      map_option_case split: option.split)

text \<open>
  What a session has shown it shows for good; calls and registrations stay in their tables.
\<close>

definition later :: "session \<Rightarrow> session \<Rightarrow> bool" where
  "later s0 s \<longleftrightarrow> extends (board s0) (board s) \<and> m_calls s0 \<subseteq>\<^sub>m m_calls s \<and>
     m_register_requests s0 \<subseteq>\<^sub>m m_register_requests s \<and> heap_bounded s"

lemma later_self: "heap_bounded s \<Longrightarrow> later s s"
  by (simp add: later_def)

lemma later_step:
  assumes "later s0 s" and "extends (board s) (board s')" and "m_calls s' = m_calls s"
    and "m_register_requests s' = m_register_requests s" and "heap_bounded s \<Longrightarrow> heap_bounded s'"
  shows "later s0 s'"
  using assms extends_trans unfolding later_def by metis

lemma map_le_emplace: "m \<subseteq>\<^sub>m map_emplace m k v"
  unfolding map_le_def using map_emplace_mono by fastforce

lemma later_emplace:
  "later s0 s \<Longrightarrow> later s0 (s\<lparr>m_calls := map_emplace (m_calls s) r p\<rparr>)"
  "later s0 s \<Longrightarrow> later s0 (s\<lparr>m_register_requests := map_emplace (m_register_requests s) r p\<rparr>)"
  by (auto simp: later_def heap_bounded_def intro: map_le_trans [OF _ map_le_emplace])

lemma bounded_released:
  "heap_bounded s \<Longrightarrow> heap_bounded (release_call p s)"
  "heap_bounded s \<Longrightarrow> heap_bounded (release_subscribe p s)"
  "heap_bounded s \<Longrightarrow> heap_bounded (release_unsubscribe p s)"
  "heap_bounded s \<Longrightarrow> heap_bounded (release_register p s)"
  "heap_bounded s \<Longrightarrow> heap_bounded (destroy_session s)"
  by (auto simp: heap_bounded_def release_defs destroy_session_def release_all_def)

lemma bounded_updates:
  "heap_bounded s \<Longrightarrow> heap_bounded (snd (alloc_call s))"
  "heap_bounded s \<Longrightarrow> heap_bounded (snd (alloc_subscribe h s))"
  "heap_bounded s \<Longrightarrow> heap_bounded (snd (alloc_unsubscribe s))"
  "heap_bounded s \<Longrightarrow> heap_bounded (snd (alloc_register g s))"
  "heap_bounded s \<Longrightarrow> heap_bounded (snd (alloc_invocation iv s))"
  "heap_bounded s \<Longrightarrow> heap_bounded (snd (reject_call p e s))"
  "heap_bounded s \<Longrightarrow> heap_bounded (snd (resolve_call p v s))"
  "heap_bounded s \<Longrightarrow> heap_bounded (snd (respond_subscribe p sv s))"
  "heap_bounded s \<Longrightarrow> heap_bounded (snd (respond_unsubscribe p s))"
  "heap_bounded s \<Longrightarrow> heap_bounded (snd (respond_register p rv s))"
  by (auto simp: heap_bounded_def alloc_defs reject_call_def resolve_call_def respond_subscribe_def
      respond_unsubscribe_def respond_register_def split: option.splits prod.splits)

lemmas object_defs = reject_call_def resolve_call_def respond_subscribe_def respond_unsubscribe_def
  respond_register_def

text \<open>A step that leaves heaps and tables alone need only respect the board.\<close>

lemma later_fields:
  assumes "later s0 s" and "extends (board s) (board s')" and "m_calls s' = m_calls s"
    and "m_register_requests s' = m_register_requests s" and "heap_calls s' = heap_calls s"
    and "heap_subscribes s' = heap_subscribes s" and "heap_unsubscribes s' = heap_unsubscribes s"
    and "heap_registers s' = heap_registers s" and "dom (heap_invocations s') = dom (heap_invocations s)"
    and "heap_next s' = heap_next s"
  shows "later s0 s'"
proof (rule later_step [OF assms(1-4)])
  have "heap_invocations s' p = None \<longleftrightarrow> heap_invocations s p = None" for p
    using assms(9) by (metis domIff)
  then show "heap_bounded s \<Longrightarrow> heap_bounded s'"
    using assms(5-8,10) by (simp add: heap_bounded_def)
qed

lemma later_settled:
  assumes "later s0 s"
  shows "later s0 (snd (on_handshake (set_value h) s))" "later s0 (snd (on_join (set_value i) s))"
    "later s0 (snd (on_leave (set_value l) s))" "later s0 (snd (on_stop (set_value ()) s))"
  by (rule later_fields [OF assms]; (rule board_settled | simp add: on_promise_defs split: prod.splits))+

lemma later_futures:
  assumes "later s0 s"
  shows "later s0 (snd (on_handshake get_future s))" "later s0 (snd (on_join get_future s))"
    "later s0 (snd (on_leave get_future s))" "later s0 (snd (on_stop get_future s))"
  by (rule later_fields [OF assms];
      (simp only: board_futures extends_refl | simp add: on_promise_defs split: prod.splits))+

lemma later_allocs:
  assumes "later s0 s"
  shows "later s0 (snd (alloc_call s))" "later s0 (snd (alloc_subscribe h s))"
    "later s0 (snd (alloc_unsubscribe s))" "later s0 (snd (alloc_register g s))"
    "later s0 (snd (alloc_invocation iv s))"
proof -
  have "heap_bounded s" using assms by (simp add: later_def)
  from board_allocs [OF this]
  show "later s0 (snd (alloc_call s))" "later s0 (snd (alloc_subscribe h s))"
    "later s0 (snd (alloc_unsubscribe s))" "later s0 (snd (alloc_register g s))"
    "later s0 (snd (alloc_invocation iv s))"
    by (auto intro!: later_step [OF assms] bounded_updates) (simp_all add: alloc_defs)
qed

lemma later_objects:
  assumes "later s0 s"
  shows "later s0 (snd (reject_call p e s))" "later s0 (snd (resolve_call p v s))"
    "later s0 (snd (respond_subscribe p sv s))" "later s0 (snd (respond_unsubscribe p s))"
    "later s0 (snd (respond_register p rv s))"
  by (rule later_step [OF assms];
      (rule board_objects | rule bounded_updates, assumption
        | simp add: object_defs split: option.splits prod.splits))+

lemma later_released:
  assumes "later s0 s"
  shows "later s0 (release_call p s)" "later s0 (release_subscribe p s)"
    "later s0 (release_unsubscribe p s)" "later s0 (release_register p s)" "later s0 (destroy_session s)"
  by (rule later_step [OF assms];
      (rule board_released board_destroyed | rule bounded_released, assumption | simp add: release_defs))+

lemma later_entered:
  assumes "later s0 s"
  shows "later s0 (enter_call r p s)" "later s0 (enter_subscribe r p s)"
    "later s0 (enter_unsubscribe r p s)" "later s0 (enter_register r p s)"
  using assms later_emplace [OF assms, of r p]
  by (auto simp: enter_defs later_released intro: later_fields [OF assms])

lemma later_stop_task: "later s0 s \<Longrightarrow> later s0 (snd (stop_task s))"
  by (auto simp: stop_task_def intro!: later_settled elim!: later_fields)

lemma later_send: "later s0 s \<Longrightarrow> later s0 (snd (send mp b s))"
  by (erule later_fields) simp_all

lemma later_leave_task: "later s0 s \<Longrightarrow> later s0 (snd (leave_task mp b s))"
  by (auto simp: leave_task_def intro!: later_send elim!: later_fields)

lemma later_opened:
  "later s0 s \<Longrightarrow> later s0 (snd (and_then (update (\<lambda>s. s\<lparr>m_session_id := i\<rparr>)) (on_join (set_value i)) s))"
  by (auto simp: action_defs intro!: later_settled elim!: later_fields)

lemma later_fresh:
  assumes "later s0 s"
  shows "later s0 (snd (call_task mp r p b (snd (alloc_call s))))"
    and "later s0 (snd (subscribe_task mp r p b (snd (alloc_subscribe h s))))"
    and "later s0 (snd (unsubscribe_task mp r p b (snd (alloc_unsubscribe s))))"
    and "later s0 (snd (provide_task mp r p b (snd (alloc_register g s))))"
  using later_allocs [OF assms] by (simp_all add: task_defs later_released later_entered later_send)

interpretation later: message_updates mp "later s0" for mp s0
proof unfold_locales
  fix s p iv assume "later s0 s" and "heap_invocations s p = Some iv"
  then show "later s0 (s\<lparr>heap_invocations := (heap_invocations s)(p \<mapsto> iv\<lparr>inv_send_result_fn := None\<rparr>)\<rparr>)"
    by (rule_tac later_fields) auto
qed (auto simp: keeps_def later_send later_stop_task later_leave_task later_futures later_settled
      later_allocs later_objects later_fresh later_entered later_released later_opened elim!: later_fields)

lemma later_task: "later s0 s \<Longrightarrow> later s0 (snd (run_task mp t s))"
  by (cases t)
    (simp_all add: later_stop_task later_leave_task,
     simp_all add: task_defs later_send later_entered later_released)

lemma later_next_task: "later s0 s \<Longrightarrow> later s0 (snd (run_next_task mp s))"
  by (auto simp: run_next_task_def intro!: later_task elim!: later_fields split: list.split)

lemma later_start: "later s0 s \<Longrightarrow> later s0 (snd (start s))"
proof -
  obtain r os where w: "asio_write handshake_request (m_out s) = (r, os)" by fastforce
  assume "later s0 s"
  with w show ?thesis
    by (cases r) (auto simp: start_def action_defs on_out_def intro!: later_futures elim!: later_fields)
qed

interpretation later: step_invariant mp "later s0" for mp s0
  by unfold_locales
    (auto simp: keeps_def later_start later_next_task later_settled later_released elim!: later_fields)

lemma run_steps: "run mp u ms s = Some s' \<Longrightarrow> (session_step mp u)\<^sup>*\<^sup>* s s'"
  by (induction ms arbitrary: s)
    (auto split: option.splits dest: do_step_sound intro: converse_rtranclp_into_rtranclp)

lemma run_append: "run mp u (ms @ ns) s = Option.bind (run mp u ms s) (run mp u ns)"
  by (induction ms arbitrary: s) (simp_all split: option.split)

lemma after_run_steps:
  assumes "enabled mp u (ms @ ns)"
  shows "(session_step mp u)\<^sup>*\<^sup>* (after_run mp u ms) (after_run mp u (ms @ ns))"
  using assms run_steps
  by (fastforce simp: enabled_def after_run_def run_append Option.is_none_def split: bind_splits)

lemma reachable_bounded: "reachable mp u s \<Longrightarrow> heap_bounded s"
  using requests.reachable_P by (auto simp: requests_ok_def tables_ok_def)

text \<open>C5: A future is resolved once and for all.  From any reachable session, whatever the application, the
  router and the network do, even when requests are refused and the session is destroyed: no future disappears, one that has been resolved keeps its outcome,
  and the entries of calls and registrations stay in their tables.\<close>

theorem resolved_futures_final:
  assumes "reachable mp u s" and "(session_step mp u)\<^sup>*\<^sup>* s s'"
  shows "(\<forall>f x. board s f = Some x \<longrightarrow> (\<exists>y. board s' f = Some y \<and> (x \<noteq> Unresolved \<longrightarrow> y = x))) \<and>
    m_calls s \<subseteq>\<^sub>m m_calls s' \<and> m_register_requests s \<subseteq>\<^sub>m m_register_requests s'"
proof -
  have "later s s" by (rule later_self [OF reachable_bounded [OF assms(1)]])
  then have "later s s'"
    using later.steps_P [OF assms(2)] by blast
  then have "extends (board s) (board s')" and tables: "m_calls s \<subseteq>\<^sub>m m_calls s'"
    "m_register_requests s \<subseteq>\<^sub>m m_register_requests s'" by (simp_all add: later_def)
  then have "\<exists>y. board s' f = Some y \<and> (x \<noteq> Unresolved \<longrightarrow> y = x)" if "board s f = Some x" for f x
    using that by (cases "board s' f = board s f") (auto simp: extends_def dest!: spec [of _ f])
  with tables show ?thesis by blast
qed

text \<open>A joined session and the same session after it has left and stopped: the router's id is kept.\<close>

theorem resolved_futures_final_witness:
  "board (demo []) Join_Future = Some (Joined_As 7) \<and>
   board (demo [Do_Api True (Api_Leave ''bye''), Do_Api True Api_Stop]) Join_Future = Some (Joined_As 7)"
proof -
  let ?moves = "[Do_Api True (Api_Leave ''bye''), Do_Api True Api_Stop]"
  have "enabled demo_mp silent_user (join_moves @ [])" by code_simp
  then have reach: "reachable demo_mp silent_user (demo [])" by (rule demo_reachable)
  have "enabled demo_mp silent_user (join_moves @ ?moves)" by code_simp
  then have steps: "(session_step demo_mp silent_user)\<^sup>*\<^sup>* (demo []) (demo ?moves)"
    unfolding demo_def using after_run_steps by fastforce
  have joined: "board (demo []) Join_Future = Some (Joined_As 7)" by code_simp
  with resolved_futures_final [OF reach steps] show ?thesis by fastforce
qed

section \<open>Only its answer resolves a request\<close>

fun of_request :: "future \<Rightarrow> bool" where
  "of_request (Call_Future p) = True"
| "of_request (Subscribe_Future p) = True"
| "of_request (Unsubscribe_Future p) = True"
| "of_request (Register_Future p) = True"
| "of_request f = False"

definition open_on :: "future \<Rightarrow> session \<Rightarrow> bool" where
  "open_on f s \<longleftrightarrow> heap_bounded s \<and> (of_request f \<longrightarrow> board s f = Some Unresolved)"

text \<open>What a message must say to answer the request behind a future: its code, and the request id.\<close>

definition carries_code :: "msgpack \<Rightarrow> wamp_message \<Rightarrow> nat \<Rightarrow> message_type \<Rightarrow> bool" where
  "carries_code mp message n t \<longleftrightarrow> n < length message \<and>
     Option.bind (as_int mp (message ! n)) message_type_of = Some t"

definition names_request :: "msgpack \<Rightarrow> wamp_message \<Rightarrow> nat \<Rightarrow> (u64 \<rightharpoonup> nat) \<Rightarrow> nat \<Rightarrow> bool" where
  "names_request mp message n table p \<longleftrightarrow> n < length message \<and>
     Option.bind (as_uint64 mp (message ! n)) table = Some p"

fun answers :: "msgpack \<Rightarrow> session \<Rightarrow> wamp_message \<Rightarrow> future \<Rightarrow> bool" where
  "answers mp s message (Call_Future p) =
     (carries_code mp message 0 RESULT \<and> names_request mp message 1 (m_calls s) p \<or>
      carries_code mp message 0 ERROR \<and> carries_code mp message 1 CALL \<and> names_request mp message 2 (m_calls s) p)"
| "answers mp s message (Subscribe_Future p) =
     (carries_code mp message 0 SUBSCRIBED \<and> names_request mp message 1 (m_subscribe_requests s) p)"
| "answers mp s message (Unsubscribe_Future p) =
     (carries_code mp message 0 UNSUBSCRIBED \<and> names_request mp message 1 (m_unsubscribe_requests s) p)"
| "answers mp s message (Register_Future p) =
     (carries_code mp message 0 REGISTERED \<and> names_request mp message 1 (m_register_requests s) p)"
| "answers mp s message f = False"

lemma open_fields:
  assumes "open_on f s" and "heap_calls s' = heap_calls s"
    and "heap_subscribes s' = heap_subscribes s" and "heap_unsubscribes s' = heap_unsubscribes s"
    and "heap_registers s' = heap_registers s" and "dom (heap_invocations s') = dom (heap_invocations s)"
    and "heap_next s' = heap_next s"
  shows "open_on f s'"
proof -
  have "heap_invocations s' p = None \<longleftrightarrow> heap_invocations s p = None" for p
    using assms(6) by (metis domIff)
  then have "heap_bounded s' = heap_bounded s" using assms(2-5,7) by (simp add: heap_bounded_def)
  with assms(1-5) show ?thesis by (cases f) (simp_all add: open_on_def)
qed

lemma open_promises:
  assumes "open_on f s"
  shows "open_on f (snd (on_handshake g1 s))" "open_on f (snd (on_join g2 s))"
    "open_on f (snd (on_leave g3 s))" "open_on f (snd (on_stop g4 s))"
  by (rule open_fields [OF assms]; simp add: on_promise_defs split: prod.splits)+

lemma open_allocs:
  assumes "open_on f s"
  shows "open_on f (snd (alloc_call s))" "open_on f (snd (alloc_subscribe h s))"
    "open_on f (snd (alloc_unsubscribe s))" "open_on f (snd (alloc_register g s))"
    "open_on f (snd (alloc_invocation iv s))"
proof -
  have b: "heap_bounded s" using assms by (simp add: open_on_def)
  show "open_on f (snd (alloc_call s))" "open_on f (snd (alloc_subscribe h s))"
    "open_on f (snd (alloc_unsubscribe s))" "open_on f (snd (alloc_register g s))"
    "open_on f (snd (alloc_invocation iv s))"
    using assms b
    by (cases f; simp add: open_on_def bounded_updates; auto simp: alloc_defs heap_bounded_def
        new_call_def new_subscribe_request_def new_unsubscribe_request_def new_register_request_def)+
qed

text \<open>Entering or releasing another object.\<close>

lemma open_released:
  assumes "open_on f s"
  shows "f \<noteq> Call_Future p \<Longrightarrow> open_on f (release_call p s)"
    and "f \<noteq> Subscribe_Future p \<Longrightarrow> open_on f (release_subscribe p s)"
    and "f \<noteq> Unsubscribe_Future p \<Longrightarrow> open_on f (release_unsubscribe p s)"
    and "f \<noteq> Register_Future p \<Longrightarrow> open_on f (release_register p s)"
  using assms
  by (cases f; simp add: open_on_def bounded_released; auto simp: release_defs)+

lemma open_entered:
  assumes "open_on f s"
  shows "f \<noteq> Call_Future p \<Longrightarrow> open_on f (enter_call r p s)"
    and "f \<noteq> Subscribe_Future p \<Longrightarrow> open_on f (enter_subscribe r p s)"
    and "f \<noteq> Unsubscribe_Future p \<Longrightarrow> open_on f (enter_unsubscribe r p s)"
    and "f \<noteq> Register_Future p \<Longrightarrow> open_on f (enter_register r p s)"
  using open_fields [OF assms] by (simp_all add: enter_defs open_released [OF assms])

lemma open_send: "open_on f s \<Longrightarrow> open_on f (snd (send mp b s))"
  by (erule open_fields) simp_all

lemma open_fresh:
  assumes "open_on f s"
  shows "open_on f (snd (call_task mp r (heap_next s) b (snd (alloc_call s))))"
    and "open_on f (snd (subscribe_task mp r (heap_next s) b (snd (alloc_subscribe h s))))"
    and "open_on f (snd (unsubscribe_task mp r (heap_next s) b (snd (alloc_unsubscribe s))))"
    and "open_on f (snd (provide_task mp r (heap_next s) b (snd (alloc_register g s))))"
proof -
  have fresh: "f \<noteq> Call_Future (heap_next s)" "f \<noteq> Subscribe_Future (heap_next s)"
    "f \<noteq> Unsubscribe_Future (heap_next s)" "f \<noteq> Register_Future (heap_next s)"
    using assms by (auto simp: open_on_def heap_bounded_def)
  note new = open_allocs [OF assms]
  show "open_on f (snd (call_task mp r (heap_next s) b (snd (alloc_call s))))"
    by (simp add: task_defs fresh open_released(1) [OF new(1)] open_entered(1) [OF new(1)] open_send)
  show "open_on f (snd (subscribe_task mp r (heap_next s) b (snd (alloc_subscribe h s))))"
    by (simp add: task_defs fresh open_released(2) [OF new(2)] open_entered(2) [OF new(2)] open_send)
  show "open_on f (snd (unsubscribe_task mp r (heap_next s) b (snd (alloc_unsubscribe s))))"
    by (simp add: task_defs fresh open_released(3) [OF new(3)] open_entered(3) [OF new(3)] open_send)
  show "open_on f (snd (provide_task mp r (heap_next s) b (snd (alloc_register g s))))"
    by (simp add: task_defs fresh open_released(4) [OF new(4)] open_entered(4) [OF new(4)] open_send)
qed

interpretation open_request: api_updates mp "open_on f" for mp f
proof unfold_locales
  fix s p iv assume "open_on f s" and "heap_invocations s p = Some iv"
  then show "open_on f (s\<lparr>heap_invocations := (heap_invocations s)(p \<mapsto> iv\<lparr>inv_send_result_fn := None\<rparr>)\<rparr>)"
    by (rule_tac open_fields) auto
next
  show "keeps (open_on f) (send mp b)" for b
    by (rule keepsI, erule open_fields) simp_all
  show "keeps (open_on f) (leave_task mp b)" for b
    by (rule keepsI, erule open_fields) (simp_all add: leave_task_def)
  show "keeps (open_on f) stop_task"
    by (rule keepsI, erule open_fields) (simp_all add: stop_task_def on_stop_def split: prod.splits)
qed (auto simp: keeps_def open_promises open_allocs open_fresh elim!: open_fields)

named_theorems open_intros "introduction rules for leaves_open"

definition leaves_open :: "future \<Rightarrow> (session, 'a) action \<Rightarrow> session \<Rightarrow> bool" where
  "leaves_open f m s \<longleftrightarrow> open_on f (snd (m s))"

lemma leaves_open_keeps: "open_on f s \<Longrightarrow> keeps (open_on f) m \<Longrightarrow> leaves_open f m s"
  by (simp add: leaves_open_def keepsD)

lemma leaves_open_basic [open_intros]:
  "open_on f s \<Longrightarrow> leaves_open f (raise e) s"
  "open_on f s \<Longrightarrow> leaves_open f (ret v) s"
  "open_on f s \<Longrightarrow> leaves_open f (lift_result r) s"
  by (rule leaves_open_keeps; auto intro: keep_intros)+

lemma leaves_open_bind [open_intros]:
  "open_on f s \<Longrightarrow> (\<And>v. r = Ok v \<Longrightarrow> leaves_open f (g v) s) \<Longrightarrow>
   leaves_open f (bind_act (lift_result r) g) s"
  by (cases r) (simp_all add: leaves_open_def bind_act_def lift_result_def)

lemma leaves_open_element [open_intros]:
  "open_on f s \<Longrightarrow> (n < length message \<Longrightarrow> leaves_open f (g (message ! n)) s) \<Longrightarrow>
   leaves_open f (bind_act (element_at message n) g) s"
  by (cases "n < length message") (simp_all add: element_at_def leaves_open_def bind_act_def lift_result_def)

lemma leaves_open_with_state [open_intros]: "leaves_open f (g s) s \<Longrightarrow> leaves_open f (with_state g) s"
  by (simp add: leaves_open_def with_state_def)

lemma leaves_open_if [open_intros]:
  "(b \<Longrightarrow> leaves_open f m s) \<Longrightarrow> (\<not> b \<Longrightarrow> leaves_open f n s) \<Longrightarrow> leaves_open f (if b then m else n) s"
  by simp

lemma leaves_open_option [open_intros]:
  "(x = None \<Longrightarrow> leaves_open f m s) \<Longrightarrow> (\<And>v. x = Some v \<Longrightarrow> leaves_open f (g v) s) \<Longrightarrow>
   leaves_open f (case x of None \<Rightarrow> m | Some v \<Rightarrow> g v) s"
  by (cases x) simp_all

text \<open>Filling another object leaves the request open.\<close>

lemma open_objects:
  "f \<noteq> Call_Future p \<Longrightarrow> keeps (open_on f) (reject_call p e)"
  "f \<noteq> Call_Future p \<Longrightarrow> keeps (open_on f) (resolve_call p v)"
  "f \<noteq> Subscribe_Future p \<Longrightarrow> keeps (open_on f) (respond_subscribe p sv)"
  "f \<noteq> Unsubscribe_Future p \<Longrightarrow> keeps (open_on f) (respond_unsubscribe p)"
  "f \<noteq> Register_Future p \<Longrightarrow> keeps (open_on f) (respond_register p rv)"
  by (rule keepsI, simp add: open_on_def bounded_updates, cases f;
      auto simp: object_defs split: option.splits prod.splits)+

lemma open_updates:
  "open_on f s \<Longrightarrow> open_on f (s\<lparr>m_subscription_handlers := hs\<rparr>)"
  "open_on f s \<Longrightarrow> open_on f (s\<lparr>m_procedures := ps\<rparr>)"
  "open_on f s \<Longrightarrow> open_on f (s\<lparr>m_subscribe_requests := t\<rparr>)"
  "open_on f s \<Longrightarrow> open_on f (s\<lparr>m_unsubscribe_requests := t\<rparr>)"
  "open_on f s \<Longrightarrow> open_on f (s\<lparr>m_session_id := i\<rparr>)"
  by (erule open_fields; simp)+

lemma other_answer:
  assumes "\<not> answers mp s message f"
  shows "carries_code mp message 0 RESULT \<Longrightarrow> names_request mp message 1 (m_calls s) p \<Longrightarrow> f \<noteq> Call_Future p"
    and "carries_code mp message 0 ERROR \<Longrightarrow> carries_code mp message 1 CALL \<Longrightarrow>
      names_request mp message 2 (m_calls s) p \<Longrightarrow> f \<noteq> Call_Future p"
    and "carries_code mp message 0 SUBSCRIBED \<Longrightarrow> names_request mp message 1 (m_subscribe_requests s) p \<Longrightarrow>
      f \<noteq> Subscribe_Future p"
    and "carries_code mp message 0 UNSUBSCRIBED \<Longrightarrow>
      names_request mp message 1 (m_unsubscribe_requests s) p \<Longrightarrow> f \<noteq> Unsubscribe_Future p"
    and "carries_code mp message 0 REGISTERED \<Longrightarrow> names_request mp message 1 (m_register_requests s) p \<Longrightarrow>
      f \<noteq> Register_Future p"
  using assms by auto

lemma handlers_leave_open:
  assumes "open_on f s" and "\<not> answers mp s message f"
  shows "carries_code mp message 0 RESULT \<Longrightarrow> leaves_open f (process_call_result mp message z) s"
    and "carries_code mp message 0 ERROR \<Longrightarrow> leaves_open f (process_error mp message) s"
    and "carries_code mp message 0 SUBSCRIBED \<Longrightarrow> leaves_open f (process_subscribed mp message) s"
    and "carries_code mp message 0 UNSUBSCRIBED \<Longrightarrow> leaves_open f (process_unsubscribed mp message) s"
    and "carries_code mp message 0 REGISTERED \<Longrightarrow> leaves_open f (process_registered mp message) s"
proof -
  note other = other_answer [OF assms(2)]
  note step = open_intros assms(1)
  show "leaves_open f (process_call_result mp message z) s" if "carries_code mp message 0 RESULT"
    unfolding process_call_result_def receive_defs
    by (intro step leaves_open_keeps [OF assms(1) open_objects(2)] other(1) that)
      (simp add: names_request_def)
  show "leaves_open f (process_error mp message) s" if "carries_code mp message 0 ERROR"
    unfolding process_error_def receive_defs Let_def
    by (intro step leaves_open_keeps [OF assms(1) open_objects(1)] other(2) that)
      (simp_all add: names_request_def carries_code_def)
  show "leaves_open f (process_subscribed mp message) s" if "carries_code mp message 0 SUBSCRIBED"
    unfolding process_subscribed_def receive_defs
    by (intro step leaves_open_keeps [OF assms(1)] keep_intros keeps_update open_objects(3) open_updates
        other(3) that) (simp_all add: names_request_def)
  show "leaves_open f (process_unsubscribed mp message) s" if "carries_code mp message 0 UNSUBSCRIBED"
    unfolding process_unsubscribed_def receive_defs
    by (intro step leaves_open_keeps [OF assms(1)] keep_intros keeps_update open_objects(4) open_updates
        other(4) that) (simp_all add: names_request_def)
  show "leaves_open f (process_registered mp message) s" if "carries_code mp message 0 REGISTERED"
    unfolding process_registered_def receive_defs
    by (intro step leaves_open_keeps [OF assms(1)] keep_intros keeps_update open_objects(5) open_updates
        other(5) that) (simp_all add: names_request_def)
qed

lemma open_promise_keeps:
  "keeps (open_on f) (on_handshake g1)" "keeps (open_on f) (on_join g2)"
  "keeps (open_on f) (on_leave g3)" "keeps (open_on f) (on_stop g4)"
  by (simp_all add: keeps_def open_promises)

lemma session_handlers_keep:
  "keeps (open_on f) (process_welcome mp message)" "keeps (open_on f) (process_goodbye mp message)"
  unfolding process_welcome_def process_goodbye_def receive_defs
  by (intro keep_intros keeps_update open_updates open_promise_keeps keepsI open_request.send_client
      client_messages; assumption)+

lemma message_leaves_open:
  assumes "open_on f s" and "\<not> answers mp s message f" and "carries_code mp message 0 t"
  shows "leaves_open f (process_message mp u t message z) s"
  using handlers_leave_open [OF assms(1,2)] assms(3)
  by (cases t)
    (simp_all add: unexpected_def not_implemented_def protocol_error_def leaves_open_basic assms(1)
      leaves_open_keeps [OF assms(1)] session_handlers_keep open_request.process_event_P
      open_request.process_invocation_P)

lemma got_message_leaves_open:
  assumes "open_on f s" and "\<And>message. v = ARRAY message \<Longrightarrow> \<not> answers mp s message f"
  shows "leaves_open f (got_message mp u v z) s"
proof (cases v)
  case (ARRAY message)
  then show ?thesis
    unfolding got_message_def receive_defs
    by (simp, intro conjI impI open_intros assms(1) message_leaves_open assms(2))
      (simp_all add: carries_code_def)
qed (simp_all add: got_message_def protocol_error_def leaves_open_basic assms(1))

lemma rx_error_keeps_open: "keeps (open_on f) (handle_rx_error mp e)"
  unfolding handle_rx_error_def
  by (intro keep_intros open_promise_keeps open_request.leave_P open_request.stop_P keeps_update)
    (erule open_fields; simp)

lemma receive_keeps_open: "keeps (open_on f) receive_message"
  unfolding receive_message_def by (rule keeps_update) (erule open_fields; simp)

lemma other_reads_keep_open:
  "keeps (open_on f) (on_read mp u Read_Handshake outcome)"
  "keeps (open_on f) (on_read mp u Read_Header outcome)"
  "keeps (open_on f) (on_read mp u Read_Body (Read_Failed e))"
  by (cases outcome;
      simp add: got_handshake_reply_def got_message_header_def got_message_body_def protocol_error_def;
      intro keep_intros keeps_update open_promise_keeps receive_keeps_open rx_error_keeps_open;
      (erule open_fields; simp)?)+

text \<open>
  The request whose object a queued function holds, and what makes the function let go of it: the
  session is gone or not joined, or another request has the id.
\<close>

fun captured_future :: "task \<Rightarrow> future option" where
  "captured_future (Call_Task r p b) = Some (Call_Future p)"
| "captured_future (Subscribe_Task r p b) = Some (Subscribe_Future p)"
| "captured_future (Unsubscribe_Task r p b) = Some (Unsubscribe_Future p)"
| "captured_future (Provide_Task r p b) = Some (Register_Future p)"
| "captured_future t = None"

fun id_in_use :: "session \<Rightarrow> task \<Rightarrow> bool" where
  "id_in_use s (Call_Task r p b) = (m_calls s r \<noteq> None)"
| "id_in_use s (Subscribe_Task r p b) = (m_subscribe_requests s r \<noteq> None)"
| "id_in_use s (Unsubscribe_Task r p b) = (m_unsubscribe_requests s r \<noteq> None)"
| "id_in_use s (Provide_Task r p b) = (m_register_requests s r \<noteq> None)"
| "id_in_use s t = False"

definition broken :: outcome where
  "broken = Failed (Library_Error Broken_Promise)"

lemma run_task_outcome:
  assumes "open_on f s" and "of_request f"
  shows "board (snd (run_task mp t s)) f =
    (if captured_future t = Some f \<and> (\<not> alive s \<or> m_session_id s = 0 \<or> id_in_use s t)
     then Some broken else Some Unresolved)"
proof -
  have kept: "open_on f s' \<Longrightarrow> board s' f = Some Unresolved" for s'
    using assms(2) by (simp add: open_on_def)
  show ?thesis
  proof (cases "captured_future t = Some f")
    case True
    with assms show ?thesis
      by (cases t; clarsimp simp: open_on_def task_defs enter_defs release_defs destroy_defs broken_def)
  next
    case False
    have "open_on f (snd (run_task mp t s))"
    proof (cases "captured t = []")
      case True
      then show ?thesis
        by (cases t)
          (auto simp: captured_def task_defs on_stop_def intro!: open_fields [OF assms(1)] split: prod.splits)
    next
      case holds: False
      with False show ?thesis
        by (cases t) (auto simp: captured_def task_defs
            intro!: open_released [OF assms(1)] open_entered [OF assms(1)] open_send)
    qed
    with False kept show ?thesis by simp
  qed
qed

lemma next_task_outcome:
  assumes "open_on f s" and "of_request f"
  shows "board (snd (run_next_task mp s)) f =
    (case io_queue s of
       [] \<Rightarrow> Some Unresolved
     | t # ts \<Rightarrow> if captured_future t = Some f \<and> (\<not> alive s \<or> m_session_id s = 0 \<or> id_in_use s t)
                then Some broken else Some Unresolved)"
proof (cases "io_queue s")
  case (Cons t ts)
  have "open_on f (s\<lparr>io_queue := ts\<rparr>)" by (rule open_fields [OF assms(1)]) simp_all
  moreover have "id_in_use (s\<lparr>io_queue := ts\<rparr>) t = id_in_use s t" by (cases t) simp_all
  ultimately show ?thesis
    using Cons assms(2) by (simp add: run_next_task_def run_task_outcome)
qed (use assms in \<open>simp add: run_next_task_def open_on_def\<close>)

lemma held_futures:
  "p \<in> set (concat (map call_ptr q)) \<longleftrightarrow> (\<exists>t \<in> set q. captured_future t = Some (Call_Future p))"
  "p \<in> set (concat (map subscribe_ptr q)) \<longleftrightarrow> (\<exists>t \<in> set q. captured_future t = Some (Subscribe_Future p))"
  "p \<in> set (concat (map unsubscribe_ptr q)) \<longleftrightarrow> (\<exists>t \<in> set q. captured_future t = Some (Unsubscribe_Future p))"
  "p \<in> set (concat (map register_ptr q)) \<longleftrightarrow> (\<exists>t \<in> set q. captured_future t = Some (Register_Future p))"
proof -
  have "p \<in> set (call_ptr t) \<longleftrightarrow> captured_future t = Some (Call_Future p)"
    "p \<in> set (subscribe_ptr t) \<longleftrightarrow> captured_future t = Some (Subscribe_Future p)"
    "p \<in> set (unsubscribe_ptr t) \<longleftrightarrow> captured_future t = Some (Unsubscribe_Future p)"
    "p \<in> set (register_ptr t) \<longleftrightarrow> captured_future t = Some (Register_Future p)" for t
    by (cases t; auto)+
  then show "p \<in> set (concat (map call_ptr q)) \<longleftrightarrow> (\<exists>t \<in> set q. captured_future t = Some (Call_Future p))"
    "p \<in> set (concat (map subscribe_ptr q)) \<longleftrightarrow> (\<exists>t \<in> set q. captured_future t = Some (Subscribe_Future p))"
    "p \<in> set (concat (map unsubscribe_ptr q)) \<longleftrightarrow> (\<exists>t \<in> set q. captured_future t = Some (Unsubscribe_Future p))"
    "p \<in> set (concat (map register_ptr q)) \<longleftrightarrow> (\<exists>t \<in> set q. captured_future t = Some (Register_Future p))"
    by auto
qed

lemma destroyed_outcome:
  assumes "open_on f s" and "of_request f"
  shows "board (destroy_session s) f =
    (if \<exists>t \<in> set (io_queue s). captured_future t = Some f then Some Unresolved else Some broken)"
  using assms
  by (cases f)
    (auto simp: open_on_def destroy_session_def release_all_def destroy_defs broken_def held_futures
      simp del: set_concat set_map)

lemma open_start: "open_on f s \<Longrightarrow> open_on f (snd (start s))"
proof -
  obtain r os where w: "asio_write handshake_request (m_out s) = (r, os)" by fastforce
  assume "open_on f s"
  with w show ?thesis
    by (cases r) (auto simp: start_def action_defs on_out_def intro!: open_promises elim!: open_fields)
qed

lemma open_other_read:
  assumes "open_on f s" and "op \<noteq> Read_Body \<or> outcome = Read_Failed e"
  shows "open_on f (snd (complete_read mp u outcome (s\<lparr>pending_reads := op # ops\<rparr>)))"
proof -
  have "keeps (open_on f) (on_read mp u op outcome)"
    using other_reads_keep_open assms(2) by (cases op) auto
  moreover have "open_on f (s\<lparr>pending_reads := ops\<rparr>)" using assms(1) by (rule open_fields) simp_all
  ultimately show ?thesis by (simp add: complete_read_def keepsD)
qed

text \<open>C6: What resolves the future of an open request, in every reachable session.  A received message does so
  only when it has the code that answers this kind of request (for a call RESULT, or ERROR of a CALL)
  and names the id under which the request was entered.  Whatever the application calls, however it
  answers invocations and however a read other than that of a message ends, the future stays open.
  A queued function leaves it open too, with one exception: the function that holds the request
  itself breaks its promise when the session is gone or not joined or another request has the id, so
  that the future fails with \<open>broken_promise\<close>.  Destroying the session breaks the promise of every
  open request, except those still held by queued functions.\<close>

theorem only_answers_resolve:
  assumes "reachable mp u s" and "of_request f" and "board s f = Some Unresolved"
  shows "(\<forall>v z. board (snd (got_message mp u v z s)) f \<noteq> Some Unresolved \<longrightarrow>
      (\<exists>message. v = ARRAY message \<and> answers mp s message f)) \<and>
    (\<forall>inline c. board (snd (run_api mp inline c s)) f = Some Unresolved) \<and>
    (\<forall>inline p rep. board (snd (invocation_reply mp inline p rep s)) f = Some Unresolved) \<and>
    board (snd (start s)) f = Some Unresolved \<and>
    (\<forall>op ops outcome. op \<noteq> Read_Body \<or> (\<exists>e. outcome = Read_Failed e) \<longrightarrow>
      board (snd (complete_read mp u outcome (s\<lparr>pending_reads := op # ops\<rparr>))) f = Some Unresolved) \<and>
    board (snd (run_next_task mp s)) f =
      (case io_queue s of
         [] \<Rightarrow> Some Unresolved
       | t # ts \<Rightarrow> if captured_future t = Some f \<and> (\<not> alive s \<or> m_session_id s = 0 \<or> id_in_use s t)
                  then Some (Failed (Library_Error Broken_Promise)) else Some Unresolved) \<and>
    board (destroy_session s) f =
      (if \<exists>t \<in> set (io_queue s). captured_future t = Some f then Some Unresolved
       else Some (Failed (Library_Error Broken_Promise)))"
proof -
  have s: "open_on f s" using assms reachable_bounded by (simp add: open_on_def)
  have kept: "board s' f = Some Unresolved" if "open_on f s'" for s'
    using that assms(2) by (simp add: open_on_def)
  have messages: "\<exists>message. v = ARRAY message \<and> answers mp s message f"
    if "board (snd (got_message mp u v z s)) f \<noteq> Some Unresolved" for v z
    using got_message_leaves_open [OF s, unfolded leaves_open_def] kept that by metis
  have reads: "open_on f (snd (complete_read mp u outcome (s\<lparr>pending_reads := op # ops\<rparr>)))"
    if "op \<noteq> Read_Body \<or> (\<exists>e. outcome = Read_Failed e)" for op ops outcome
    using that open_other_read [OF s] by blast
  show ?thesis
    by (intro conjI allI impI messages kept [OF reads] kept [OF keepsD [OF open_request.run_api_P s]]
        kept [OF keepsD [OF open_request.reply_P s]] kept [OF open_start [OF s]]
        next_task_outcome [OF s assms(2), unfolded broken_def]
        destroyed_outcome [OF s assms(2), unfolded broken_def])
qed

text \<open>
  A RESULT under another id leaves the call open; a call queued in a session that is not joined breaks.
\<close>

theorem only_answers_resolve_witness:
  "board (snd (got_message demo_mp silent_user (ARRAY [POSITIVE_INTEGER 50, POSITIVE_INTEGER 2, MAP []]) 0
      (demo [Do_Api True (Api_Call ''add'')]))) (Call_Future 0) = Some Unresolved \<and>
   board (snd (run_next_task demo_mp
      (after_run demo_mp silent_user [Do_Api False (Api_Call ''add'')]))) (Call_Future 0) =
     Some (Failed (Library_Error Broken_Promise))"
proof
  let ?message = "[POSITIVE_INTEGER 50, POSITIVE_INTEGER 2, MAP []]"
  let ?s = "demo [Do_Api True (Api_Call ''add'')]"
  have "enabled demo_mp silent_user (join_moves @ [Do_Api True (Api_Call ''add'')])" by code_simp
  then have reach: "reachable demo_mp silent_user ?s" by (rule demo_reachable)
  have "of_request (Call_Future 0)" "board ?s (Call_Future 0) = Some Unresolved" by code_simp+
  note only = only_answers_resolve [OF reach this, THEN conjunct1]
  have other: "\<not> answers demo_mp ?s ?message (Call_Future 0)" by code_simp
  show "board (snd (got_message demo_mp silent_user (ARRAY ?message) 0 ?s)) (Call_Future 0) = Some Unresolved"
  proof (rule ccontr)
    assume "\<not> ?thesis"
    then obtain message where "ARRAY ?message = ARRAY message" "answers demo_mp ?s message (Call_Future 0)"
      using only by blast
    with other show False by (simp del: answers.simps)
  qed
next
  let ?s = "after_run demo_mp silent_user [Do_Api False (Api_Call ''add'')]"
  have "enabled demo_mp silent_user [Do_Api False (Api_Call ''add'')]" by code_simp
  then have reach: "reachable demo_mp silent_user ?s" by (rule after_run_reachable)
  have "of_request (Call_Future 0)" "board ?s (Call_Future 0) = Some Unresolved" by code_simp+
  note only = only_answers_resolve [OF reach this]
  have "map captured_future (io_queue ?s) = [Some (Call_Future 0)]" "m_session_id ?s = 0" by code_simp+
  with only show "board (snd (run_next_task demo_mp ?s)) (Call_Future 0) =
      Some (Failed (Library_Error Broken_Promise))"
    by (auto simp: Cons_eq_map_conv map_eq_Cons_conv)
qed

end
