(* ===== verification/Ip_Address.thy ===== *)
theory Ip_Address
  imports Prelude
begin

text \<open>
  IPv4 addresses as the library and the backplane example use them.  \<open>boost::asio::ip::address\<close> is
  a library type: the conversions from and to text are the parameter \<open>ip_library\<close>, which \<open>ip_ok\<close>
  requires to agree with the dotted decimal notation that \<open>inet_ntoa\<close> writes.  Addresses are
  ordered by their value, as in a \<open>std::set\<close>.
\<close>

type_synonym ipv4 = u32
type_synonym port = "16 word"

definition octet :: "nat \<Rightarrow> ipv4 \<Rightarrow> nat" where
  "octet k a = unat (drop_bit (8 * k) a) mod 256"

definition dotted :: "ipv4 \<Rightarrow> string" where
  "dotted a = decimal (octet 3 a) @ ''.'' @ decimal (octet 2 a) @ ''.'' @ decimal (octet 1 a) @
     ''.'' @ decimal (octet 0 a)"

record ip_library =
  from_string :: "string \<Rightarrow> ipv4 option"
  address_text :: "ipv4 \<Rightarrow> string"

definition ip_ok :: "ip_library \<Rightarrow> bool" where
  "ip_ok lib \<longleftrightarrow> (\<forall>a. from_string lib (dotted a) = Some a) \<and> (\<forall>a. address_text lib a = dotted a)"

lemma ip_ok_simps:
  assumes "ip_ok lib"
  shows "from_string lib (dotted a) = Some a" and "address_text lib a = dotted a"
  using assms by (simp_all add: ip_ok_def)

section \<open>An instance\<close>

text \<open>Splitting a text at a separator, and reading decimal digits.\<close>

fun split_at :: "char \<Rightarrow> string \<Rightarrow> string list" where
  "split_at c [] = [[]]"
| "split_at c (x # xs) =
     (if x = c then [] # split_at c xs
      else case split_at c xs of [] \<Rightarrow> [[x]] | w # ws \<Rightarrow> (x # w) # ws)"

lemma split_at_not_Nil [simp]: "split_at c xs \<noteq> []"
  by (induction c xs rule: split_at.induct) (auto split: list.splits)

lemma split_at_word: "c \<notin> set w \<Longrightarrow> split_at c w = [w]"
  by (induction w) auto

lemma split_at_append: "c \<notin> set w \<Longrightarrow> split_at c (w @ c # xs) = w # split_at c xs"
  by (induction w) auto

definition digit_value :: "char \<Rightarrow> nat option" where
  "digit_value c = (let n = of_char c in if 48 \<le> n \<and> n \<le> 57 then Some (n - 48) else None)"

fun read_digits :: "string \<Rightarrow> nat \<Rightarrow> nat option" where
  "read_digits [] n = Some n"
| "read_digits (c # cs) n =
     (case digit_value c of None \<Rightarrow> None | Some d \<Rightarrow> read_digits cs (10 * n + d))"

definition read_decimal :: "string \<Rightarrow> nat option" where
  "read_decimal s = (if s = [] then None else read_digits s 0)"

lemma digit_value_char: "d < 10 \<Longrightarrow> digit_value (digit_char d) = Some d"
  by (simp add: digit_value_def digit_char_def of_char_of Let_def)

lemma read_digits_append:
  "read_digits (s @ t) n = (case read_digits s n of None \<Rightarrow> None | Some m \<Rightarrow> read_digits t m)"
  by (induction s n rule: read_digits.induct) (auto split: option.splits)

lemma read_digits_decimal: "\<exists>k. \<forall>m. read_digits (decimal n) m = Some (k * m + n)"
proof (induction n rule: decimal.induct)
  case (1 n)
  show ?case
  proof (cases "n < 10")
    case True
    then have "\<forall>m. read_digits (decimal n) m = Some (10 * m + n)"
      by (simp add: decimal.simps [of n] digit_value_char)
    then show ?thesis ..
  next
    case False
    then obtain k where "\<forall>m. read_digits (decimal (n div 10)) m = Some (k * m + n div 10)"
      using "1.IH" by blast
    with False have "\<forall>m. read_digits (decimal n) m = Some (10 * k * m + n)"
      by (simp add: decimal.simps [of n] read_digits_append digit_value_char algebra_simps)
    then show ?thesis ..
  qed
qed

lemma decimal_not_Nil [simp]: "decimal n \<noteq> []"
  by (simp add: decimal.simps [of n])

lemma read_decimal_decimal: "read_decimal (decimal n) = Some n"
  using read_digits_decimal [of n] by (auto simp: read_decimal_def)

lemma decimal_digits: "c \<in> set (decimal n) \<Longrightarrow> \<exists>d < 10. c = digit_char d"
proof (induction n rule: decimal.induct)
  case (1 n)
  then show ?case
    by (cases "n < 10")
      (auto simp: decimal.simps [of n] intro: exI [of _ n] exI [of _ "n mod 10"])
qed

lemma dot_not_digit: "CHR ''.'' \<notin> set (decimal n)"
proof
  assume "CHR ''.'' \<in> set (decimal n)"
  then obtain d where "d < 10" "CHR ''.'' = digit_char d" using decimal_digits by blast
  then have "digit_value (CHR ''.'') = Some d" by (simp add: digit_value_char)
  then show False by (simp add: digit_value_def)
qed

definition parse_dotted :: "string \<Rightarrow> ipv4 option" where
  "parse_dotted s =
     (case map read_decimal (split_at (CHR ''.'') s) of
        [Some d, Some c, Some b, Some a] \<Rightarrow>
          (if d < 256 \<and> c < 256 \<and> b < 256 \<and> a < 256
           then Some (word_of_nat (((d * 256 + c) * 256 + b) * 256 + a)) else None)
      | _ \<Rightarrow> None)"

lemma octet_div: "octet k a = unat a div 256 ^ k mod 256"
proof -
  have "take_bit 32 (unat a) = unat a"
    using unsigned_less [of a] by (simp add: take_bit_nat_eq_self_iff)
  then have "unat (drop_bit (8 * k) a) = unat a div 2 ^ (8 * k)"
    by (simp add: unsigned_drop_bit_eq) (simp add: drop_bit_eq_div)
  then show ?thesis by (simp add: octet_def power_mult)
qed

lemma octet_step: "n div 256 ^ Suc k * 256 + n div 256 ^ k mod 256 = n div 256 ^ k" for n :: nat
  by (simp add: div_mult2_eq mult.commute [of 256])

lemma octets_value: "((octet 3 a * 256 + octet 2 a) * 256 + octet 1 a) * 256 + octet 0 a = unat a"
proof -
  have "unat a < 2 ^ 32" using unsigned_less [of a] by simp
  then have "octet 3 a = unat a div 256 ^ Suc 2" by (simp add: octet_div)
  then show ?thesis
    using octet_step [of "unat a" 2] octet_step [of "unat a" 1] octet_step [of "unat a" 0]
    by (simp only: octet_div) simp
qed

lemma parse_dotted_dotted: "parse_dotted (dotted a) = Some a"
  using octets_value [of a]
  by (simp add: parse_dotted_def dotted_def split_at_append split_at_word dot_not_digit
      read_decimal_decimal octet_def)

definition ip_example :: ip_library where
  "ip_example = \<lparr>from_string = parse_dotted, address_text = dotted\<rparr>"

lemma ip_example_ok [simp]: "ip_ok ip_example"
  by (simp add: ip_ok_def ip_example_def parse_dotted_dotted)

end
