(* ===== verification/Domain_Info.thy ===== *)
theory Domain_Info
  imports Ip_Address Msgpack
begin

text \<open>
  \<open>class CDomainInfo\<close> (\<open>examples/acs/CDomainInfo.*\<close>): what the backplane example announces about a
  domain, and the datagram that carries it.  The decoder of datagrams is the parameter
  \<open>datagrams\<close>: \<open>unpack_at\<close> is \<open>msgpack::unpack(data, length, offset)\<close>, which returns the object at
  the offset and the offset behind it or throws, and the conversions return \<open>None\<close> where msgpack
  throws a \<open>type_error\<close>.
\<close>

record domain_info =
  m_wampIp :: string
  m_wampPort :: port
  m_domainName :: string
  m_realmName :: string

definition PROTOCOL_VERSION_NUMBER :: byte where
  "PROTOCOL_VERSION_NUMBER = 1"

text \<open>The default constructor leaves the port uninitialised.\<close>

definition new_domain_info :: "port \<Rightarrow> domain_info" where
  "new_domain_info garbage =
     \<lparr>m_wampIp = '''', m_wampPort = garbage, m_domainName = '''', m_realmName = ''''\<rparr>"

definition set_wampIp :: "string \<Rightarrow> domain_info \<Rightarrow> domain_info" where
  "set_wampIp ip d = d\<lparr>m_wampIp := ip\<rparr>"

definition set_wampPort :: "port \<Rightarrow> domain_info \<Rightarrow> domain_info" where
  "set_wampPort p d = d\<lparr>m_wampPort := p\<rparr>"

definition set_domainName :: "string \<Rightarrow> domain_info \<Rightarrow> domain_info" where
  "set_domainName name d = d\<lparr>m_domainName := name\<rparr>"

definition set_realmName :: "string \<Rightarrow> domain_info \<Rightarrow> domain_info" where
  "set_realmName name d = d\<lparr>m_realmName := name\<rparr>"

definition fullyQuallifiedName :: "domain_info \<Rightarrow> string" where
  "fullyQuallifiedName d = m_realmName d @ ''/'' @ m_domainName d"

definition toString :: "domain_info \<Rightarrow> string" where
  "toString d = fullyQuallifiedName d @ ''@'' @ m_wampIp d @ '':'' @ decimal (unat (m_wampPort d))"

text \<open>\<open>MSGPACK_DEFINE\<close>: the array of the four members.\<close>

definition domain_packed :: "domain_info \<Rightarrow> buffer" where
  "domain_packed d =
     [Pack_Array 4, Pack_String (m_wampIp d), Pack_Int (uint (m_wampPort d)),
      Pack_String (m_domainName d), Pack_String (m_realmName d)]"

definition domain_object :: "domain_info \<Rightarrow> msgobj" where
  "domain_object d =
     ARRAY [STR_OBJ (m_wampIp d), POSITIVE_INTEGER (ucast (m_wampPort d)), STR_OBJ (m_domainName d),
       STR_OBJ (m_realmName d)]"

lemma int_object_port: "int_object (uint p) = POSITIVE_INTEGER (ucast p)" for p :: port
  unfolding int_object_def ucast_eq by (simp only: unsigned_greater_eq if_True)

lemma domain_packed_object: "packed_object (domain_packed d) = Some (domain_object d)"
  by (simp add: packed_object_def domain_packed_def domain_object_def int_object_port)

text \<open>An announcement: the protocol version, then the domain.\<close>

definition announcement :: "domain_info \<Rightarrow> buffer" where
  "announcement d = Pack_Int (uint PROTOCOL_VERSION_NUMBER) # domain_packed d"

section \<open>Reading datagrams\<close>

record datagrams =
  unpack_at :: "byte list \<Rightarrow> nat \<Rightarrow> (msgobj \<times> nat) result"
  as_uint8 :: "msgobj \<Rightarrow> byte option"
  as_domain :: "msgobj \<Rightarrow> domain_info option"

definition datagrams_ok :: "datagrams \<Rightarrow> bool" where
  "datagrams_ok dg \<longleftrightarrow>
     (\<forall>w. as_uint8 dg (POSITIVE_INTEGER w) = (if uint w < 256 then Some (ucast w) else None)) \<and>
     (\<forall>d. as_domain dg (domain_object d) = Some d)"

text \<open>The bytes decode to the two objects of the announcement of \<open>d\<close>.\<close>

definition announces :: "datagrams \<Rightarrow> byte list \<Rightarrow> domain_info \<Rightarrow> bool" where
  "announces dg bytes d \<longleftrightarrow>
     (\<exists>k. unpack_at dg bytes 0 = Ok (POSITIVE_INTEGER 1, k) \<and>
          unpack_at dg bytes k = Ok (domain_object d, length bytes))"

text \<open>An instance whose decoder knows the announcements of given domains.\<close>

fun example_domain :: "msgobj \<Rightarrow> domain_info option" where
  "example_domain (ARRAY [STR_OBJ ip, POSITIVE_INTEGER p, STR_OBJ name, STR_OBJ realm]) =
     (if uint p < 65536
      then Some \<lparr>m_wampIp = ip, m_wampPort = ucast p, m_domainName = name, m_realmName = realm\<rparr>
      else None)"
| "example_domain _ = None"

fun example_uint8 :: "msgobj \<Rightarrow> byte option" where
  "example_uint8 (POSITIVE_INTEGER w) = (if uint w < 256 then Some (ucast w) else None)"
| "example_uint8 _ = None"

definition example_unpack ::
    "msgpack \<Rightarrow> domain_info list \<Rightarrow> byte list \<Rightarrow> nat \<Rightarrow> (msgobj \<times> nat) result" where
  "example_unpack mp ds bytes k =
     (case find (\<lambda>d. encode mp (announcement d) = bytes) ds of
        None \<Rightarrow> Throw (Library_Error Msgpack_Parse_Error)
      | Some d \<Rightarrow> if k = 0 then Ok (POSITIVE_INTEGER 1, 1) else Ok (domain_object d, length bytes))"

definition example_datagrams :: "msgpack \<Rightarrow> domain_info list \<Rightarrow> datagrams" where
  "example_datagrams mp ds =
     \<lparr>unpack_at = example_unpack mp ds, as_uint8 = example_uint8, as_domain = example_domain\<rparr>"

lemma port_round_trip: "ucast (ucast p :: u64) = p" "uint (ucast p :: u64) < 65536" for p :: port
proof -
  have "uint p < 65536" using unsigned_less [of p] by simp
  then have self: "take_bit 64 (uint p) = uint p" by (simp add: take_bit_int_eq_self_iff)
  have "uint (ucast p :: u64) = uint p"
    using self by (simp add: unsigned_ucast_eq take_bit_word_eq_self)
  with \<open>uint p < 65536\<close> show "uint (ucast p :: u64) < 65536" by simp
  have "(ucast (ucast p :: u64) :: port) = word_of_int (uint (ucast p :: u64))" by (rule ucast_eq)
  with \<open>uint (ucast p :: u64) = uint p\<close> show "ucast (ucast p :: u64) = p"
    by (simp only: word_of_int_uint)
qed

lemma example_datagrams_ok [simp]: "datagrams_ok (example_datagrams mp ds)"
  by (simp add: datagrams_ok_def example_datagrams_def domain_object_def port_round_trip)

lemma example_announces:
  "find (\<lambda>d'. encode mp (announcement d') = encode mp (announcement d)) ds = Some d \<Longrightarrow>
   announces (example_datagrams mp ds) (encode mp (announcement d)) d"
  by (auto simp: announces_def example_datagrams_def example_unpack_def)

end
