(* ===== verification/Interfaces.thy ===== *)
theory Interfaces
  imports Ip_Address
begin

text \<open>
  \<open>getInterfaceAddresses\<close> and \<open>class CInterfaceChangeNotifier\<close> (\<open>examples/acs\<close>): the addresses of
  the network interfaces as a \<open>std::set\<close>, and the periodic search for new ones.  A \<open>std::set\<close> is
  its elements in ascending order.  What \<open>getifaddrs\<close> returns is a parameter: \<open>None\<close> when it fails
  and leaves its output pointer unset, else the entries, each with the address it has, if any.
\<close>

section \<open>Sets as ascending lists\<close>

fun set_insert :: "'a::linorder \<Rightarrow> 'a list \<Rightarrow> 'a list" where
  "set_insert x [] = [x]"
| "set_insert x (y # ys) = (if x < y then x # y # ys else if x = y then y # ys else y # set_insert x ys)"

text \<open>\<open>std::set_difference\<close>.\<close>

fun set_difference :: "'a::linorder list \<Rightarrow> 'a list \<Rightarrow> 'a list" where
  "set_difference [] ys = []"
| "set_difference (x # xs) [] = x # xs"
| "set_difference (x # xs) (y # ys) =
     (if x < y then x # set_difference xs (y # ys)
      else if y < x then set_difference (x # xs) ys
      else set_difference xs ys)"

abbreviation ascending :: "'a::linorder list \<Rightarrow> bool" where
  "ascending \<equiv> sorted_wrt (<)"

lemma set_set_insert [simp]: "set (set_insert x xs) = insert x (set xs)"
  by (induction x xs rule: set_insert.induct) auto

lemma ascending_insert: "ascending xs \<Longrightarrow> ascending (set_insert x xs)"
  by (induction x xs rule: set_insert.induct) auto

lemma set_difference_filter:
  "ascending xs \<Longrightarrow> ascending ys \<Longrightarrow> set_difference xs ys = filter (\<lambda>x. x \<notin> set ys) xs"
proof (induction xs ys rule: set_difference.induct)
  case (3 x xs y ys)
  then show ?case
    by (cases x y rule: linorder_cases) (auto intro!: filter_cong)
qed auto

lemma ascending_set:
  "ascending xs \<Longrightarrow> ascending ys \<Longrightarrow> set xs = set ys \<Longrightarrow> xs = ys"
  by (simp add: strict_sorted_equal)

section \<open>Interface addresses\<close>

datatype sockaddr = Inet_Address ipv4 | Other_Family

type_synonym ifaddrs = "sockaddr option list option"

text \<open>The loop reads the family before it tests whether the entry has an address.\<close>

fun interface_loop :: "ip_library \<Rightarrow> sockaddr option list \<Rightarrow> (ipv4 list, unit) action" where
  "interface_loop lib [] = ret ()"
| "interface_loop lib (None # ifas) = lift_result Undefined_Behaviour"
| "interface_loop lib (Some Other_Family # ifas) = interface_loop lib ifas"
| "interface_loop lib (Some (Inet_Address a) # ifas) =
     bind_act (lift_result (or_throw (from_string lib (dotted a)) (Library_Error System_Error)))
       (\<lambda>ip. and_then (update (set_insert ip)) (interface_loop lib ifas))"

text \<open>The return value 0 is not used; a null pointer is never passed.\<close>

definition get_interface_addresses :: "ip_library \<Rightarrow> ifaddrs \<Rightarrow> ipv4 list result" where
  "get_interface_addresses lib ifap =
     (case ifap of
        None \<Rightarrow> Undefined_Behaviour
      | Some ifas \<Rightarrow>
          (case interface_loop lib ifas [] of
             (Ok _, ips) \<Rightarrow> Ok ips
           | (Throw e, _) \<Rightarrow> Throw e
           | (Undefined_Behaviour, _) \<Rightarrow> Undefined_Behaviour))"

fun inet_addresses :: "sockaddr option list \<Rightarrow> ipv4 set" where
  "inet_addresses [] = {}"
| "inet_addresses (Some (Inet_Address a) # ifas) = insert a (inet_addresses ifas)"
| "inet_addresses (_ # ifas) = inet_addresses ifas"

lemma interface_loop_addresses:
  assumes "ip_ok lib" and "None \<notin> set ifas" and "ascending acc"
  shows "\<exists>ips. interface_loop lib ifas acc = (Ok (), ips) \<and> ascending ips \<and>
    set ips = set acc \<union> inet_addresses ifas"
  using assms(2,3)
proof (induction ifas arbitrary: acc rule: inet_addresses.induct)
  case (2 a ifas)
  with "2.IH" [of "set_insert a acc"] show ?case
    by (simp add: action_defs ip_ok_simps [OF assms(1)] ascending_insert)
qed (auto simp: action_defs)

lemma interface_loop_undefined:
  assumes "ip_ok lib" and "None \<in> set ifas"
  shows "fst (interface_loop lib ifas acc) = Undefined_Behaviour"
  using assms(2)
  by (induction ifas arbitrary: acc rule: inet_addresses.induct)
    (auto simp: action_defs ip_ok_simps [OF assms(1)])

text \<open>The addresses of a list of entries that all have one.\<close>

lemma finite_inet [simp]: "finite (inet_addresses ifas)"
  by (induction ifas rule: inet_addresses.induct) auto

lemma get_interface_addresses_ok:
  assumes "ip_ok lib" and "None \<notin> set ifas"
  shows "get_interface_addresses lib (Some ifas) = Ok (sorted_list_of_set (inet_addresses ifas))"
proof -
  obtain ips where "interface_loop lib ifas [] = (Ok (), ips)" "ascending ips"
      "set ips = inet_addresses ifas"
    using interface_loop_addresses [OF assms, of "[]"] by auto
  moreover from this have "ips = sorted_list_of_set (inet_addresses ifas)"
    by (intro ascending_set) auto
  ultimately show ?thesis by (simp add: get_interface_addresses_def)
qed

lemma get_interface_addresses_undefined:
  assumes "ip_ok lib" and "None \<in> set ifas"
  shows "get_interface_addresses lib (Some ifas) = Undefined_Behaviour"
  using interface_loop_undefined [OF assms, of "[]"]
  by (cases "interface_loop lib ifas []") (simp add: get_interface_addresses_def)

section \<open>New interfaces\<close>

text \<open>
  The signal \<open>m_onNewInterface\<close> calls \<open>slot\<close>, which works on the object the notifier is part of.
  \<open>poll_timers\<close> counts the outstanding waits on \<open>m_timer\<close>.
\<close>

record notifier =
  m_knownInterfaceCache :: "ipv4 list"
  poll_timers :: nat

definition new_notifier :: notifier where
  "new_notifier = \<lparr>m_knownInterfaceCache = [], poll_timers = 0\<rparr>"

fun emit :: "(ipv4 \<Rightarrow> ('s, unit) action) \<Rightarrow> ipv4 list \<Rightarrow> ('s, unit) action" where
  "emit slot [] = ret ()"
| "emit slot (ip # ips) = and_then (slot ip) (emit slot ips)"

definition resolve_interfaces ::
    "ip_library \<Rightarrow> (ipv4 \<Rightarrow> ('a notifier_scheme, unit) action) \<Rightarrow> ifaddrs
      \<Rightarrow> ('a notifier_scheme, unit) action" where
  "resolve_interfaces lib slot ifap =
     bind_act (lift_result (get_interface_addresses lib ifap)) (\<lambda>current.
       with_state (\<lambda>n. and_then (emit slot (set_difference current (m_knownInterfaceCache n)))
         (update (\<lambda>n. n\<lparr>m_knownInterfaceCache := current, poll_timers := Suc (poll_timers n)\<rparr>))))"

definition notifier_launch ::
    "ip_library \<Rightarrow> (ipv4 \<Rightarrow> ('a notifier_scheme, unit) action) \<Rightarrow> ifaddrs
      \<Rightarrow> ('a notifier_scheme, unit) action" where
  "notifier_launch lib slot ifap = resolve_interfaces lib slot ifap"



end
