(* ===== verification/Announcer.thy ===== *)
theory Announcer
  imports Domain_Info Interfaces Session_State
begin

text \<open>
  \<open>class CDomainDiscoveryAnnouncer\<close> (\<open>examples/acs/CDomainDiscoveryManager.*\<close>): sends an
  announcement of the domain to the multicast group through every interface, one after the other,
  waits for a period and starts again.  The environment of a completed operation is the error it
  completed with, what \<open>getifaddrs\<close> returns, and for which interfaces the socket options can be
  set.
\<close>

datatype announcer_op = Await_Timer | Await_Send

text \<open>
  \<open>m_txBuffer\<close> holds the bytes the socket reads until an \<open>async_send_to\<close> completes.  \<open>sent\<close> records
  the datagrams handed to the socket with the interface selected for them.
\<close>

record announcer =
  m_domainInfo :: domain_info
  m_outgoingAnnouncements :: "ipv4 list"
  m_txBuffer :: "byte list"
  m_txMessageCount :: u64
  announcer_ops :: "announcer_op list"
  sent :: "(ipv4 \<times> byte list) list"

definition new_announcer :: "port \<Rightarrow> port \<Rightarrow> string \<Rightarrow> string \<Rightarrow> announcer" where
  "new_announcer garbage advertise_port domain_name realm_name =
     \<lparr>m_domainInfo = set_wampPort advertise_port (set_realmName realm_name
        (set_domainName domain_name (new_domain_info garbage))),
      m_outgoingAnnouncements = [], m_txBuffer = [], m_txMessageCount = 0, announcer_ops = [],
      sent = []\<rparr>"

definition await_timer :: "(announcer, unit) action" where
  "await_timer = update (\<lambda>a. a\<lparr>announcer_ops := announcer_ops a @ [Await_Timer]\<rparr>)"

text \<open>
  \<open>sendHeartBeat\<close>; an error of the previous send is only reported.  Setting a socket option may
  throw, which is caught.
\<close>

definition send_heart_beat ::
    "msgpack \<Rightarrow> ip_library \<Rightarrow> (ipv4 \<Rightarrow> bool) \<Rightarrow> io_error option \<Rightarrow> (announcer, unit) action" where
  "send_heart_beat mp lib can_select error =
     with_state (\<lambda>a. case m_outgoingAnnouncements a of
        [] \<Rightarrow> await_timer
      | ip # ips \<Rightarrow>
          (let d = set_wampIp (address_text lib ip) (m_domainInfo a);
               bytes = encode mp (announcement d)
           in and_then
                (update (\<lambda>a. a\<lparr>m_txBuffer := bytes, m_txMessageCount := m_txMessageCount a + 1,
                               m_domainInfo := d\<rparr>))
                (and_then
                  (if can_select ip
                   then update (\<lambda>a. a\<lparr>announcer_ops := announcer_ops a @ [Await_Send],
                                      sent := sent a @ [(ip, bytes)]\<rparr>)
                   else ret ())
                  (and_then (update (\<lambda>a. a\<lparr>m_outgoingAnnouncements := ips\<rparr>))
                    (if can_select ip then ret () else await_timer)))))"

definition send_to_all_interfaces ::
    "msgpack \<Rightarrow> ip_library \<Rightarrow> (ipv4 \<Rightarrow> bool) \<Rightarrow> ifaddrs \<Rightarrow> io_error option
      \<Rightarrow> (announcer, unit) action" where
  "send_to_all_interfaces mp lib can_select ifap error =
     (case error of
        Some _ \<Rightarrow> ret ()
      | None \<Rightarrow> with_state (\<lambda>a.
          bind_act (lift_result (get_interface_addresses lib ifap)) (\<lambda>ips.
            and_then (update (\<lambda>a. a\<lparr>m_outgoingAnnouncements := m_outgoingAnnouncements a @ ips\<rparr>))
              (if m_outgoingAnnouncements a = [] then send_heart_beat mp lib can_select None
               else ret ()))))"

definition announcer_launch ::
    "msgpack \<Rightarrow> ip_library \<Rightarrow> (ipv4 \<Rightarrow> bool) \<Rightarrow> ifaddrs \<Rightarrow> (announcer, unit) action" where
  "announcer_launch mp lib can_select ifap = send_to_all_interfaces mp lib can_select ifap None"

text \<open>The oldest outstanding operation completes and its handler runs.\<close>

definition announcer_complete ::
    "msgpack \<Rightarrow> ip_library \<Rightarrow> (ipv4 \<Rightarrow> bool) \<Rightarrow> ifaddrs \<Rightarrow> io_error option
      \<Rightarrow> (announcer, unit) action" where
  "announcer_complete mp lib can_select ifap error =
     with_state (\<lambda>a. case announcer_ops a of
        [] \<Rightarrow> ret ()
      | op # ops \<Rightarrow> and_then (update (\<lambda>a. a\<lparr>announcer_ops := ops\<rparr>))
          (case op of
             Await_Timer \<Rightarrow> send_to_all_interfaces mp lib can_select ifap error
           | Await_Send \<Rightarrow> send_heart_beat mp lib can_select error))"

inductive announcer_step :: "msgpack \<Rightarrow> ip_library \<Rightarrow> announcer \<Rightarrow> announcer \<Rightarrow> bool"
  for mp :: msgpack and lib :: ip_library where
  announcer_stepI: "announcer_ops a \<noteq> [] \<Longrightarrow>
    announcer_complete mp lib can_select ifap error a = (r, a') \<Longrightarrow> announcer_step mp lib a a'"

definition announcer_init :: "msgpack \<Rightarrow> ip_library \<Rightarrow> announcer \<Rightarrow> bool" where
  "announcer_init mp lib a \<longleftrightarrow> (\<exists>can_select ifap garbage advertise_port domain_name realm_name.
     a = snd (announcer_launch mp lib can_select ifap
           (new_announcer garbage advertise_port domain_name realm_name)))"

definition announcer_reachable :: "msgpack \<Rightarrow> ip_library \<Rightarrow> announcer \<Rightarrow> bool" where
  "announcer_reachable mp lib a \<longleftrightarrow> reach (announcer_init mp lib) (announcer_step mp lib) a"

lemmas announcer_defs =
  await_timer_def send_heart_beat_def send_to_all_interfaces_def announcer_launch_def
  announcer_complete_def

section \<open>One operation at a time\<close>

lemma send_heart_beat_ops:
  "announcer_ops (snd (send_heart_beat mp lib can_select error a)) =
     announcer_ops a @ [if m_outgoingAnnouncements a \<noteq> [] \<and> can_select (hd (m_outgoingAnnouncements a))
                        then Await_Send else Await_Timer]"
  by (simp add: send_heart_beat_def await_timer_def action_defs Let_def split: list.splits)

lemma send_to_all_ops:
  "length (announcer_ops (snd (send_to_all_interfaces mp lib can_select ifap error a)))
     \<le> Suc (length (announcer_ops a))"
  by (auto simp: send_to_all_interfaces_def action_defs send_heart_beat_ops
      split: option.splits result.splits)

lemma announcer_step_ops:
  assumes "announcer_step mp lib a a'" and "length (announcer_ops a) \<le> 1"
  shows "length (announcer_ops a') \<le> 1"
  using assms
proof (induction rule: announcer_step.induct)
  case (announcer_stepI a can_select ifap error r a')
  then obtain op where ops: "announcer_ops a = [op]"
    by (cases "announcer_ops a") auto
  let ?a = "a\<lparr>announcer_ops := []\<rparr>"
  have "a' = snd (case op of
      Await_Timer \<Rightarrow> send_to_all_interfaces mp lib can_select ifap error ?a
    | Await_Send \<Rightarrow> send_heart_beat mp lib can_select error ?a)"
    using announcer_stepI(2) ops
    by (cases op) (auto simp: announcer_complete_def action_defs)
  then show ?case
    using send_to_all_ops [of mp lib can_select ifap error ?a]
    by (cases op) (simp_all add: send_heart_beat_ops)
qed

lemma announcer_single_operation:
  assumes "announcer_reachable mp lib a"
  shows "length (announcer_ops a) \<le> 1"
  using assms unfolding announcer_reachable_def
proof (rule reach_invariant)
  fix a assume "announcer_init mp lib a"
  then obtain can_select ifap garbage port name realm where
    "a = snd (announcer_launch mp lib can_select ifap (new_announcer garbage port name realm))"
    by (auto simp: announcer_init_def)
  then show "length (announcer_ops a) \<le> 1"
    using send_to_all_ops [of mp lib can_select ifap None "new_announcer garbage port name realm"]
    by (simp add: announcer_launch_def new_announcer_def)
qed (rule announcer_step_ops)

section \<open>A round of announcements\<close>

definition announced :: "ip_library \<Rightarrow> domain_info \<Rightarrow> ipv4 \<Rightarrow> domain_info" where
  "announced lib d ip = set_wampIp (address_text lib ip) d"

lemma announced_again [simp]: "announced lib (announced lib d ip) ip' = announced lib d ip'"
  by (simp add: announced_def set_wampIp_def)

fun complete_times ::
    "nat \<Rightarrow> (announcer, unit) action \<Rightarrow> (announcer, unit) action" where
  "complete_times 0 m = ret ()"
| "complete_times (Suc n) m = and_then m (complete_times n m)"

text \<open>With every interface selectable, the completed sends work through the queue.\<close>

lemma send_heart_beat_next:
  "m_outgoingAnnouncements a = ip # ips \<Longrightarrow>
   send_heart_beat mp lib (\<lambda>_. True) error a =
     (Ok (), a\<lparr>m_txBuffer := encode mp (announcement (announced lib (m_domainInfo a) ip)),
              m_txMessageCount := m_txMessageCount a + 1,
              m_domainInfo := announced lib (m_domainInfo a) ip,
              announcer_ops := announcer_ops a @ [Await_Send],
              sent := sent a @ [(ip, encode mp (announcement (announced lib (m_domainInfo a) ip)))],
              m_outgoingAnnouncements := ips\<rparr>)"
  by (simp add: send_heart_beat_def action_defs Let_def announced_def)

lemma sends_complete:
  assumes "announcer_ops a = [Await_Send]"
  shows "complete_times (Suc (length (m_outgoingAnnouncements a)))
      (announcer_complete mp lib (\<lambda>_. True) ifap error) a = (r, a') \<Longrightarrow>
    r = Ok () \<and> announcer_ops a' = [Await_Timer] \<and> m_outgoingAnnouncements a' = [] \<and>
    sent a' = sent a @ map (\<lambda>ip. (ip, encode mp (announcement (announced lib (m_domainInfo a) ip))))
                           (m_outgoingAnnouncements a)"
  using assms
proof (induction "m_outgoingAnnouncements a" arbitrary: a)
  case Nil
  then show ?case
    by (auto simp: announcer_complete_def send_heart_beat_def await_timer_def action_defs)
next
  case (Cons ip ips)
  let ?d = "announced lib (m_domainInfo a) ip"
  let ?a = "a\<lparr>m_txBuffer := encode mp (announcement ?d), m_txMessageCount := m_txMessageCount a + 1,
              m_domainInfo := ?d, announcer_ops := [Await_Send],
              sent := sent a @ [(ip, encode mp (announcement ?d))], m_outgoingAnnouncements := ips\<rparr>"
  have "announcer_complete mp lib (\<lambda>_. True) ifap error a = (Ok (), ?a)"
    using Cons.prems(2) Cons.hyps(2)
      send_heart_beat_next [of "a\<lparr>announcer_ops := []\<rparr>" ip ips mp lib error]
    by (simp add: announcer_complete_def action_defs)
  with Cons.prems(1) Cons.hyps(2) [symmetric]
  have "complete_times (Suc (length (m_outgoingAnnouncements ?a)))
      (announcer_complete mp lib (\<lambda>_. True) ifap error) ?a = (r, a')"
    by (simp add: and_then_def bind_act_def)
  from Cons.hyps(1) [OF _ this] Cons.hyps(2) [symmetric] show ?case by simp
qed

text \<open>A round: when the timer of an idle announcer fires and every interface can be selected, the
  sends that complete one after the other announce the domain exactly once through each
  interface address, in ascending order and with that address as the one to connect to, and
  then the announcer waits for the next round.\<close>

lemma announcement_round:
  assumes "ip_ok lib" and "None \<notin> set ifas" and "m_outgoingAnnouncements a = []"
    and "announcer_ops a = [Await_Timer]"
  defines "ips \<equiv> sorted_list_of_set (inet_addresses ifas)"
  shows "\<exists>a'. complete_times (Suc (length ips)) (announcer_complete mp lib (\<lambda>_. True) (Some ifas) None) a =
      (Ok (), a') \<and>
    sent a' = sent a @
      map (\<lambda>ip. (ip, encode mp (announcement ((m_domainInfo a)\<lparr>m_wampIp := dotted ip\<rparr>)))) ips \<and>
    m_outgoingAnnouncements a' = [] \<and> announcer_ops a' = [Await_Timer]"
proof (cases ips)
  case Nil
  then show ?thesis
    using assms(3,4) get_interface_addresses_ok [OF assms(1,2)]
    by (simp add: announcer_defs action_defs ips_def)
next
  case (Cons ip rest)
  let ?b = "a\<lparr>announcer_ops := [], m_outgoingAnnouncements := ips\<rparr>"
  let ?c = "snd (send_heart_beat mp lib (\<lambda>_. True) None ?b)"
  note next_send = send_heart_beat_next [of ?b ip rest mp lib None]
  have first: "announcer_complete mp lib (\<lambda>_. True) (Some ifas) None a = (Ok (), ?c)"
    using assms(3,4) get_interface_addresses_ok [OF assms(1,2)] next_send Cons
    by (simp add: announcer_complete_def send_to_all_interfaces_def action_defs ips_def)
  obtain r a' where run: "complete_times (Suc (length rest))
      (announcer_complete mp lib (\<lambda>_. True) (Some ifas) None) ?c = (r, a')"
    by fastforce
  have c: "announcer_ops ?c = [Await_Send]" "m_outgoingAnnouncements ?c = rest"
    using next_send Cons by simp_all
  with sends_complete [OF c(1)] run have "r = Ok ()" "announcer_ops a' = [Await_Timer]"
      "m_outgoingAnnouncements a' = []"
      "sent a' = sent ?c @ map (\<lambda>ip. (ip, encode mp (announcement (announced lib (m_domainInfo ?c) ip)))) rest"
    by simp_all
  with first run next_send Cons show ?thesis
    by (simp add: and_then_def bind_act_def announced_def set_wampIp_def ip_ok_simps [OF assms(1)])
qed

section \<open>Stalling\<close>

lemma announcer_stalls:
  assumes "m_outgoingAnnouncements a = ip # ip' # ips" and "\<not> can_select ip"
    and "announcer_ops a = [Await_Send]" and "ip_ok lib" and "None \<notin> set ifas"
  shows "\<exists>a1 a2. announcer_complete mp lib can_select ifap error a = (Ok (), a1) \<and>
    announcer_ops a1 = [Await_Timer] \<and>
    announcer_complete mp lib can_select' (Some ifas) None a1 = (Ok (), a2) \<and>
    sent a2 = sent a \<and> announcer_ops a2 = [] \<and> (\<forall>a3. \<not> announcer_step mp lib a2 a3)"
  using assms get_interface_addresses_ok [OF assms(4,5)]
  by (simp add: announcer_defs action_defs Let_def announcer_step.simps)

text \<open>C30: An announcer that was launched once has at most one asynchronous operation outstanding, a
  wait or a send, so it never rewrites the buffer while the socket still reads it.  It may come to
  have none: when the first of two or more queued interfaces cannot be selected, the announcements
  left in the queue keep the next round from being started, and nothing is sent any more.\<close>

theorem announcer_operations:
  assumes "announcer_reachable mp lib a"
  shows "length (announcer_ops a) \<le> 1 \<and>
    (m_outgoingAnnouncements a = ip # ip' # ips \<and> \<not> can_select ip \<and> announcer_ops a = [Await_Send] \<and>
     ip_ok lib \<and> None \<notin> set ifas \<longrightarrow>
      (\<exists>a1 a2. announcer_complete mp lib can_select ifap error a = (Ok (), a1) \<and>
        announcer_ops a1 = [Await_Timer] \<and>
        announcer_complete mp lib can_select' (Some ifas) None a1 = (Ok (), a2) \<and>
        sent a2 = sent a \<and> announcer_ops a2 = [] \<and> (\<forall>a3. \<not> announcer_step mp lib a2 a3)))"
  using announcer_single_operation [OF assms] announcer_stalls by metis

definition three_interfaces :: announcer where
  "three_interfaces = snd (announcer_launch msgpack_example ip_example (\<lambda>_. True)
     (Some (map (Some \<circ> Inet_Address) [5, 9, 12])) (new_announcer 0 8000 ''d'' ''r''))"

theorem announcer_operations_witness:
  "\<exists>a2. announcer_complete msgpack_example ip_example (\<lambda>_. True) (Some []) None
      (snd (announcer_complete msgpack_example ip_example (\<lambda>ip. ip \<noteq> 9) None None three_interfaces)) =
      (Ok (), a2) \<and> announcer_ops a2 = []"
proof -
  have "announcer_reachable msgpack_example ip_example three_interfaces"
    unfolding announcer_reachable_def
    by (rule reach_init, unfold announcer_init_def three_interfaces_def) blast
  moreover have "m_outgoingAnnouncements three_interfaces = [9, 12]"
    "announcer_ops three_interfaces = [Await_Send]"
    by code_simp+
  ultimately show ?thesis
    using announcer_operations [of msgpack_example ip_example three_interfaces 9 12 "[]" "\<lambda>ip. ip \<noteq> 9" "[]"
        None None "\<lambda>_. True"]
    by auto
qed

end
