(* ===== verification/Listener.thy ===== *)
theory Listener
  imports Announcer
begin

text \<open>
  \<open>class CDomainDiscoveryListener\<close> (\<open>examples/acs/CDomainDiscoveryManager.*\<close>): joins the multicast
  group on every interface the notifier finds, receives announcements and signals the domains it
  has not seen yet.  The notifier is a part of it, so its record extends the notifier's.  The
  signal \<open>m_onDomainDiscovery\<close> calls \<open>slot\<close>, which works on the object the listener belongs to.
\<close>

text \<open>\<open>groups_joined\<close> are the interfaces the group was joined on, \<open>receives\<close> the outstanding receives.\<close>

record listener = notifier +
  groups_joined :: "ipv4 list"
  m_knownDomains :: "string \<rightharpoonup> domain_info"
  receives :: nat
  m_rxMessageCount :: u64

definition new_listener :: listener where
  "new_listener =
     notifier.extend new_notifier
       (listener.fields [] Map.empty 0 0)"

definition RX_BUFFER_SIZE :: nat where
  "RX_BUFFER_SIZE = 512"

text \<open>\<open>erase\<close>, \<open>joinGroup\<close> (a socket option that cannot be set throws, which is caught), \<open>queueReceive\<close>.\<close>

definition erase_domain :: "string \<Rightarrow> ('a listener_scheme, unit) action" where
  "erase_domain name = update (\<lambda>l. l\<lparr>m_knownDomains := map_erase (m_knownDomains l) name\<rparr>)"

definition join_group :: "(ipv4 \<Rightarrow> bool) \<Rightarrow> ipv4 \<Rightarrow> ('a listener_scheme, unit) action" where
  "join_group can_join ip =
     (if can_join ip then update (\<lambda>l. l\<lparr>groups_joined := groups_joined l @ [ip]\<rparr>) else ret ())"

definition queue_receive :: "io_error option \<Rightarrow> ('a listener_scheme, unit) action" where
  "queue_receive error =
     (case error of None \<Rightarrow> update (\<lambda>l. l\<lparr>receives := Suc (receives l)\<rparr>) | Some _ \<Rightarrow> ret ())"

definition listener_launch ::
    "ip_library \<Rightarrow> (ipv4 \<Rightarrow> bool) \<Rightarrow> ifaddrs \<Rightarrow> ('a listener_scheme, unit) action" where
  "listener_launch lib can_join ifap =
     and_then (notifier_launch lib (join_group can_join) ifap) (queue_receive None)"

text \<open>The body of an announcement, and \<open>onReceive\<close>.\<close>

definition discover ::
    "datagrams \<Rightarrow> (domain_info \<Rightarrow> ('a listener_scheme, unit) action) \<Rightarrow> byte list \<Rightarrow> nat
      \<Rightarrow> ('a listener_scheme, unit) action" where
  "discover dg slot bytes offset =
     bind_act (lift_result (unpack_at dg bytes offset)) (\<lambda>body.
       and_then (update (\<lambda>l. l\<lparr>m_rxMessageCount := m_rxMessageCount l + 1\<rparr>))
         (bind_act (lift_result (or_throw (as_domain dg (fst body)) (Library_Error Msgpack_Type_Error)))
           (\<lambda>d. with_state (\<lambda>l. case m_knownDomains l (m_domainName d) of
               None \<Rightarrow> and_then
                 (update (\<lambda>l. l\<lparr>m_knownDomains := (m_knownDomains l)(m_domainName d \<mapsto> d)\<rparr>)) (slot d)
             | Some _ \<Rightarrow> ret ()))))"

definition on_receive ::
    "datagrams \<Rightarrow> (domain_info \<Rightarrow> ('a listener_scheme, unit) action) \<Rightarrow> io_error option \<Rightarrow> byte list
      \<Rightarrow> ('a listener_scheme, unit) action" where
  "on_receive dg slot error bytes =
     and_then
       (case error of
          Some _ \<Rightarrow> ret ()
        | None \<Rightarrow> bind_act (lift_result (unpack_at dg bytes 0)) (\<lambda>version.
            if is_positive_integer (fst version) then
              bind_act (lift_result (or_throw (as_uint8 dg (fst version)) (Library_Error Msgpack_Type_Error)))
                (\<lambda>v. if v = PROTOCOL_VERSION_NUMBER then discover dg slot bytes (snd version) else ret ())
            else ret ()))
       (queue_receive None)"

text \<open>A receive completes with a datagram; what exceeds the buffer is lost.\<close>

definition receive_datagram ::
    "datagrams \<Rightarrow> (domain_info \<Rightarrow> ('a listener_scheme, unit) action) \<Rightarrow> byte list
      \<Rightarrow> ('a listener_scheme, unit) action" where
  "receive_datagram dg slot bytes =
     and_then (update (\<lambda>l. l\<lparr>receives := receives l - 1\<rparr>))
       (on_receive dg slot None (take RX_BUFFER_SIZE bytes))"

fun receive_all ::
    "datagrams \<Rightarrow> (domain_info \<Rightarrow> ('a listener_scheme, unit) action) \<Rightarrow> byte list list
      \<Rightarrow> ('a listener_scheme, unit) action" where
  "receive_all dg slot [] = ret ()"
| "receive_all dg slot (bytes # rest) =
     and_then (receive_datagram dg slot bytes) (receive_all dg slot rest)"

section \<open>Announcements\<close>

lemma datagrams_ok_simps:
  assumes "datagrams_ok dg"
  shows "as_uint8 dg (POSITIVE_INTEGER w) = (if uint w < 256 then Some (ucast w) else None)"
    and "as_domain dg (domain_object d) = Some d"
  using assms unfolding datagrams_ok_def by blast+

lemma discover_announcement:
  assumes "datagrams_ok dg" and "announces dg bytes d" and "length bytes \<le> RX_BUFFER_SIZE"
  shows "receive_datagram dg slot bytes l =
    (let l1 = l\<lparr>receives := receives l - 1, m_rxMessageCount := m_rxMessageCount l + 1\<rparr>
     in case m_knownDomains l (m_domainName d) of
          None \<Rightarrow> and_then (slot d) (queue_receive None)
            (l1\<lparr>m_knownDomains := (m_knownDomains l)(m_domainName d \<mapsto> d)\<rparr>)
        | Some _ \<Rightarrow> queue_receive None l1)"
proof -
  obtain k where "unpack_at dg bytes 0 = Ok (POSITIVE_INTEGER 1, k)"
      "unpack_at dg bytes k = Ok (domain_object d, length bytes)"
    using assms(2) by (auto simp: announces_def)
  with assms(3) show ?thesis
    by (simp add: receive_datagram_def on_receive_def discover_def action_defs
        datagrams_ok_simps [OF assms(1)] PROTOCOL_VERSION_NUMBER_def split: option.splits)
qed

text \<open>The domains signalled for a sequence of announcements: the first of each name not yet known.\<close>

fun first_of_each :: "(string \<rightharpoonup> domain_info) \<Rightarrow> domain_info list \<Rightarrow> domain_info list" where
  "first_of_each known [] = []"
| "first_of_each known (d # ds) =
     (if known (m_domainName d) = None
      then d # first_of_each (known(m_domainName d \<mapsto> d)) ds else first_of_each known ds)"

lemma first_of_each_names:
  "distinct (map m_domainName (first_of_each known ds)) \<and>
   m_domainName ` set (first_of_each known ds) = m_domainName ` set ds - dom known"
proof (induction known ds rule: first_of_each.induct)
  case (2 known d ds)
  show ?case
  proof (cases "known (m_domainName d)")
    case None
    then have "m_domainName d \<notin> dom known" by (simp add: domIff)
    moreover note "2.IH"(1) [OF None]
    ultimately show ?thesis using None by (auto simp del: fun_upd_apply)
  next
    case (Some x)
    then have "m_domainName d \<in> dom known" by (simp add: domIff)
    moreover have "known (m_domainName d) \<noteq> None" using Some by simp
    moreover note "2.IH"(2) [OF this]
    ultimately show ?thesis by auto
  qed
qed simp

record recorder = listener +
  discovered :: "domain_info list"

definition record_discovery :: "domain_info \<Rightarrow> ('a recorder_scheme, unit) action" where
  "record_discovery d = update (\<lambda>l. l\<lparr>discovered := discovered l @ [d]\<rparr>)"

text \<open>A listener that receives any sequence of announcements signals, for each domain name it does
  not know yet, exactly the first announcement of that name, remembers them, counts every
  datagram, and goes on listening.\<close>

lemma discoveries:
  assumes "datagrams_ok dg" and "list_all2 (announces dg) bss ds"
    and "\<forall>bytes \<in> set bss. length bytes \<le> RX_BUFFER_SIZE" and "receives l = 1"
  shows "\<exists>l'. receive_all dg record_discovery bss l = (Ok (), l') \<and> receives l' = 1 \<and>
    discovered l' = discovered l @ first_of_each (m_knownDomains l) ds \<and>
    dom (m_knownDomains l') = dom (m_knownDomains l) \<union> m_domainName ` set ds \<and>
    m_rxMessageCount l' = m_rxMessageCount l + of_nat (length bss)"
  using assms(2-)
proof (induction bss ds arbitrary: l rule: list_all2_induct)
  case (Cons bytes bss d ds)
  obtain l1 where l1: "receive_datagram dg record_discovery bytes l = (Ok (), l1)"
      "receives l1 = 1" "m_rxMessageCount l1 = m_rxMessageCount l + 1"
      "discovered l1 = discovered l @ (if m_knownDomains l (m_domainName d) = None then [d] else [])"
      "m_knownDomains l1 = (if m_knownDomains l (m_domainName d) = None
         then (m_knownDomains l)(m_domainName d \<mapsto> d) else m_knownDomains l)"
    using Cons.prems discover_announcement [OF assms(1) Cons.hyps(1), of record_discovery l]
    by (cases "m_knownDomains l (m_domainName d)")
      (auto simp: record_discovery_def queue_receive_def action_defs Let_def)
  obtain l' where "receive_all dg record_discovery bss l1 = (Ok (), l')" "receives l' = 1"
      "discovered l' = discovered l1 @ first_of_each (m_knownDomains l1) ds"
      "dom (m_knownDomains l') = dom (m_knownDomains l1) \<union> m_domainName ` set ds"
      "m_rxMessageCount l' = m_rxMessageCount l1 + of_nat (length bss)"
    using Cons.IH [of l1] Cons.prems l1(2) by auto
  with l1 show ?case
    by (auto simp: and_then_def bind_act_def domIff)
qed (simp add: ret_def)

section \<open>From the announcer to the listener\<close>

lemma same_name_once:
  "\<forall>d \<in> set ds. m_domainName d = name \<Longrightarrow> known name \<noteq> None \<Longrightarrow> first_of_each known ds = []"
  by (induction known ds rule: first_of_each.induct) auto

text \<open>C23: Discovery end to end.  In one round an announcer sends the announcement of its domain through
  every interface, with the interface's address as the one to connect to.  A listener that
  receives these datagrams, decodes them and does not know the domain signals it exactly once, as
  announced through the lowest address.\<close>

theorem announced_domain_discovered:
  assumes "ip_ok lib" and "None \<notin> set ifas" and "m_outgoingAnnouncements a = []"
    and "announcer_ops a = [Await_Timer]"
    and "sorted_list_of_set (inet_addresses ifas) = ip # ips"
    and "datagrams_ok dg"
    and "\<forall>i \<in> inet_addresses ifas. let d = (m_domainInfo a)\<lparr>m_wampIp := dotted i\<rparr> in
      announces dg (encode mp (announcement d)) d \<and> length (encode mp (announcement d)) \<le> RX_BUFFER_SIZE"
    and "receives l = 1" and "m_knownDomains l (m_domainName (m_domainInfo a)) = None"
  shows "\<exists>a' l' datagrams. complete_times (Suc (Suc (length ips)))
        (announcer_complete mp lib (\<lambda>_. True) (Some ifas) None) a = (Ok (), a') \<and>
    sent a' = sent a @ zip (ip # ips) datagrams \<and> length datagrams = Suc (length ips) \<and>
    receive_all dg record_discovery datagrams l = (Ok (), l') \<and>
    discovered l' = discovered l @ [(m_domainInfo a)\<lparr>m_wampIp := dotted ip\<rparr>]"
proof -
  let ?d = "\<lambda>i. (m_domainInfo a)\<lparr>m_wampIp := dotted i\<rparr>"
  let ?ds = "map ?d (ip # ips)" and ?bss = "map (\<lambda>i. encode mp (announcement (?d i))) (ip # ips)"
  have addresses: "set (ip # ips) = inet_addresses ifas"
    unfolding assms(5) [symmetric] by simp
  from announcement_round [OF assms(1-4), of mp] obtain a' where
    a': "complete_times (Suc (Suc (length ips))) (announcer_complete mp lib (\<lambda>_. True) (Some ifas) None) a =
      (Ok (), a')" "sent a' = sent a @ map (\<lambda>i. (i, encode mp (announcement (?d i)))) (ip # ips)"
    by (auto simp: assms(5))
  have sent: "map (\<lambda>i. (i, encode mp (announcement (?d i)))) (ip # ips) = zip (ip # ips) ?bss"
    by (simp add: zip_map2 zip_same_conv_map)
  have "list_all2 (announces dg) ?bss ?ds"
    unfolding list_all2_map1 list_all2_map2 list_all2_same
    using assms(7) addresses by (auto simp: Let_def)
  moreover have "\<forall>bytes \<in> set ?bss. length bytes \<le> RX_BUFFER_SIZE"
    using assms(7) addresses by (auto simp: Let_def)
  moreover have "first_of_each (m_knownDomains l) ?ds = [?d ip]"
    using assms(9) same_name_once [of "map ?d ips" "m_domainName (m_domainInfo a)"] by auto
  ultimately obtain l' where "receive_all dg record_discovery ?bss l = (Ok (), l')"
      "discovered l' = discovered l @ [?d ip]"
    using discoveries [OF assms(6) _ _ assms(8)] by metis
  moreover have "length ?bss = Suc (length ips)" by simp
  moreover note a' [unfolded sent]
  ultimately show ?thesis by blast
qed

section \<open>Examples\<close>

text \<open>Texts and markers as bytes, for the examples.\<close>

fun text_bytes :: "pack_call \<Rightarrow> byte list" where
  "text_bytes (Pack_String s) = map of_char s @ [0xFF]"
| "text_bytes _ = [0]"

definition text_mp :: msgpack where
  "text_mp = msgpack_example\<lparr>encode := \<lambda>b. concat (map text_bytes b)\<rparr>"

definition domain_at :: "ipv4 \<Rightarrow> domain_info" where
  "domain_at ip = \<lparr>m_wampIp = dotted ip, m_wampPort = 8000, m_domainName = ''a'', m_realmName = ''r''\<rparr>"

definition idle_announcer :: announcer where
  "idle_announcer = (new_announcer 0 8000 ''a'' ''r'')\<lparr>announcer_ops := [Await_Timer]\<rparr>"

lemma idle_announcer_simps [simp]:
  "m_outgoingAnnouncements idle_announcer = []" "announcer_ops idle_announcer = [Await_Timer]"
  "(m_domainInfo idle_announcer)\<lparr>m_wampIp := dotted ip\<rparr> = domain_at ip"
  by (simp_all add: idle_announcer_def new_announcer_def domain_at_def set_wampPort_def
      set_realmName_def set_domainName_def new_domain_info_def)

definition quiet_recorder :: recorder where
  "quiet_recorder = listener.extend (new_listener\<lparr>receives := 1\<rparr>) (recorder.fields [])"

lemma quiet_recorder_simps [simp]:
  "receives quiet_recorder = 1" "m_knownDomains quiet_recorder = Map.empty"
  "discovered quiet_recorder = []"
  by (simp_all add: quiet_recorder_def new_listener_def listener.defs notifier.defs recorder.defs
      new_notifier_def)

theorem announced_domain_discovered_witness:
  "\<exists>a' l' datagrams. complete_times 3
        (announcer_complete text_mp ip_example (\<lambda>_. True)
          (Some [Some (Inet_Address 9), Some (Inet_Address 5)]) None) idle_announcer = (Ok (), a') \<and>
    sent a' = zip [5, 9] datagrams \<and> length datagrams = 2 \<and>
    receive_all (example_datagrams text_mp [domain_at 5, domain_at 9]) record_discovery datagrams
      quiet_recorder = (Ok (), l') \<and> discovered l' = [domain_at 5]"
proof -
  let ?dg = "example_datagrams text_mp [domain_at 5, domain_at 9]"
  let ?ifas = "[Some (Inet_Address 9), Some (Inet_Address 5)]"
  have "announces ?dg (encode text_mp (announcement (domain_at 5))) (domain_at 5)"
    "announces ?dg (encode text_mp (announcement (domain_at 9))) (domain_at 9)"
    by (rule example_announces, code_simp)+
  moreover have "length (encode text_mp (announcement (domain_at 5))) \<le> RX_BUFFER_SIZE"
    "length (encode text_mp (announcement (domain_at 9))) \<le> RX_BUFFER_SIZE"
    by code_simp+
  moreover have "sent idle_announcer = []" by (simp add: idle_announcer_def new_announcer_def)
  moreover have "sorted_list_of_set (inet_addresses ?ifas) = [5, 9]" by code_simp
  ultimately show ?thesis
    using announced_domain_discovered [OF ip_example_ok, of ?ifas idle_announcer 5 "[9]" ?dg text_mp
        quiet_recorder]
    by (simp add: Let_def numeral_3_eq_3 numeral_2_eq_2 del: complete_times.simps receive_all.simps)
qed

section \<open>Listening goes on\<close>

text \<open>C32: The listener goes on listening exactly when the handling of a datagram throws nothing.  A
  datagram that does not decode, one cut off by the buffer among them, ends the reception of all
  later ones; a datagram of another version does not.\<close>

theorem listening_goes_on:
  fixes slot :: "domain_info \<Rightarrow> ('a listener_scheme, unit) action"
  assumes "\<And>d l. receives (snd (slot d l)) = receives l" and "receives l = 1"
  shows "(receives (snd (receive_datagram dg slot bytes l)) = 1 \<longleftrightarrow>
      fst (receive_datagram dg slot bytes l) = Ok ()) \<and>
    (unpack_at dg (take RX_BUFFER_SIZE bytes) 0 = Throw e \<longrightarrow>
      receive_datagram dg slot bytes l = (Throw e, l\<lparr>receives := 0\<rparr>)) \<and>
    (unpack_at dg (take RX_BUFFER_SIZE bytes) 0 = Ok (v, k) \<and> \<not> is_positive_integer v \<longrightarrow>
      receive_datagram dg slot bytes l = (Ok (), l))"
proof (intro conjI impI)
  let ?m = "case None :: io_error option of
          Some _ \<Rightarrow> ret ()
        | None \<Rightarrow> bind_act (lift_result (unpack_at dg (take RX_BUFFER_SIZE bytes) 0)) (\<lambda>version.
            if is_positive_integer (fst version) then
              bind_act (lift_result (or_throw (as_uint8 dg (fst version)) (Library_Error Msgpack_Type_Error)))
                (\<lambda>v. if v = PROTOCOL_VERSION_NUMBER
                     then discover dg slot (take RX_BUFFER_SIZE bytes) (snd version) else ret ())
            else ret ())"
  have "keeps (\<lambda>l. receives l = 0) (slot d)" for d
    by (simp add: keeps_def assms(1))
  then have "keeps (\<lambda>l. receives l = 0) ?m"
    unfolding discover_def option.case by (intro keep_intros keeps_update) simp_all
  then have "receives (snd (?m (l\<lparr>receives := 0\<rparr>))) = 0" by (rule keepsD) simp
  moreover have "receive_datagram dg slot bytes l =
      and_then ?m (queue_receive None) (l\<lparr>receives := 0\<rparr>)"
    by (simp add: receive_datagram_def on_receive_def assms(2) and_then_def bind_act_def update_def)
  ultimately show "receives (snd (receive_datagram dg slot bytes l)) = 1 \<longleftrightarrow>
      fst (receive_datagram dg slot bytes l) = Ok ()"
    by (cases "?m (l\<lparr>receives := 0\<rparr>)"; cases "fst (?m (l\<lparr>receives := 0\<rparr>))")
      (simp_all add: and_then_def bind_act_def queue_receive_def update_def)
qed (auto simp: receive_datagram_def on_receive_def action_defs queue_receive_def assms(2))

theorem listening_goes_on_witness:
  "receives (snd (receive_datagram (example_datagrams text_mp []) record_discovery [1, 2, 3]
     quiet_recorder)) = 0"
proof -
  have "unpack_at (example_datagrams text_mp []) (take RX_BUFFER_SIZE [1, 2, 3]) 0 =
      Throw (Library_Error Msgpack_Parse_Error)"
    by (simp add: example_datagrams_def example_unpack_def)
  then show ?thesis
    using listening_goes_on [of record_discovery quiet_recorder "example_datagrams text_mp []" "[1, 2, 3]"]
    by (simp add: record_discovery_def update_def)
qed

end
