(* ===== verification/Session_Lifecycle.thy ===== *)
theory Session_Lifecycle
  imports Session_Handlers
begin

text \<open>
  The life of a session: handshake, joining, requests in and outside a joined session, leaving,
  the router's GOODBYE, read errors, stopping, and the invariants of all reachable sessions.
\<close>

section \<open>Handshake\<close>

text \<open>The RawSocket handshake: the future becomes true and the session starts to read messages
  exactly when the first byte of the reply is the magic byte and the low nibble of the second one
  names the MsgPack serializer; otherwise the future becomes false, nothing is read any more and
  an exception names the reason.\<close>

lemma handshake_reply_effect:
  assumes "pending_reads s = [Read_Handshake]" and "\<not> satisfied (m_handshake s)"
  shows "complete_read mp u (Read_Ok [b0, b1, b2, b3]) s =
    (let s1 = s\<lparr>m_buffer_message_length := [b0, b1, b2, b3], pending_reads := []\<rparr>;
         hand = (\<lambda>v. s1\<lparr>m_handshake := (m_handshake s)\<lparr>shared_state := Has_Value v\<rparr>\<rparr>)
     in if b0 \<noteq> 0x7F then
          (Throw (Protocol_Error ''invalid magic byte in RawSocket handshake response''), hand False)
        else if and b1 0x0F \<noteq> 2 then
          (Throw (Protocol_Error ''RawSocket handshake reply: server does not speak MsgPack encoding''),
           hand False)
        else (Ok (), (hand True)\<lparr>pending_reads := [Read_Header]\<rparr>))"
  using assms
  by (cases s)
    (simp add: complete_read_def got_handshake_reply_def on_handshake_def set_value_cases
       protocol_error_def action_defs receive_message_def Let_def)

section \<open>Joining\<close>

lemma welcome_effect:
  assumes "msgpack_ok mp"
  shows "got_message mp u (ARRAY (POSITIVE_INTEGER 2 # POSITIVE_INTEGER i # rest)) z s =
    (if satisfied (m_session_join s)
     then (Throw (Library_Error Promise_Already_Satisfied), s\<lparr>m_session_id := i\<rparr>)
     else (Ok (), s\<lparr>m_session_id := i,
                    m_session_join := (m_session_join s)\<lparr>shared_state := Has_Value i\<rparr>\<rparr>))"
  using assms
  by (cases s) (simp add: got_message_code process_welcome_def receive_defs action_defs on_join_def
      set_value_cases)

lemma join_effect:
  assumes "alive s" and "\<not> m_stopped s" and "fail_after (m_out s) = None"
    and "\<not> future_retrieved (m_session_join s)"
  shows "join mp True realm s =
    (if m_session_id s \<noteq> 0 then (Throw (Protocol_Error ''session already joined''), s)
     else (Ok (), s\<lparr>m_out := (m_out s)\<lparr>written := written (m_out s) @ frame mp (hello_message realm)\<rparr>,
                    m_session_join := (m_session_join s)\<lparr>future_retrieved := True\<rparr>\<rparr>))"
  using assms
  by (simp add: join_def io_dispatch_def join_task_def action_defs send_healthy on_join_def
      get_future_def)

text \<open>C29: Opening a session.  The handshake future becomes true and the session starts to read messages
  exactly when the first byte of the reply is the magic byte and the low nibble of the second one
  names the MsgPack serializer; otherwise it becomes false, nothing is read any more and an exception
  names the reason.  Joining sends one HELLO for the realm unless the session is joined already.
  WELCOME enters its session id and resolves the join future; a second WELCOME still replaces the id
  and then throws.\<close>

theorem session_opening:
  assumes "msgpack_ok mp"
  shows "(pending_reads s = [Read_Handshake] \<and> \<not> satisfied (m_handshake s) \<longrightarrow>
      complete_read mp u (Read_Ok [b0, b1, b2, b3]) s =
        (let s1 = s\<lparr>m_buffer_message_length := [b0, b1, b2, b3], pending_reads := []\<rparr>;
             hand = (\<lambda>v. s1\<lparr>m_handshake := (m_handshake s)\<lparr>shared_state := Has_Value v\<rparr>\<rparr>)
         in if b0 \<noteq> 0x7F then
              (Throw (Protocol_Error ''invalid magic byte in RawSocket handshake response''), hand False)
            else if and b1 0x0F \<noteq> 2 then
              (Throw (Protocol_Error
                 ''RawSocket handshake reply: server does not speak MsgPack encoding''), hand False)
            else (Ok (), (hand True)\<lparr>pending_reads := [Read_Header]\<rparr>))) \<and>
    (alive s \<and> \<not> m_stopped s \<and> fail_after (m_out s) = None \<and> \<not> future_retrieved (m_session_join s) \<longrightarrow>
      join mp True realm s =
        (if m_session_id s \<noteq> 0 then (Throw (Protocol_Error ''session already joined''), s)
         else (Ok (), s\<lparr>m_out := (m_out s)\<lparr>written := written (m_out s) @ frame mp (hello_message realm)\<rparr>,
                        m_session_join := (m_session_join s)\<lparr>future_retrieved := True\<rparr>\<rparr>))) \<and>
    got_message mp u (ARRAY (POSITIVE_INTEGER 2 # POSITIVE_INTEGER i # rest)) z s =
      (if satisfied (m_session_join s)
       then (Throw (Library_Error Promise_Already_Satisfied), s\<lparr>m_session_id := i\<rparr>)
       else (Ok (), s\<lparr>m_session_id := i,
                      m_session_join := (m_session_join s)\<lparr>shared_state := Has_Value i\<rparr>\<rparr>))"
  by (intro conjI impI handshake_reply_effect join_effect welcome_effect [OF assms]) simp_all

theorem session_opening_witness:
  "pending_reads (snd (complete_read demo_mp silent_user (Read_Ok [0x7F, 0xF2, 0, 0])
     ((new_session healthy)\<lparr>pending_reads := [Read_Handshake]\<rparr>))) = [Read_Header] \<and>
   fst (join demo_mp True ''realm1'' ((new_session healthy)\<lparr>pending_reads := [Read_Handshake]\<rparr>)) = Ok ()"
proof -
  let ?s = "(new_session healthy)\<lparr>pending_reads := [Read_Handshake]\<rparr>"
  note facts = session_opening [OF demo_mp_ok(1), of ?s silent_user "0x7F" "0xF2" 0 0 "''realm1''"]
  have "pending_reads (snd (complete_read demo_mp silent_user (Read_Ok [0x7F, 0xF2, 0, 0]) ?s)) = [Read_Header]"
    using facts [THEN conjunct1] by (simp add: new_session_def Let_def)
  moreover have "fst (join demo_mp True ''realm1'' ?s) = Ok ()"
    using facts [THEN conjunct2, THEN conjunct1] by (simp add: new_session_def healthy_def)
  ultimately show ?thesis ..
qed

section \<open>Requests\<close>

text \<open>The four tables of outstanding requests.\<close>

definition same_tables :: "session \<Rightarrow> session \<Rightarrow> bool" where
  "same_tables s s' \<longleftrightarrow>
     m_calls s' = m_calls s \<and> m_subscribe_requests s' = m_subscribe_requests s \<and>
     m_unsubscribe_requests s' = m_unsubscribe_requests s \<and>
     m_register_requests s' = m_register_requests s"

text \<open>The operations that need a joined session.\<close>

fun needs_session :: "api_call \<Rightarrow> bool" where
  "needs_session Api_Stop = False"
| "needs_session (Api_Join _) = False"
| "needs_session _ = True"

text \<open>Outside a joined session every request throws \<open>no_session_error\<close> on the io thread, writes
  nothing and leaves no entry in any table.\<close>

lemma request_without_session:
  assumes "alive s" and "m_session_id s = 0" and "needs_session c"
  shows "fst (run_api mp True c s) = Throw No_Session_Error \<and>
    m_out (snd (run_api mp True c s)) = m_out s \<and> same_tables s (snd (run_api mp True c s))"
  using assms
  by (cases c)
    (simp_all add: no_value_def future_of_def action_defs leave_def request_defs publish_defs
      io_dispatch_def task_defs release_defs next_request_id_def alloc_defs same_tables_def)

text \<open>The requests that return a future of their own, the table each enters and its message.\<close>

fun makes_request :: "api_call \<Rightarrow> bool" where
  "makes_request (Api_Subscribe _ _) = True"
| "makes_request (Api_Unsubscribe _) = True"
| "makes_request (Api_Provide _ _ _) = True"
| "makes_request (Api_Call _) = True"
| "makes_request (Api_Call_Args _ _) = True"
| "makes_request (Api_Call_Kw _ _ _) = True"
| "makes_request _ = False"

fun request_table :: "api_call \<Rightarrow> session \<Rightarrow> (u64 \<rightharpoonup> nat)" where
  "request_table (Api_Subscribe _ _) s = m_subscribe_requests s"
| "request_table (Api_Unsubscribe _) s = m_unsubscribe_requests s"
| "request_table (Api_Provide _ _ _) s = m_register_requests s"
| "request_table _ s = m_calls s"

fun request_message :: "api_call \<Rightarrow> u64 \<Rightarrow> buffer" where
  "request_message (Api_Subscribe topic h) = subscribe_message topic"
| "request_message (Api_Unsubscribe sub) = unsubscribe_message sub"
| "request_message (Api_Provide name f options) = register_message name options"
| "request_message (Api_Publish topic) = publish_message topic"
| "request_message (Api_Publish_Args topic a) = publish_args_message topic a"
| "request_message (Api_Publish_Kw topic a k) = publish_kw_message topic a k"
| "request_message (Api_Call g) = call_message g"
| "request_message (Api_Call_Args g a) = call_args_message g a"
| "request_message (Api_Call_Kw g a k) = call_kw_message g a k"
| "request_message (Api_Join realm) = (\<lambda>_. hello_message realm)"
| "request_message (Api_Leave reason) = (\<lambda>_. goodbye_message reason)"
| "request_message Api_Stop = (\<lambda>_. [])"

lemma future_of_simps:
  "snd (future_of m s) = snd (m s)"
  "fst (m s) = Ok p \<Longrightarrow> fst (future_of m s) = Ok (Some p)"
  by (cases "m s"; cases "fst (m s)"; simp add: future_of_def action_defs)+

lemma request_table_fresh:
  assumes "reachable mp u s" and "Suc (m_request_id s) < 2 ^ 64"
  shows "request_table c s (word_of_nat (Suc (m_request_id s))) = None"
proof (rule map_fresh_id [OF _ assms(2)])
  have "ids_issued (io_queue s) s"
    using reachable_requests_ok [OF assms(1)] by (simp add: requests_ok_def tables_ok_def)
  then show "dom (request_table c s) \<subseteq> word_of_nat ` {0 <.. m_request_id s}"
    by (cases c) (simp_all add: ids_issued_def issued_ids_def)
qed

text \<open>In a joined session whose stream works, a subscribe, unsubscribe, register or call request
  takes the next id and a fresh object, enters it under that id, which no entry has while fewer
  than \<open>2 ^ 64\<close> ids have been issued, and writes exactly one frame carrying the id.\<close>

lemma request_in_session:
  assumes "reachable mp u s" and "alive s" and "m_session_id s \<noteq> 0" and "\<not> m_stopped s"
    and "fail_after (m_out s) = None" and "Suc (m_request_id s) < 2 ^ 64" and "makes_request c"
  shows "let rid = word_of_nat (Suc (m_request_id s)); s' = snd (run_api mp True c s)
    in fst (run_api mp True c s) = Ok (Some (heap_next s)) \<and>
       request_table c s rid = None \<and>
       request_table c s' = (request_table c s)(rid \<mapsto> heap_next s) \<and>
       written (m_out s') = written (m_out s) @ frame mp (request_message c rid)"
  using assms(7) request_table_fresh [OF assms(1,6), of c]
    subscribe_op.request_joined [OF assms(2-5)] unsubscribe_op.request_joined [OF assms(2-5)]
    provide_op.request_joined [OF assms(2-5)] call_op.request_joined [OF assms(2-5)]
    call_args_op.request_joined [OF assms(2-5)] call_kw_op.request_joined [OF assms(2-5)]
  by (cases c) (simp_all add: Let_def future_of_simps del: of_nat_Suc)

text \<open>C4: A request on the io thread.  In a joined session whose stream works, a subscribe, unsubscribe,
  register or call request takes the next id and a fresh object, enters it under that id, which no
  entry has while fewer than \<open>2 ^ 64\<close> ids have been issued, and writes exactly one frame carrying
  the id.  Outside a joined session every operation that needs one throws \<open>no_session_error\<close>, writes
  nothing and leaves no entry in any table.\<close>

theorem request_outcome:
  assumes "reachable mp u s" and "alive s"
  shows "(m_session_id s \<noteq> 0 \<and> \<not> m_stopped s \<and> fail_after (m_out s) = None \<and>
     Suc (m_request_id s) < 2 ^ 64 \<and> makes_request c \<longrightarrow>
      (let rid = word_of_nat (Suc (m_request_id s)); s' = snd (run_api mp True c s)
       in fst (run_api mp True c s) = Ok (Some (heap_next s)) \<and>
          request_table c s rid = None \<and>
          request_table c s' = (request_table c s)(rid \<mapsto> heap_next s) \<and>
          written (m_out s') = written (m_out s) @ frame mp (request_message c rid))) \<and>
    (m_session_id s = 0 \<and> needs_session c \<longrightarrow>
      fst (run_api mp True c s) = Throw No_Session_Error \<and>
      m_out (snd (run_api mp True c s)) = m_out s \<and> same_tables s (snd (run_api mp True c s)))"
  using request_in_session [OF assms, of c] request_without_session [OF assms(2), of c] by blast

theorem request_outcome_witness:
  "fst (run_api demo_mp True (Api_Call ''add'') (demo [])) = Ok (Some 0) \<and>
   fst (run_api demo_mp True (Api_Call ''add'') (new_session healthy)) = Throw No_Session_Error"
proof
  have "enabled demo_mp silent_user (join_moves @ [])" by code_simp
  then have reach: "reachable demo_mp silent_user (demo [])" by (rule demo_reachable)
  have "alive (demo [])" "m_session_id (demo []) \<noteq> 0" "\<not> m_stopped (demo [])"
    "fail_after (m_out (demo [])) = None" by code_simp+
  moreover have "m_request_id (demo []) = 0" by code_simp
  ultimately have
    "fst (run_api demo_mp True (Api_Call ''add'') (demo [])) = Ok (Some (heap_next (demo [])))"
    using request_outcome [OF reach, of "Api_Call ''add''"] by (simp add: Let_def)
  moreover have "heap_next (demo []) = 0" by code_simp
  ultimately show "fst (run_api demo_mp True (Api_Call ''add'') (demo [])) = Ok (Some 0)" by simp
  show "fst (run_api demo_mp True (Api_Call ''add'') (new_session healthy)) = Throw No_Session_Error"
    using request_outcome [OF reachable_new [of demo_mp silent_user], of "Api_Call ''add''"]
    by (simp add: new_session_def)
qed

text \<open>A publication takes the next id and writes exactly one frame; it enters no table, so
  nothing waits for the router's acknowledgement.\<close>

lemma publish_in_session:
  assumes "alive s" and "m_session_id s \<noteq> 0" and "\<not> m_stopped s" and "fail_after (m_out s) = None"
    and "c \<in> {Api_Publish topic, Api_Publish_Args topic a, Api_Publish_Kw topic a k}"
  shows "run_api mp True c s =
    (Ok None, s\<lparr>m_request_id := Suc (m_request_id s),
                m_out := (m_out s)\<lparr>written := written (m_out s) @
                  frame mp (request_message c (word_of_nat (Suc (m_request_id s))))\<rparr>\<rparr>)"
  using assms
  by (cases s)
    (auto simp: no_value_def action_defs publish_defs io_dispatch_def publish_task_def
      next_request_id_def send_healthy simp del: of_nat_Suc)

text \<open>C28: A request made on another thread always returns its future and only queues its function.
  When the io thread runs the function next, the session ends in the state the inline call would
  have produced; in particular \<open>no_session_error\<close> then reaches the io thread, not the caller.\<close>

theorem queued_request:
  assumes "io_queue s = []" and "makes_request c"
  shows "let s1 = snd (run_api mp False c s)
    in fst (run_api mp False c s) = Ok (Some (heap_next s)) \<and>
       length (io_queue s1) = 1 \<and> m_out s1 = m_out s \<and>
       snd (run_next_task mp s1) = snd (run_api mp True c s)"
proof -
  have next_task: "io_queue s1 = [t] \<Longrightarrow> snd (run_next_task mp s1) =
      snd (run_task mp (hd (io_queue s1)) (s1\<lparr>io_queue := tl (io_queue s1)\<rparr>))" for s1 t
    by (simp add: run_next_task_def)
  show ?thesis
    using assms(2)
      subscribe_op.request_queued [where s = s] subscribe_op.request_queued_run [OF assms(1)]
      unsubscribe_op.request_queued [where s = s] unsubscribe_op.request_queued_run [OF assms(1)]
      provide_op.request_queued [where s = s] provide_op.request_queued_run [OF assms(1)]
      call_op.request_queued [where s = s] call_op.request_queued_run [OF assms(1)]
      call_args_op.request_queued [where s = s] call_args_op.request_queued_run [OF assms(1)]
      call_kw_op.request_queued [where s = s] call_kw_op.request_queued_run [OF assms(1)]
    by (cases c) (simp_all add: Let_def future_of_simps assms(1) next_task del: of_nat_Suc)
qed

theorem queued_request_witness:
  "fst (run_api demo_mp False (Api_Call ''add'') (new_session healthy)) = Ok (Some 0)"
  using queued_request [of "new_session healthy" "Api_Call ''add''" demo_mp]
  by (simp add: Let_def new_session_def)

section \<open>Leaving\<close>

text \<open>Leaving a joined session sends one GOODBYE with the given reason and forgets the session
  id, so that every later request, a second \<open>leave\<close> included, throws \<open>no_session_error\<close>.\<close>

lemma leave_effect:
  assumes "alive s" and "m_session_id s \<noteq> 0" and "\<not> m_goodbye_sent s" and "\<not> m_stopped s"
    and "fail_after (m_out s) = None" and "\<not> future_retrieved (m_session_leave s)"
  shows "leave mp True reason s =
      (Ok (), s\<lparr>m_goodbye_sent := True, m_session_id := 0,
        m_out := (m_out s)\<lparr>written := written (m_out s) @ frame mp (goodbye_message reason)\<rparr>,
        m_session_leave := (m_session_leave s)\<lparr>future_retrieved := True\<rparr>\<rparr>) \<and>
    (\<forall>c. needs_session c \<longrightarrow>
       fst (run_api mp True c (snd (leave mp True reason s))) = Throw No_Session_Error)"
proof -
  let ?s' = "s\<lparr>m_goodbye_sent := True, m_session_id := 0,
        m_out := (m_out s)\<lparr>written := written (m_out s) @ frame mp (goodbye_message reason)\<rparr>,
        m_session_leave := (m_session_leave s)\<lparr>future_retrieved := True\<rparr>\<rparr>"
  have "leave mp True reason s = (Ok (), ?s')"
    using assms
    by (simp add: leave_def io_dispatch_def leave_task_def action_defs send_healthy on_leave_def
        get_future_def)
  moreover have "needs_session c \<Longrightarrow> fst (run_api mp True c ?s') = Throw No_Session_Error" for c
    using assms(1)
    by (cases c)
      (simp_all add: no_value_def future_of_def action_defs leave_def request_defs publish_defs
        io_dispatch_def task_defs next_request_id_def alloc_defs)
  ultimately show ?thesis by simp
qed

text \<open>GOODBYE from the router ends the session and resolves the leave future with the router's
  reason; it is answered by a GOODBYE exactly when the session has not sent one itself.\<close>

lemma goodbye_effect:
  assumes "msgpack_ok mp" and "\<not> m_stopped s" and "fail_after (m_out s) = None"
    and "\<not> satisfied (m_session_leave s)"
  shows "got_message mp u (ARRAY (POSITIVE_INTEGER 6 # d # STR_OBJ reason # rest)) z s =
    (Ok (), s\<lparr>m_session_id := 0,
       m_out := (if m_goodbye_sent s then m_out s
                 else (m_out s)\<lparr>written := written (m_out s) @
                        frame mp (goodbye_message ''wamp.error.goodbye_and_out'')\<rparr>),
       m_session_leave := (m_session_leave s)\<lparr>shared_state := Has_Value reason\<rparr>\<rparr>)"
  using assms
  by (cases s)
    (simp add: got_message_code process_goodbye_def receive_defs action_defs on_leave_def
       set_value_cases send_healthy)

text \<open>C19: Leaving.  Leaving a joined session sends one GOODBYE with the given reason and forgets the session
  id, so that every later request, a second \<open>leave\<close> included, throws \<open>no_session_error\<close>; the
  router's GOODBYE then resolves the leave future with the router's reason and nothing more is
  written.  A GOODBYE the session has not asked for ends the session too, and is answered.\<close>

theorem leaving:
  assumes "msgpack_ok mp" and "alive s" and "m_session_id s \<noteq> 0" and "\<not> m_goodbye_sent s"
    and "\<not> m_stopped s" and "fail_after (m_out s) = None" and "m_session_leave s = new_promise"
  shows "let s' = snd (leave mp True reason s); p = new_promise\<lparr>future_retrieved := True\<rparr>;
      bye = ARRAY (POSITIVE_INTEGER 6 # d # STR_OBJ answer # rest)
    in leave mp True reason s =
        (Ok (), s\<lparr>m_goodbye_sent := True, m_session_id := 0,
          m_out := (m_out s)\<lparr>written := written (m_out s) @ frame mp (goodbye_message reason)\<rparr>,
          m_session_leave := p\<rparr>) \<and>
       (\<forall>c. needs_session c \<longrightarrow> fst (run_api mp True c s') = Throw No_Session_Error) \<and>
       got_message mp u bye z s' =
        (Ok (), s'\<lparr>m_session_leave := p\<lparr>shared_state := Has_Value answer\<rparr>\<rparr>) \<and>
       got_message mp u bye z s =
        (Ok (), s\<lparr>m_session_id := 0,
          m_out := (m_out s)\<lparr>written := written (m_out s) @
                     frame mp (goodbye_message ''wamp.error.goodbye_and_out'')\<rparr>,
          m_session_leave := new_promise\<lparr>shared_state := Has_Value answer\<rparr>\<rparr>)"
proof -
  have open_p: "\<not> future_retrieved (m_session_leave s)" "\<not> satisfied (m_session_leave s)"
    "\<not> satisfied (new_promise\<lparr>future_retrieved := True\<rparr>)"
    using assms(7) by (simp_all add: new_promise_def satisfied_def)
  note left = leave_effect [OF assms(2-6) open_p(1), of mp reason, THEN conjunct1]
    and later = leave_effect [OF assms(2-6) open_p(1), of mp reason, THEN conjunct2]
  have "got_message mp u (ARRAY (POSITIVE_INTEGER 6 # d # STR_OBJ answer # rest)) z
      (snd (leave mp True reason s)) =
      (Ok (), (snd (leave mp True reason s))\<lparr>m_session_leave :=
        (new_promise\<lparr>future_retrieved := True\<rparr>)\<lparr>shared_state := Has_Value answer\<rparr>\<rparr>)"
    using goodbye_effect [OF assms(1), of "snd (leave mp True reason s)"] left assms(5-7) open_p(3)
    by simp
  moreover note goodbye_effect [OF assms(1,5,6) open_p(2), of u d answer rest z]
  ultimately show ?thesis
    unfolding Let_def using later left assms(4,7) by (intro conjI) simp_all
qed

theorem leaving_witness:
  "fst (leave demo_mp True ''bye'' (demo [])) = Ok () \<and>
   m_session_id (snd (got_message demo_mp silent_user
     (ARRAY [POSITIVE_INTEGER 6, MAP [], STR_OBJ ''shutdown'']) 0 (demo []))) = 0"
proof -
  have "alive (demo [])" "m_session_id (demo []) \<noteq> 0" "\<not> m_goodbye_sent (demo [])"
    "\<not> m_stopped (demo [])" "fail_after (m_out (demo [])) = None"
    "m_session_leave (demo []) = new_promise" by code_simp+
  from leaving [OF demo_mp_ok(1) this, of "''bye''" "MAP []" "''shutdown''" "[]" silent_user 0]
  show ?thesis unfolding Let_def by simp
qed

section \<open>Stopping\<close>

text \<open>A session can be stopped once, and not while it is joined: then both streams are closed
  and the stop future is resolved; otherwise an exception is thrown and nothing changes.\<close>

lemma stop_effect:
  assumes "reachable mp u s" and "alive s" and "\<not> future_retrieved (m_session_stop s)"
  shows "stop mp True s =
    (if m_stopped s then (Throw (Protocol_Error ''session already stopped''), s)
     else if m_session_id s \<noteq> 0 then (Throw (Protocol_Error ''session still joined''), s)
     else (Ok (), s\<lparr>m_stopped := True, m_in_open := False,
                    m_out := (m_out s)\<lparr>fail_after := Some 0\<rparr>,
                    m_session_stop := (m_session_stop s)\<lparr>shared_state := Has_Value (),
                                                           future_retrieved := True\<rparr>\<rparr>))"
proof -
  have "\<not> m_stopped s \<Longrightarrow> \<not> satisfied (m_session_stop s)"
    using flags.reachable_P [OF assms(1)] assms(2) by (simp add: fields_ok_def)
  with assms show ?thesis
    by (cases s)
      (simp add: stop_def io_dispatch_def stop_task_def action_defs on_stop_def set_value_cases
         close_out_def get_future_def)
qed

text \<open>Stopping is final: whatever a session does afterwards, it stays stopped and its output
  stream never changes again.\<close>

lemma stopped_is_final:
  assumes "reachable mp u s" and "m_stopped s" and "(session_step mp u)\<^sup>*\<^sup>* s s'"
  shows "m_stopped s' \<and> m_out s' = m_out s"
proof -
  have "closed_at (m_out s) s"
    using flags.reachable_P [OF assms(1)] assms(2) by (simp add: fields_ok_def closed_at_def)
  then have "closed_at (m_out s) s'"
    using closed.steps_P [OF assms(3)] flags.reachable_P [OF assms(1)] by blast
  then show ?thesis by (simp add: closed_at_def)
qed

text \<open>C13: Stopping.  A session can be stopped once, and not while it is joined: then both streams are
  closed and the stop future is resolved; otherwise an exception is thrown and nothing changes.
  Stopping is final: whatever a session does afterwards, it stays stopped and its output stream
  never changes again.\<close>

theorem stopping:
  assumes "reachable mp u s"
  shows "(alive s \<and> \<not> future_retrieved (m_session_stop s) \<longrightarrow>
      stop mp True s =
        (if m_stopped s then (Throw (Protocol_Error ''session already stopped''), s)
         else if m_session_id s \<noteq> 0 then (Throw (Protocol_Error ''session still joined''), s)
         else (Ok (), s\<lparr>m_stopped := True, m_in_open := False,
                        m_out := (m_out s)\<lparr>fail_after := Some 0\<rparr>,
                        m_session_stop := (m_session_stop s)\<lparr>shared_state := Has_Value (),
                                                               future_retrieved := True\<rparr>\<rparr>))) \<and>
    (m_stopped s \<and> (session_step mp u)\<^sup>*\<^sup>* s s' \<longrightarrow> m_stopped s' \<and> m_out s' = m_out s)"
  using stop_effect [OF assms] stopped_is_final [OF assms] by blast

theorem stopping_witness:
  "let s = after_run demo_mp silent_user [Do_Start, Do_Api True Api_Stop];
       s' = snd (run_api demo_mp False (Api_Join ''realm1'') s)
   in m_stopped s' \<and> m_out s' = m_out s"
proof -
  let ?ms = "[Do_Start, Do_Api True Api_Stop]"
  let ?s = "after_run demo_mp silent_user ?ms"
  have "enabled demo_mp silent_user ?ms" by code_simp
  then have reach: "reachable demo_mp silent_user ?s" by (rule after_run_reachable)
  have stopped: "m_stopped ?s" by code_simp
  have "alive ?s" "fst (run_api demo_mp False (Api_Join ''realm1'') ?s) \<noteq> Undefined_Behaviour"
    by code_simp+
  then have "session_step demo_mp silent_user ?s (snd (run_api demo_mp False (Api_Join ''realm1'') ?s))"
    by (intro step_api [OF _ surjective_pairing])
  then show ?thesis
    unfolding Let_def using stopping [OF reach] stopped r_into_rtranclp by metis
qed

section \<open>Read errors\<close>

text \<open>C17: A read error other than a cancelled read resolves the leave future with ''socket closed'',
  says goodbye, stops the session and is reported, but only in a joined session that nobody has
  asked to leave or stop yet; in a session that is not joined the handler ends in an exception:
  the session is not stopped and the error not reported.\<close>

theorem read_error_effect:
  assumes "alive s" and "\<not> m_stopped s" and "\<not> m_goodbye_sent s"
    and "\<not> satisfied (m_session_stop s)" and "\<not> future_retrieved (m_session_leave s)"
    and "\<not> future_retrieved (m_session_stop s)" and "fail_after (m_out s) = None"
  defines "closed \<equiv> (m_session_leave s)\<lparr>shared_state := Has_Value ''socket closed''\<rparr>"
  shows "handle_rx_error mp e s =
    (if e = Operation_Aborted then (Ok (), s)
     else if satisfied (m_session_leave s) then (Throw (Library_Error Promise_Already_Satisfied), s)
     else if m_session_id s = 0 then (Throw No_Session_Error, s\<lparr>m_session_leave := closed\<rparr>)
     else (Ok (), s\<lparr>m_session_leave := closed\<lparr>future_retrieved := True\<rparr>,
       m_goodbye_sent := True, m_session_id := 0, m_stopped := True, m_in_open := False,
       m_out := \<lparr>written = written (m_out s) @ frame mp (goodbye_message ''wamp.error.close_realm''),
                 fail_after = Some 0\<rparr>,
       m_session_stop := (m_session_stop s)\<lparr>shared_state := Has_Value (), future_retrieved := True\<rparr>,
       rx_errors := rx_errors s @ [e]\<rparr>))"
  using assms
  by (cases s; cases "m_out s")
    (simp add: handle_rx_error_def action_defs on_leave_def on_stop_def set_value_cases leave_def
       stop_def io_dispatch_def leave_task_def stop_task_def send_healthy get_future_def close_out_def)

theorem read_error_effect_witness:
  "fst (handle_rx_error demo_mp (Io_Error 2) (new_session healthy)) = Throw No_Session_Error \<and>
   rx_errors (snd (handle_rx_error demo_mp (Io_Error 2) (demo []))) = [Io_Error 2]"
proof
  show "fst (handle_rx_error demo_mp (Io_Error 2) (new_session healthy)) = Throw No_Session_Error"
    by (subst read_error_effect) (simp_all add: new_session_def healthy_def)
  have "alive (demo [])" "\<not> m_stopped (demo [])" "\<not> m_goodbye_sent (demo [])"
    "\<not> satisfied (m_session_stop (demo []))" "\<not> future_retrieved (m_session_leave (demo []))"
    "\<not> future_retrieved (m_session_stop (demo []))" "fail_after (m_out (demo [])) = None"
    by code_simp+
  note effect = read_error_effect [OF this, of demo_mp "Io_Error 2"]
  have "\<not> satisfied (m_session_leave (demo []))" "m_session_id (demo []) \<noteq> 0"
    "rx_errors (demo []) = []" by code_simp+
  with effect show "rx_errors (snd (handle_rx_error demo_mp (Io_Error 2) (demo []))) = [Io_Error 2]"
    by simp
qed

section \<open>All reachable sessions\<close>

text \<open>C1: In every reachable session the bytes written are a sequence of handshakes and of frames
  that each hold one message a WAMP client may send, complete unless the stream has been closed
  or has failed, in which case the last one may be cut off.\<close>

theorem written_is_client_messages:
  assumes "reachable mp u s"
  shows "\<exists>cs. list_all (\<lambda>c. c = handshake_request \<or> (\<exists>b. client_message b \<and> c = frame mp b)) cs \<and>
    (written (m_out s) = concat cs \<or>
     fail_after (m_out s) = Some 0 \<and> (\<exists>k. written (m_out s) = take k (concat cs)))"
  using wire.reachable_P [OF assms] by (simp add: wire_ok_def chunk_def [abs_def])

lemma joined_demo_reachable: "reachable demo_mp silent_user (demo [Do_Api True (Api_Call ''add'')])"
proof -
  have "enabled demo_mp silent_user (join_moves @ [Do_Api True (Api_Call ''add'')])" by code_simp
  then show ?thesis by (rule demo_reachable)
qed

theorem written_is_client_messages_witness:
  "\<exists>cs. list_all (\<lambda>c. c = handshake_request \<or> (\<exists>b. client_message b \<and> c = frame demo_mp b)) cs \<and>
    (written (m_out (demo [Do_Api True (Api_Call ''add'')])) = concat cs \<or>
     fail_after (m_out (demo [Do_Api True (Api_Call ''add'')])) = Some 0 \<and>
     (\<exists>k. written (m_out (demo [Do_Api True (Api_Call ''add'')])) = take k (concat cs)))"
  by (rule written_is_client_messages [OF joined_demo_reachable])

text \<open>C20: In every reachable session the stop flag, the stop promise and the streams agree: the promise
  holds a value exactly when the session is stopped, and as long as the session exists it is open
  otherwise.  A session that has a session id or has said goodbye has resolved its join future.
  However often \<open>start\<close> is called, at most one header or body read is outstanding, and one only when
  the handshake future has been resolved; before the session was started no read is.\<close>

theorem flags_and_promises:
  assumes "reachable mp u s"
  shows "(m_stopped s \<longleftrightarrow> shared_state (m_session_stop s) = Has_Value ()) \<and>
    (alive s \<longrightarrow> (m_stopped s \<longleftrightarrow> satisfied (m_session_stop s))) \<and>
    (m_stopped s \<longrightarrow> fail_after (m_out s) = Some 0 \<and> \<not> m_in_open s) \<and>
    (m_session_id s \<noteq> 0 \<or> m_goodbye_sent s \<longrightarrow> satisfied (m_session_join s)) \<and>
    length (filter (\<lambda>op. op \<noteq> Read_Handshake) (pending_reads s)) \<le> 1 \<and>
    (filter (\<lambda>op. op \<noteq> Read_Handshake) (pending_reads s) \<noteq> [] \<longrightarrow> satisfied (m_handshake s)) \<and>
    (pending_reads s \<noteq> [] \<longrightarrow> future_retrieved (m_handshake s))"
proof -
  have ok: "fields_ok s" and reads: "reads_ok s"
    using flags.reachable_P [OF assms] reachable_reads_ok [OF assms] by simp_all
  from ok have "alive s \<longrightarrow> (m_stopped s \<longleftrightarrow> satisfied (m_session_stop s))"
    by (auto simp: fields_ok_def satisfied_def)
  with ok reads show ?thesis by (simp add: fields_ok_def reads_ok_def loop_reads_def)
qed

theorem flags_and_promises_witness:
  "m_session_id (demo [Do_Api True (Api_Call ''add'')]) = 7 \<and>
   satisfied (m_session_join (demo [Do_Api True (Api_Call ''add'')]))"
proof
  show id: "m_session_id (demo [Do_Api True (Api_Call ''add'')]) = 7" by code_simp
  with flags_and_promises [OF joined_demo_reachable]
  show "satisfied (m_session_join (demo [Do_Api True (Api_Call ''add'')]))" by simp
qed

text \<open>C2: In every reachable session the entries of the request tables point to existing objects, no
  two entries of a table share one, subscribe and unsubscribe requests in their tables are
  unresolved, and every id in a table was issued by the counter.\<close>

theorem request_tables_consistent:
  assumes "reachable mp u s"
  shows "(\<forall>p \<in> ran (m_calls s). heap_calls s p \<noteq> None) \<and> inj_on (m_calls s) (dom (m_calls s)) \<and>
    (\<forall>p \<in> ran (m_register_requests s). heap_registers s p \<noteq> None) \<and>
    inj_on (m_register_requests s) (dom (m_register_requests s)) \<and>
    (\<forall>p \<in> ran (m_subscribe_requests s). \<exists>c. heap_subscribes s p = Some c \<and> \<not> satisfied (subscribe_response c)) \<and>
    inj_on (m_subscribe_requests s) (dom (m_subscribe_requests s)) \<and>
    (\<forall>p \<in> ran (m_unsubscribe_requests s). \<exists>c. heap_unsubscribes s p = Some c \<and> \<not> satisfied (unsubscribe_response c)) \<and>
    inj_on (m_unsubscribe_requests s) (dom (m_unsubscribe_requests s)) \<and>
    dom (m_calls s) \<union> dom (m_register_requests s) \<union> dom (m_subscribe_requests s) \<union> dom (m_unsubscribe_requests s)
      \<subseteq> word_of_nat ` {0 <.. m_request_id s}"
proof -
  note ok = reachable_requests_ok [OF assms]
  have tables: "inj_on (m_calls s) (dom (m_calls s))" "inj_on (m_register_requests s) (dom (m_register_requests s))"
    "inj_on (m_subscribe_requests s) (dom (m_subscribe_requests s))"
    "inj_on (m_unsubscribe_requests s) (dom (m_unsubscribe_requests s))"
    and ids: "dom (m_calls s) \<union> dom (m_register_requests s) \<union> dom (m_subscribe_requests s) \<union> dom (m_unsubscribe_requests s)
      \<subseteq> word_of_nat ` {0 <.. m_request_id s}"
    using ok by (simp_all add: requests_ok_def tables_ok_def table_ok_def ids_issued_def issued_ids_def)
  have "p \<in> ran (m_calls s) \<Longrightarrow> heap_calls s p \<noteq> None" for p
    by (auto simp: ran_def elim: pending_call [OF ok])
  moreover have "p \<in> ran (m_register_requests s) \<Longrightarrow> heap_registers s p \<noteq> None" for p
    by (auto simp: ran_def elim: pending_register [OF ok])
  moreover have "p \<in> ran (m_subscribe_requests s) \<Longrightarrow>
      \<exists>c. heap_subscribes s p = Some c \<and> \<not> satisfied (subscribe_response c)" for p
    by (auto simp: ran_def elim: pending_subscribe [OF ok])
  moreover have "p \<in> ran (m_unsubscribe_requests s) \<Longrightarrow>
      \<exists>c. heap_unsubscribes s p = Some c \<and> \<not> satisfied (unsubscribe_response c)" for p
    by (auto simp: ran_def elim: pending_unsubscribe [OF ok])
  ultimately show ?thesis using tables ids by blast
qed

theorem request_tables_consistent_witness:
  "m_calls (demo [Do_Api True (Api_Call ''add'')]) 1 = Some 0 \<and>
   heap_calls (demo [Do_Api True (Api_Call ''add'')]) 0 \<noteq> None"
proof
  show "m_calls (demo [Do_Api True (Api_Call ''add'')]) 1 = Some 0" by code_simp
  then have "0 \<in> ran (m_calls (demo [Do_Api True (Api_Call ''add'')]))" by (auto simp: ran_def)
  with request_tables_consistent [OF joined_demo_reachable]
  show "heap_calls (demo [Do_Api True (Api_Call ''add'')]) 0 \<noteq> None" by blast
qed

section \<open>The messages that are sent\<close>

text \<open>The object each operation sends.\<close>

fun request_object :: "api_call \<Rightarrow> u64 \<Rightarrow> msgobj option" where
  "request_object Api_Stop r = None"
| "request_object (Api_Join realm) r =
     Some (ARRAY [POSITIVE_INTEGER 1, STR_OBJ realm,
       MAP [(STR_OBJ ''roles'', MAP [(STR_OBJ ''caller'', MAP []), (STR_OBJ ''callee'', MAP []),
         (STR_OBJ ''publisher'', MAP []), (STR_OBJ ''subscriber'', MAP [])])]])"
| "request_object (Api_Leave reason) r = Some (ARRAY [POSITIVE_INTEGER 6, MAP [], STR_OBJ reason])"
| "request_object (Api_Subscribe topic h) r =
     Some (ARRAY [POSITIVE_INTEGER 32, POSITIVE_INTEGER r, MAP [], STR_OBJ topic])"
| "request_object (Api_Unsubscribe sub) r =
     Some (ARRAY [POSITIVE_INTEGER 34, POSITIVE_INTEGER r, POSITIVE_INTEGER (subscription_id sub)])"
| "request_object (Api_Provide name f options) r =
     Some (ARRAY [POSITIVE_INTEGER 64, POSITIVE_INTEGER r, options_object options, STR_OBJ name])"
| "request_object (Api_Publish topic) r =
     Some (ARRAY [POSITIVE_INTEGER 16, POSITIVE_INTEGER r, MAP [], STR_OBJ topic])"
| "request_object (Api_Publish_Args topic a) r =
     Some (ARRAY [POSITIVE_INTEGER 16, POSITIVE_INTEGER r, MAP [], STR_OBJ topic, ARRAY a])"
| "request_object (Api_Publish_Kw topic a k) r =
     Some (ARRAY [POSITIVE_INTEGER 16, POSITIVE_INTEGER r, MAP [], STR_OBJ topic, ARRAY a, MAP k])"
| "request_object (Api_Call g) r =
     Some (ARRAY [POSITIVE_INTEGER 48, POSITIVE_INTEGER r, MAP [], STR_OBJ g])"
| "request_object (Api_Call_Args g a) r =
     Some (ARRAY [POSITIVE_INTEGER 48, POSITIVE_INTEGER r, MAP [], STR_OBJ g, ARRAY a])"
| "request_object (Api_Call_Kw g a k) r =
     Some (ARRAY [POSITIVE_INTEGER 48, POSITIVE_INTEGER r, MAP [], STR_OBJ g, ARRAY a, MAP k])"

text \<open>C25: The sequence of packer calls of every operation and of every reply writes exactly one
  object: the WAMP message with its code, the request id and the fields in the protocol's order,
  every array and map header announcing as many elements as follow.  It travels in a frame: its byte
  length in network byte order, then the message; \<open>ntohl\<close> recovers the length modulo \<open>2 ^ 32\<close>, so that
  a longer message would be framed wrongly.\<close>

theorem packed_messages:
  "packed_object (request_message c r) = request_object c r \<and>
   packed_object (reply_message rep r) = Some (reply_object rep r) \<and>
   unat (ntohl_bytes (take 4 (frame mp b))) = length (encode mp b) mod 2 ^ 32 \<and>
   drop 4 (frame mp b) = encode mp b"
proof (intro conjI)
  show "packed_object (request_message c r) = request_object c r"
    by (cases c) (simp_all add: message_objects, simp add: packed_object_def)
qed (simp_all add: reply_message_object frame_layout)

end
