(* ===== verification/Tcp_Client.thy ===== *)
theory Tcp_Client
  imports Session_Lifecycle Ip_Address
begin

text \<open>
  \<open>class wamp_tcp_client\<close> (\<open>autobahn/wamp_tcp_client.hpp\<close>): a TCP socket and the session that runs on
  it.  \<open>launch\<close> connects the socket; when that has succeeded the session is started, when its
  start future is ready the realm is joined, and when its join future is ready the launch future
  becomes true.  The last two are continuations that run on a thread of their own.

  \<open>connects_pending\<close> counts the outstanding \<open>async_connect\<close>, \<open>start_continuations\<close> and
  \<open>join_continuations\<close> the continuations attached and not yet run; \<open>onConnect_count\<close> counts the
  emissions of \<open>m_onConnect\<close>.  \<open>handleRxError\<close> is connected to the session's \<open>m_onRxError\<close>, so
  \<open>m_onDisconnect\<close> is emitted once for each of the session's read errors.
\<close>

record tcp_client =
  m_pSession :: session
  m_realm :: string
  m_rawsocket_endpoint :: "ipv4 \<times> port"
  m_connected :: "bool promise"
  m_isConnected :: bool
  connects_pending :: nat
  start_continuations :: nat
  join_continuations :: nat
  onConnect_count :: nat

definition init_client :: "ostream \<Rightarrow> tcp_client \<Rightarrow> tcp_client" where
  "init_client os c = c\<lparr>m_connected := new_promise, m_pSession := new_session os\<rparr>"

text \<open>The first constructor; \<open>os\<close> is the stream of the socket \<open>init\<close> opens.\<close>

definition new_tcp_client :: "ostream \<Rightarrow> ipv4 \<times> port \<Rightarrow> string \<Rightarrow> tcp_client" where
  "new_tcp_client os endpoint realm =
     init_client os
       \<lparr>m_pSession = new_session os, m_realm = realm, m_rawsocket_endpoint = endpoint,
        m_connected = new_promise, m_isConnected = False, connects_pending = 0,
        start_continuations = 0, join_continuations = 0, onConnect_count = 0\<rparr>"

text \<open>
  The second constructor does not initialise \<open>m_isConnected\<close>: it has whatever value \<open>garbage\<close> the
  memory holds.  It throws when the address is not one.
\<close>

definition new_tcp_client_ip ::
    "ip_library \<Rightarrow> bool \<Rightarrow> ostream \<Rightarrow> string \<Rightarrow> port \<Rightarrow> string \<Rightarrow> tcp_client result" where
  "new_tcp_client_ip lib garbage os ip_address port realm =
     (case from_string lib ip_address of
        None \<Rightarrow> Throw (Library_Error System_Error)
      | Some ip \<Rightarrow> Ok ((new_tcp_client os (ip, port) realm)\<lparr>m_isConnected := garbage\<rparr>))"

definition isConnected :: "tcp_client \<Rightarrow> bool" where
  "isConnected c = m_isConnected c"

definition on_connected :: "(bool promise, 'a) action \<Rightarrow> (tcp_client, 'a) action" where
  "on_connected f c = (case f (m_connected c) of (r, p) \<Rightarrow> (r, c\<lparr>m_connected := p\<rparr>))"

text \<open>\<open>operator->\<close>.\<close>

definition on_session :: "(session, 'a) action \<Rightarrow> (tcp_client, 'a) action" where
  "on_session f c = (case f (m_pSession c) of (r, s) \<Rightarrow> (r, c\<lparr>m_pSession := s\<rparr>))"

definition disconnect_signals :: "tcp_client \<Rightarrow> nat" where
  "disconnect_signals c = length (rx_errors (m_pSession c))"

definition launch :: "(tcp_client, unit) action" where
  "launch =
     and_then (update (\<lambda>c. c\<lparr>connects_pending := Suc (connects_pending c)\<rparr>))
       (on_connected get_future)"

text \<open>The innermost continuation, the one around it, and the completion of the connection.\<close>

definition after_join :: "(tcp_client, unit) action" where
  "after_join =
     and_then (update (\<lambda>c. c\<lparr>m_isConnected := True\<rparr>))
       (and_then (on_connected (set_value True))
         (update (\<lambda>c. c\<lparr>onConnect_count := Suc (onConnect_count c)\<rparr>)))"

definition after_start :: "msgpack \<Rightarrow> bool \<Rightarrow> (tcp_client, unit) action" where
  "after_start mp inline =
     with_state (\<lambda>c. and_then (on_session (join mp inline (m_realm c)))
       (update (\<lambda>c. c\<lparr>join_continuations := Suc (join_continuations c)\<rparr>)))"

definition after_connect :: "io_error option \<Rightarrow> (tcp_client, unit) action" where
  "after_connect ec =
     (case ec of
        None \<Rightarrow> and_then (on_session start)
          (update (\<lambda>c. c\<lparr>start_continuations := Suc (start_continuations c)\<rparr>))
      | Some _ \<Rightarrow> and_then (update (\<lambda>c. c\<lparr>m_isConnected := True\<rparr>)) (on_connected (set_value False)))"

section \<open>The client in its environment\<close>

text \<open>
  The application launches a client once.  It uses the session through \<open>operator->\<close>, but does not
  start it before the client has, and the client keeps the session alive.
\<close>

inductive client_step :: "msgpack \<Rightarrow> user \<Rightarrow> tcp_client \<Rightarrow> tcp_client \<Rightarrow> bool"
  for mp :: msgpack and u :: user where
  client_launch: "\<not> future_retrieved (m_connected c) \<Longrightarrow> launch c = (r, c') \<Longrightarrow> client_step mp u c c'"
| client_connect: "connects_pending c = Suc n \<Longrightarrow>
    after_connect ec (c\<lparr>connects_pending := n\<rparr>) = (r, c') \<Longrightarrow> client_step mp u c c'"
| client_started: "start_continuations c = Suc n \<Longrightarrow> satisfied (m_handshake (m_pSession c)) \<Longrightarrow>
    after_start mp inline (c\<lparr>start_continuations := n\<rparr>) = (r, c') \<Longrightarrow> client_step mp u c c'"
| client_joined: "join_continuations c = Suc n \<Longrightarrow> satisfied (m_session_join (m_pSession c)) \<Longrightarrow>
    after_join (c\<lparr>join_continuations := n\<rparr>) = (r, c') \<Longrightarrow> client_step mp u c c'"
| client_session: "session_step mp u (m_pSession c) s' \<Longrightarrow> alive s' \<Longrightarrow>
    future_retrieved (m_handshake s') = future_retrieved (m_handshake (m_pSession c)) \<Longrightarrow>
    client_step mp u c (c\<lparr>m_pSession := s'\<rparr>)"

definition client_init :: "tcp_client \<Rightarrow> bool" where
  "client_init c \<longleftrightarrow> (\<exists>f endpoint realm garbage.
     c = (new_tcp_client \<lparr>written = [], fail_after = f\<rparr> endpoint realm)\<lparr>m_isConnected := garbage\<rparr>)"

definition client_reachable :: "msgpack \<Rightarrow> user \<Rightarrow> tcp_client \<Rightarrow> bool" where
  "client_reachable mp u c \<longleftrightarrow> reach client_init (client_step mp u) c"

lemmas client_defs =
  launch_def after_join_def after_start_def after_connect_def on_connected_def on_session_def

section \<open>What the client's steps do to its session\<close>

lemma start_alive: "alive (snd (start s)) = alive s"
proof -
  obtain r os where "asio_write handshake_request (m_out s) = (r, os)" by fastforce
  then show ?thesis
    by (cases r) (simp_all add: start_def action_defs on_out_def on_handshake_def get_future_def)
qed

lemma start_handshake:
  "fst (start s) = Ok () \<Longrightarrow> future_retrieved (m_handshake (snd (start s)))"
proof -
  obtain r os where "asio_write handshake_request (m_out s) = (r, os)" by fastforce
  then show "fst (start s) = Ok () \<Longrightarrow> future_retrieved (m_handshake (snd (start s)))"
    by (cases r)
      (auto simp: start_def action_defs on_out_def on_handshake_def get_future_def split: if_splits)
qed

lemma join_read_side: "read_side (snd (join mp inline realm s)) = read_side s"
  using reads.join_P [of "read_side s" mp inline realm] by (simp add: keeps_def)

text \<open>A fulfilled join promise stays fulfilled.\<close>

interpretation joined: step_fields mp "\<lambda>s. satisfied (m_session_join s)" for mp
proof unfold_locales
  show "keeps (\<lambda>s. client_queue s \<and> satisfied (m_session_join s)) (leave_task mp b)" for b
    by (simp add: keeps_def leave_task_def client_queue_def)
  show "satisfied (m_session_join (snd (start s)))" if "satisfied (m_session_join s)" for s
    using that by (simp add: start_def action_defs on_out_def on_handshake_def
        get_future_def split: prod.splits result.splits)
qed (simp_all add: keeps_def client_queue_def alloc_invocation_def stop_task_def,
     auto simp: on_promise_defs action_defs set_value_cases get_future_def
       alloc_invocation_def destroy_session_def abandon_satisfied split: prod.splits)

section \<open>Invariant\<close>

text \<open>
  The session of the client is a reachable session.  The launch passes one token along: from the
  connection to the start continuation, to the join continuation, to the launch promise.
\<close>

definition launch_tokens :: "tcp_client \<Rightarrow> nat" where
  "launch_tokens c = connects_pending c + start_continuations c + join_continuations c +
     of_bool (satisfied (m_connected c))"

definition client_ok :: "msgpack \<Rightarrow> user \<Rightarrow> tcp_client \<Rightarrow> bool" where
  "client_ok mp u c \<longleftrightarrow>
     reachable mp u (m_pSession c) \<and> alive (m_pSession c) \<and>
     launch_tokens c \<le> of_bool (future_retrieved (m_connected c)) \<and>
     (future_retrieved (m_handshake (m_pSession c)) \<longrightarrow>
        future_retrieved (m_connected c) \<and> connects_pending c = 0) \<and>
     onConnect_count c = of_bool (shared_state (m_connected c) = Has_Value True) \<and>
     (shared_state (m_connected c) = Has_Value True \<longrightarrow> satisfied (m_session_join (m_pSession c))) \<and>
     (satisfied (m_connected c) \<longrightarrow> m_isConnected c)"

lemma reachable_join:
  assumes "reachable mp u s" and "alive s"
  shows "reachable mp u (snd (join mp inline realm s))"
proof -
  obtain r s' where j: "join mp inline realm s = (r, s')" by fastforce
  have "fst (join mp inline realm s) \<noteq> Undefined_Behaviour"
    using send_effect [of mp "hello_message realm" s]
    by (auto simp: join_def io_dispatch_def join_task_def action_defs on_join_def get_future_def
        split: if_splits)
  with j have "session_step mp u s s'"
    using step_api [OF assms(2), of mp inline "Api_Join realm"
        "fst (run_api mp inline (Api_Join realm) s)" s' u]
    by (cases r) (simp_all add: no_value_def action_defs)
  with assms(1) j show ?thesis by (simp add: reachable_step)
qed

lemma reachable_start:
  assumes "reachable mp u s" and "alive s"
  shows "reachable mp u (snd (start s))"
  by (rule reachable_step [OF assms(1)], rule step_start [OF assms(2)]) (rule surjective_pairing)

lemma joined_step:
  assumes "reachable mp u s" and "session_step mp u s s'" and "satisfied (m_session_join s)"
  shows "satisfied (m_session_join s')"
  using joined.steps_P [OF r_into_rtranclp, OF assms(2)] flags.reachable_P [OF assms(1)] assms(3)
  by blast

lemma client_ok_init: "client_init c \<Longrightarrow> client_ok mp u c"
  by (auto simp: client_init_def client_ok_def new_tcp_client_def init_client_def launch_tokens_def
      reachable_def session_init_def new_promise_def satisfied_def new_session_def
      intro!: reach_init)

lemma client_ok_step: "client_step mp u c c' \<Longrightarrow> client_ok mp u c \<Longrightarrow> client_ok mp u c'"
proof (induction rule: client_step.induct)
  case (client_launch c r c')
  then show ?case
    by (auto simp: client_ok_def client_defs launch_tokens_def action_defs get_future_def)
next
  case (client_connect c n ec r c')
  show ?case
  proof (cases ec)
    case None
    obtain r1 s1 where st: "start (m_pSession c) = (r1, s1)" by fastforce
    have "\<not> future_retrieved (m_handshake (m_pSession c))"
      using client_connect by (auto simp: client_ok_def)
    moreover have "reachable mp u s1" "alive s1"
      using client_connect.prems reachable_start [of mp u "m_pSession c"] st
        start_alive [of "m_pSession c"] by (auto simp: client_ok_def)
    ultimately show ?thesis
      using client_connect st None
      by (cases r1) (auto simp: client_ok_def client_defs launch_tokens_def action_defs of_bool_def
        satisfied_def split: if_splits)
  next
    case (Some e)
    then show ?thesis
      using client_connect
      by (cases "future_retrieved (m_connected c)"; cases "satisfied (m_connected c)")
        (auto simp: client_ok_def client_defs launch_tokens_def action_defs set_value_cases
          satisfied_def split: if_splits)
  qed
next
  case (client_started c n inline r c')
  obtain r1 s1 where j: "join mp inline (m_realm c) (m_pSession c) = (r1, s1)" by fastforce
  have s1: "reachable mp u s1" "read_side s1 = read_side (m_pSession c)"
    using client_started.prems reachable_join [of mp u "m_pSession c" inline "m_realm c"] j
      join_read_side [of mp inline "m_realm c" "m_pSession c"] by (auto simp: client_ok_def)
  then have "alive s1 = alive (m_pSession c)" "m_handshake s1 = m_handshake (m_pSession c)"
    by (simp_all add: read_side_def)
  with s1(1) client_started j show ?case
    by (cases r1) (auto simp: client_ok_def client_defs launch_tokens_def action_defs of_bool_def
        satisfied_def split: if_splits)
next
  case (client_joined c n r c')
  then show ?case
    by (cases "future_retrieved (m_connected c)"; cases "satisfied (m_connected c)")
      (auto simp: client_ok_def client_defs launch_tokens_def action_defs set_value_cases
        satisfied_def split: if_splits)
next
  case (client_session c s')
  then show ?case
    by (auto simp: client_ok_def launch_tokens_def reachable_step joined_step)
qed

lemma client_reachable_ok: "client_reachable mp u c \<Longrightarrow> client_ok mp u c"
  unfolding client_reachable_def
  by (erule reach_invariant) (auto intro: client_ok_init client_ok_step)

section \<open>Runs\<close>

datatype client_move =
    Do_Launch
  | Do_Connect "io_error option"
  | Do_Started bool
  | Do_Joined
  | Do_Session move

fun do_client :: "msgpack \<Rightarrow> user \<Rightarrow> client_move \<Rightarrow> tcp_client \<Rightarrow> tcp_client option" where
  "do_client mp u Do_Launch c =
     (if future_retrieved (m_connected c) then None else Some (snd (launch c)))"
| "do_client mp u (Do_Connect ec) c =
     (case connects_pending c of
        0 \<Rightarrow> None | Suc n \<Rightarrow> Some (snd (after_connect ec (c\<lparr>connects_pending := n\<rparr>))))"
| "do_client mp u (Do_Started inline) c =
     (case start_continuations c of
        0 \<Rightarrow> None
      | Suc n \<Rightarrow> if satisfied (m_handshake (m_pSession c))
                 then Some (snd (after_start mp inline (c\<lparr>start_continuations := n\<rparr>))) else None)"
| "do_client mp u Do_Joined c =
     (case join_continuations c of
        0 \<Rightarrow> None
      | Suc n \<Rightarrow> if satisfied (m_session_join (m_pSession c))
                 then Some (snd (after_join (c\<lparr>join_continuations := n\<rparr>))) else None)"
| "do_client mp u (Do_Session m) c =
     (case do_step mp u m (m_pSession c) of
        None \<Rightarrow> None
      | Some s' \<Rightarrow> if alive s' \<and> future_retrieved (m_handshake s') = future_retrieved (m_handshake (m_pSession c))
                   then Some (c\<lparr>m_pSession := s'\<rparr>) else None)"

fun run_client :: "msgpack \<Rightarrow> user \<Rightarrow> client_move list \<Rightarrow> tcp_client \<Rightarrow> tcp_client option" where
  "run_client mp u [] c = Some c"
| "run_client mp u (m # ms) c =
     (case do_client mp u m c of None \<Rightarrow> None | Some c' \<Rightarrow> run_client mp u ms c')"

lemma do_client_sound: "do_client mp u m c = Some c' \<Longrightarrow> client_step mp u c c'"
  by (cases m)
    (auto split: if_splits option.splits nat.splits dest: do_step_sound
      intro: client_launch [OF _ surjective_pairing] client_connect [OF _ surjective_pairing]
        client_started [OF _ _ surjective_pairing] client_joined [OF _ _ surjective_pairing]
        client_session)

lemma run_client_reachable:
  "run_client mp u ms c = Some c' \<Longrightarrow> client_reachable mp u c \<Longrightarrow> client_reachable mp u c'"
  by (induction ms arbitrary: c)
    (auto simp: client_reachable_def split: option.splits intro: reach_step dest: do_client_sound)

definition demo_client :: tcp_client where
  "demo_client = new_tcp_client healthy (0x7F000001, 8000) ''realm1''"

lemma demo_client_reachable: "client_reachable mp u demo_client"
  unfolding client_reachable_def demo_client_def healthy_def
  by (rule reach_init) (auto simp: client_init_def new_tcp_client_def init_client_def
      intro!: exI [of _ None])

definition launched :: "client_move list \<Rightarrow> tcp_client" where
  "launched ms = the (run_client demo_mp silent_user (Do_Launch # ms) demo_client)"

definition launch_enabled :: "client_move list \<Rightarrow> bool" where
  "launch_enabled ms \<longleftrightarrow>
     \<not> Option.is_none (run_client demo_mp silent_user (Do_Launch # ms) demo_client)"

lemma launched_reachable:
  "launch_enabled ms \<Longrightarrow> client_reachable demo_mp silent_user (launched ms)"
  by (auto simp: launched_def launch_enabled_def Option.is_none_def simp del: run_client.simps
      intro: run_client_reachable demo_client_reachable)

definition launch_moves :: "client_move list" where
  "launch_moves =
     [Do_Connect None, Do_Session (Do_Read (Read_Ok [0x7F, 0xF2, 0, 0])), Do_Started False,
      Do_Session Do_Task] @ map Do_Session (deliver 0)"

section \<open>Properties\<close>

lemma launch_pending:
  assumes "client_reachable mp u c" and "0 < connects_pending c + join_continuations c"
  shows "\<not> satisfied (m_connected c) \<and> onConnect_count c = 0 \<and>
    (connects_pending c, join_continuations c) \<in> {(1, 0), (0, 1)}"
  using client_reachable_ok [OF assms(1)] assms(2)
  by (cases "future_retrieved (m_connected c)"; cases "satisfied (m_connected c)")
    (auto simp: client_ok_def launch_tokens_def satisfied_def)

text \<open>The outcome of a launch.\<close>

lemma launch_outcome:
  assumes "client_reachable mp u c"
  shows "(connects_pending c = Suc n \<longrightarrow>
      after_connect (Some e) (c\<lparr>connects_pending := n\<rparr>) =
        (Ok (), c\<lparr>connects_pending := 0, m_isConnected := True,
                  m_connected := (m_connected c)\<lparr>shared_state := Has_Value False\<rparr>\<rparr>)) \<and>
    (join_continuations c = Suc n \<longrightarrow>
      after_join (c\<lparr>join_continuations := n\<rparr>) =
        (Ok (), c\<lparr>join_continuations := 0, m_isConnected := True,
                  m_connected := (m_connected c)\<lparr>shared_state := Has_Value True\<rparr>,
                  onConnect_count := 1\<rparr>)) \<and>
    (\<not> m_stopped (m_pSession c) \<and> fail_after (m_out (m_pSession c)) = None \<and>
     m_session_id (m_pSession c) = 0 \<and> \<not> future_retrieved (m_session_join (m_pSession c)) \<longrightarrow>
      fst (after_start mp True c) = Ok () \<and>
      written (m_out (m_pSession (snd (after_start mp True c)))) =
        written (m_out (m_pSession c)) @ frame mp (hello_message (m_realm c)))"
proof (intro conjI impI)
  assume "connects_pending c = Suc n"
  with launch_pending [OF assms] show "after_connect (Some e) (c\<lparr>connects_pending := n\<rparr>) =
      (Ok (), c\<lparr>connects_pending := 0, m_isConnected := True,
                m_connected := (m_connected c)\<lparr>shared_state := Has_Value False\<rparr>\<rparr>)"
    by (auto simp: client_defs action_defs set_value_cases)
next
  assume "join_continuations c = Suc n"
  with launch_pending [OF assms] show "after_join (c\<lparr>join_continuations := n\<rparr>) =
      (Ok (), c\<lparr>join_continuations := 0, m_isConnected := True,
                m_connected := (m_connected c)\<lparr>shared_state := Has_Value True\<rparr>,
                onConnect_count := 1\<rparr>)"
    by (auto simp: client_defs action_defs set_value_cases)
next
  assume s: "\<not> m_stopped (m_pSession c) \<and> fail_after (m_out (m_pSession c)) = None \<and>
     m_session_id (m_pSession c) = 0 \<and> \<not> future_retrieved (m_session_join (m_pSession c))"
  moreover have "alive (m_pSession c)" using client_reachable_ok [OF assms] by (simp add: client_ok_def)
  ultimately show "fst (after_start mp True c) = Ok ()"
    "written (m_out (m_pSession (snd (after_start mp True c)))) =
        written (m_out (m_pSession c)) @ frame mp (hello_message (m_realm c))"
    by (simp_all add: client_defs action_defs join_effect)
qed

text \<open>C15: A TCP client composes with the session: in every reachable state its session is a reachable
  session, so all that is proved of sessions holds for it.  At most one of the connection, the two
  continuations and the fulfilled launch promise exists, so the promise is fulfilled once; it becomes
  true only when the session's join future is resolved, and \<open>m_onConnect\<close> is then emitted exactly
  once.  A failed connection makes the launch future false, but also marks the client as connected.
  In between the realm is joined whatever the handshake future says, so also when the router has
  refused the serializer.\<close>

theorem client_lifecycle:
  assumes "client_reachable mp u c"
  shows "reachable mp u (m_pSession c) \<and>
    connects_pending c + start_continuations c + join_continuations c +
      of_bool (satisfied (m_connected c)) \<le> 1 \<and>
    (shared_state (m_connected c) = Has_Value True \<longrightarrow> satisfied (m_session_join (m_pSession c))) \<and>
    onConnect_count c = of_bool (shared_state (m_connected c) = Has_Value True) \<and>
    (satisfied (m_connected c) \<longrightarrow> isConnected c) \<and>
    (connects_pending c = Suc n \<longrightarrow>
      after_connect (Some e) (c\<lparr>connects_pending := n\<rparr>) =
        (Ok (), c\<lparr>connects_pending := 0, m_isConnected := True,
                  m_connected := (m_connected c)\<lparr>shared_state := Has_Value False\<rparr>\<rparr>)) \<and>
    (join_continuations c = Suc n \<longrightarrow>
      after_join (c\<lparr>join_continuations := n\<rparr>) =
        (Ok (), c\<lparr>join_continuations := 0, m_isConnected := True,
                  m_connected := (m_connected c)\<lparr>shared_state := Has_Value True\<rparr>,
                  onConnect_count := 1\<rparr>)) \<and>
    (\<not> m_stopped (m_pSession c) \<and> fail_after (m_out (m_pSession c)) = None \<and>
     m_session_id (m_pSession c) = 0 \<and> \<not> future_retrieved (m_session_join (m_pSession c)) \<longrightarrow>
      fst (after_start mp True c) = Ok () \<and>
      written (m_out (m_pSession (snd (after_start mp True c)))) =
        written (m_out (m_pSession c)) @ frame mp (hello_message (m_realm c)))"
proof -
  have "reachable mp u (m_pSession c)"
    "connects_pending c + start_continuations c + join_continuations c +
      of_bool (satisfied (m_connected c)) \<le> 1"
    "shared_state (m_connected c) = Has_Value True \<longrightarrow> satisfied (m_session_join (m_pSession c))"
    "onConnect_count c = of_bool (shared_state (m_connected c) = Has_Value True)"
    "satisfied (m_connected c) \<longrightarrow> isConnected c"
    using client_reachable_ok [OF assms]
    by (auto simp: client_ok_def launch_tokens_def isConnected_def of_bool_def split: if_splits)
  with launch_outcome [OF assms, of n e] show ?thesis by blast
qed

theorem client_lifecycle_witness:
  "onConnect_count (launched (launch_moves @ [Do_Joined])) = 1 \<and>
   satisfied (m_session_join (m_pSession (launched (launch_moves @ [Do_Joined])))) \<and>
   after_connect (Some (Io_Error 111)) ((launched [])\<lparr>connects_pending := 0\<rparr>) =
     (Ok (), (launched [])\<lparr>connects_pending := 0, m_isConnected := True,
        m_connected := (m_connected (launched []))\<lparr>shared_state := Has_Value False\<rparr>\<rparr>)"
proof -
  let ?c = "launched (launch_moves @ [Do_Joined])"
  have "launch_enabled (launch_moves @ [Do_Joined])" by code_simp
  then have "client_reachable demo_mp silent_user ?c" by (rule launched_reachable)
  moreover have "shared_state (m_connected ?c) = Has_Value True" by code_simp
  ultimately have "onConnect_count ?c = 1" "satisfied (m_session_join (m_pSession ?c))"
    using client_lifecycle [of demo_mp silent_user ?c] by simp_all
  moreover have "launch_enabled []" by code_simp
  then have "client_reachable demo_mp silent_user (launched [])" by (rule launched_reachable)
  moreover have "connects_pending (launched []) = Suc 0" by code_simp
  ultimately show ?thesis using client_lifecycle [of demo_mp silent_user "launched []"] by blast
qed

end
