(* ===== verification/Parameters.thy ===== *)
theory Parameters
  imports Ip_Address
begin

text \<open>
  \<open>class parameters\<close> of the example programs (\<open>examples/parameters.*\<close>) and \<open>get_parameters\<close>.  What
  Boost.Program_options makes of the command line is the argument \<open>command_line\<close>: an error, the
  presence of \<open>--help\<close>, or the value of every option (all have defaults).
\<close>

record parameters =
  m_debug :: bool
  m_params_realm :: string
  m_domain :: string
  m_params_endpoint :: "ipv4 \<times> port"

definition LOCALHOST_IP_ADDRESS :: ipv4 where
  "LOCALHOST_IP_ADDRESS = 0x7F000001"

definition new_parameters :: parameters where
  "new_parameters =
     \<lparr>m_debug = False, m_params_realm = ''default'', m_domain = ''test1'',
      m_params_endpoint = (LOCALHOST_IP_ADDRESS, 8000)\<rparr>"

definition set_debug :: "bool \<Rightarrow> parameters \<Rightarrow> parameters" where
  "set_debug v p = p\<lparr>m_debug := v\<rparr>"

definition set_realm :: "string \<Rightarrow> parameters \<Rightarrow> parameters" where
  "set_realm realm p = p\<lparr>m_params_realm := realm\<rparr>"

definition set_domain :: "string \<Rightarrow> parameters \<Rightarrow> parameters" where
  "set_domain domain p = p\<lparr>m_domain := domain\<rparr>"

definition set_rawsocket_endpoint ::
    "ip_library \<Rightarrow> string \<Rightarrow> port \<Rightarrow> (parameters, unit) action" where
  "set_rawsocket_endpoint lib ip_address port =
     bind_act (lift_result (or_throw (from_string lib ip_address) (Library_Error System_Error)))
       (\<lambda>ip. update (\<lambda>p. p\<lparr>m_params_endpoint := (ip, port)\<rparr>))"

datatype command_line =
    Option_Error
  | Help_Requested
  | Options bool string string string port

datatype 'a main_outcome =
    Running 'a
  | Exit int

definition get_parameters :: "ip_library \<Rightarrow> command_line \<Rightarrow> parameters main_outcome result" where
  "get_parameters lib cl =
     (case cl of
        Option_Error \<Rightarrow> Ok (Exit (-1))
      | Help_Requested \<Rightarrow> Ok (Exit 0)
      | Options debug realm domain ip port \<Rightarrow>
          (case set_rawsocket_endpoint lib ip port
                  (set_domain domain (set_realm realm (set_debug debug new_parameters))) of
             (Ok _, p) \<Rightarrow> Ok (Running p)
           | (Throw e, _) \<Rightarrow> Throw e
           | (Undefined_Behaviour, _) \<Rightarrow> Undefined_Behaviour))"

text \<open>The options' defaults give the default parameters.\<close>

lemma default_parameters:
  "ip_ok lib \<Longrightarrow>
   get_parameters lib (Options False ''default'' ''test1'' (dotted LOCALHOST_IP_ADDRESS) 8000) =
     Ok (Running new_parameters)"
  by (simp add: get_parameters_def set_rawsocket_endpoint_def set_debug_def set_realm_def
      set_domain_def new_parameters_def action_defs ip_ok_simps)

end
