(* ===== verification/Backplane.thy ===== *)
theory Backplane
  imports Listener Tcp_Client Parameters
begin

text \<open>
  \<open>class CBackplane\<close> (\<open>examples/acs/CBackplane.*\<close>): connects to every domain the listener discovers,
  offers the procedures of each under the prefix \<open>domain/\<close> at its local router, and forwards an
  invocation of \<open>domain/procedure\<close> to the client connected to that domain.  It is the composition
  of the listener, the announcer and any number of TCP clients with their sessions.

  The listener is a part of it, so its record extends the listener's.  \<open>clients\<close> is the store of
  the shared client objects.  \<open>disconnect_slots\<close> are the slots connected to the clients' signal
  \<open>m_onDisconnect\<close>, \<open>launching\<close> the continuations of \<open>launchClient\<close> that have not run,
  \<open>discovery_pending\<close> the continuation \<open>main\<close> attaches behind the local one, \<open>posted\<close> the functions
  a continuation passed to \<open>m_io->dispatch\<close>; continuations run on threads of their own.
  \<open>callFutures\<close> holds the local variable \<open>callFuture\<close> of the activations of \<open>proxy\<close> (a client and the
  address of the call in its session), by activation; \<open>proxy_threads\<close> are the detached threads, each
  with the activation whose variable it refers to and the invocation it will answer.
\<close>

record backplane = listener +
  m_sessionMap :: "string \<rightharpoonup> nat"
  m_localClient :: nat
  m_outstandingFutures :: nat
  m_announcer :: announcer
  clients :: "nat \<rightharpoonup> tcp_client"
  next_client :: nat
  disconnect_slots :: "nat \<rightharpoonup> string"
  launching :: "(string \<times> nat) list"
  discovery_pending :: nat
  posted :: "string list"
  callFutures :: "nat \<rightharpoonup> nat \<times> nat"
  proxy_threads :: "(nat \<times> nat) list"
  next_activation :: nat

definition on_client :: "nat \<Rightarrow> (tcp_client, 'a) action \<Rightarrow> (backplane, 'a) action" where
  "on_client q f b =
     (case clients b q of
        None \<Rightarrow> (Undefined_Behaviour, b)
      | Some c \<Rightarrow> (case f c of (r, c') \<Rightarrow> (r, b\<lparr>clients := (clients b)(q \<mapsto> c')\<rparr>)))"

definition on_announcer :: "(announcer, 'a) action \<Rightarrow> (backplane, 'a) action" where
  "on_announcer f b = (case f (m_announcer b) of (r, a) \<Rightarrow> (r, b\<lparr>m_announcer := a\<rparr>))"

definition forget_domain :: "string \<Rightarrow> (backplane, unit) action" where
  "forget_domain name =
     and_then (update (\<lambda>b. b\<lparr>m_sessionMap := map_erase (m_sessionMap b) name\<rparr>)) (erase_domain name)"

definition launch_client :: "string \<Rightarrow> nat \<Rightarrow> (backplane, unit) action" where
  "launch_client name q =
     and_then (on_client q launch) (update (\<lambda>b. b\<lparr>launching := launching b @ [(name, q)]\<rparr>))"

text \<open>The continuation of \<open>launchClient\<close>; \<open>connected\<close> is the value of the client's launch future.\<close>

definition client_launched ::
    "msgpack \<Rightarrow> procedure \<Rightarrow> string \<Rightarrow> bool \<Rightarrow> (backplane, unit) action" where
  "client_launched mp proxy_procedure name connected =
     (if connected then with_state (\<lambda>b.
        and_then (on_client (m_localClient b) (on_session
            (provide mp False (name @ ''/'') proxy_procedure [(''match'', STR_OBJ ''prefix'')])))
          (ret ()))
      else update (\<lambda>b. b\<lparr>posted := posted b @ [name]\<rparr>))"

text \<open>
  \<open>connectToNewDomain\<close>; \<open>os\<close> is the stream of the new client's socket and \<open>garbage\<close> what its
  constructor leaves uninitialised.
\<close>

definition connect_to_new_domain ::
    "ip_library \<Rightarrow> bool \<Rightarrow> ostream \<Rightarrow> domain_info \<Rightarrow> (backplane, unit) action" where
  "connect_to_new_domain lib garbage os d =
     with_state (\<lambda>b. case m_sessionMap b (m_domainName d) of
        Some _ \<Rightarrow> ret ()
      | None \<Rightarrow>
          bind_act (lift_result (new_tcp_client_ip lib garbage os (m_wampIp d) (m_wampPort d) ''default''))
            (\<lambda>c. and_then (update (\<lambda>b. b\<lparr>
                   clients := (clients b)(next_client b \<mapsto> c), next_client := Suc (next_client b),
                   m_sessionMap := (m_sessionMap b)(m_domainName d \<mapsto> next_client b),
                   disconnect_slots := (disconnect_slots b)(next_client b \<mapsto> m_domainName d)\<rparr>))
              (and_then (launch_client (m_domainName d) (next_client b))
                (update (\<lambda>b. b\<lparr>m_outstandingFutures := Suc (m_outstandingFutures b)\<rparr>)))))"

text \<open>\<open>m_onDisconnect\<close> of a client is emitted.\<close>

definition client_disconnected :: "nat \<Rightarrow> (backplane, unit) action" where
  "client_disconnected q =
     with_state (\<lambda>b. case disconnect_slots b q of None \<Rightarrow> ret () | Some name \<Rightarrow> forget_domain name)"

text \<open>The function posted by a continuation runs.\<close>

definition run_posted :: "(backplane, unit) action" where
  "run_posted =
     with_state (\<lambda>b. case posted b of
        [] \<Rightarrow> ret ()
      | name # names \<Rightarrow> and_then (update (\<lambda>b. b\<lparr>posted := names\<rparr>)) (forget_domain name))"

section \<open>Forwarding invocations\<close>

text \<open>
  \<open>split_slash\<close> is \<open>boost::split\<close> at slashes with adjacent ones merged; the others are the
  conversions of the invocation's payload, \<open>None\<close> where msgpack throws a \<open>type_error\<close>.
\<close>

record proxy_library =
  split_slash :: "string \<Rightarrow> string list"
  as_argument_list :: "msgobj \<Rightarrow> msgobj list option"
  as_argument_map :: "msgobj \<Rightarrow> (msgobj \<times> msgobj) list option"

text \<open>
  \<open>proxy\<close> for the invocation at address \<open>p\<close> of the local client's session; it returns the address of
  the future it has started a thread for, or \<open>None\<close> when it has replied itself.  The variable
  \<open>callFuture\<close> lives from the call to the return of \<open>proxy\<close>, which follows at once: \<open>detach\<close> does not
  wait for the thread.  Until then the call cannot be answered, because \<open>proxy\<close> runs on the io thread.
\<close>

definition proxy_reply :: "msgpack \<Rightarrow> nat \<Rightarrow> reply \<Rightarrow> (backplane, nat option) action" where
  "proxy_reply mp p rep =
     with_state (\<lambda>b. and_then (on_client (m_localClient b) (on_session (invocation_reply mp True p rep)))
       (ret None))"

definition start_waiting :: "nat \<Rightarrow> nat \<Rightarrow> nat \<Rightarrow> (backplane, unit) action" where
  "start_waiting p q future =
     update (\<lambda>b. b\<lparr>callFutures := (callFutures b)(next_activation b \<mapsto> (q, future)),
       proxy_threads := proxy_threads b @ [(next_activation b, p)],
       next_activation := Suc (next_activation b)\<rparr>)"

definition proxy_returns :: "nat \<Rightarrow> (backplane, unit) action" where
  "proxy_returns activation = update (\<lambda>b. b\<lparr>callFutures := map_erase (callFutures b) activation\<rparr>)"

definition proxy_call ::
    "msgpack \<Rightarrow> proxy_library \<Rightarrow> nat \<Rightarrow> wamp_invocation \<Rightarrow> string \<Rightarrow> nat \<Rightarrow> (backplane, nat option) action" where
  "proxy_call mp pl p iv procedure_name q =
     bind_act (lift_result (invocation_arguments_as (as_argument_list pl) iv)) (\<lambda>arguments.
       bind_act (lift_result (invocation_kw_arguments_as (as_argument_map pl) iv)) (\<lambda>kw_arguments.
         bind_act (on_client q (on_session (call_kw mp True procedure_name arguments kw_arguments)))
           (\<lambda>future. with_state (\<lambda>b.
             and_then (start_waiting p q future)
               (and_then (proxy_returns (next_activation b)) (ret (Some future)))))))"

definition proxy ::
    "msgpack \<Rightarrow> proxy_library \<Rightarrow> nat \<Rightarrow> wamp_invocation \<Rightarrow> (backplane, nat option) action" where
  "proxy mp pl p iv =
     (case invocation_detail (as_string mp) iv ''procedure'' of
        Throw e \<Rightarrow> (case exn_what (library_what mp) e of
                      Some w \<Rightarrow> proxy_reply mp p (Error_Uri w) | None \<Rightarrow> raise e)
      | Undefined_Behaviour \<Rightarrow> lift_result Undefined_Behaviour
      | Ok procedure \<Rightarrow>
          (let components = split_slash pl procedure
           in if length components = 2 then with_state (\<lambda>b.
                case m_sessionMap b (components ! 0) of
                  Some q \<Rightarrow>
                    (case clients b q of
                       None \<Rightarrow> lift_result Undefined_Behaviour
                     | Some c \<Rightarrow>
                         if isConnected c then proxy_call mp pl p iv (components ! 1) q
                         else proxy_reply mp p (Error_Uri ''target domain is unknown''))
                | None \<Rightarrow> proxy_reply mp p (Error_Uri ''target domain is unknown''))
              else proxy_reply mp p (Error_Uri ''no domain specified'')))"

text \<open>
  The detached thread: it waits for the future, then answers the invocation.  Using a variable that
  no longer exists is undefined behaviour; a thread whose future is not resolved keeps waiting, and
  an exception that leaves a thread's function ends the program.
\<close>

definition proxy_thread ::
    "msgpack \<Rightarrow> proxy_library \<Rightarrow> nat \<Rightarrow> nat \<Rightarrow> (backplane, unit) action" where
  "proxy_thread mp pl activation p =
     with_state (\<lambda>b.
       case Option.bind (callFutures b activation) (\<lambda>(q, future).
              Option.bind (clients b q) (\<lambda>c. heap_calls (m_pSession c) future)) of
         None \<Rightarrow> lift_result Undefined_Behaviour
       | Some waiting \<Rightarrow> (case shared_state (call_promise waiting) of
             Pending \<Rightarrow> ret ()
           | Has_Exception e \<Rightarrow> raise e
           | Has_Value res \<Rightarrow>
               bind_act (lift_result (call_result_arguments_as (as_argument_list pl) res)) (\<lambda>arguments.
                 bind_act (lift_result (call_result_kw_arguments_as (as_argument_map pl) res)) (\<lambda>kw_arguments.
                   on_client (m_localClient b)
                     (on_session (invocation_reply mp False p (Result_Args_Kw arguments kw_arguments)))))))"

section \<open>The program\<close>

text \<open>
  \<open>main\<close> up to \<open>m_io->run()\<close>, and the continuation that starts the discovery once the local client's
  launch has been handled, whatever its outcome.
\<close>

definition backplane_setup :: "ostream \<Rightarrow> port \<Rightarrow> parameters \<Rightarrow> backplane" where
  "backplane_setup os garbage params =
     snd (launch_client (m_domain params) 0
       (listener.extend new_listener
         \<lparr>m_sessionMap = [m_domain params \<mapsto> 0], m_localClient = 0, m_outstandingFutures = 0,
          m_announcer = new_announcer garbage (snd (m_params_endpoint params)) (m_domain params) ''testRealm'',
          clients = [0 \<mapsto> new_tcp_client os (m_params_endpoint params) ''default''], next_client = 1,
          disconnect_slots = Map.empty, launching = [], discovery_pending = 1, posted = [],
          callFutures = Map.empty, proxy_threads = [], next_activation = 0\<rparr>))"

definition backplane_main ::
    "ip_library \<Rightarrow> ostream \<Rightarrow> port \<Rightarrow> command_line \<Rightarrow> backplane main_outcome" where
  "backplane_main lib os garbage cl =
     (case get_parameters lib cl of
        Ok (Running params) \<Rightarrow> Running (backplane_setup os garbage params)
      | Ok (Exit n) \<Rightarrow> Exit n
      | _ \<Rightarrow> Exit 1)"

definition start_discovery ::
    "msgpack \<Rightarrow> ip_library \<Rightarrow> (ipv4 \<Rightarrow> bool) \<Rightarrow> (ipv4 \<Rightarrow> bool) \<Rightarrow> ifaddrs \<Rightarrow> ifaddrs
      \<Rightarrow> (backplane, unit) action" where
  "start_discovery mp lib can_select can_join ifap1 ifap2 =
     and_then (on_announcer (announcer_launch mp lib can_select ifap1)) (listener_launch lib can_join ifap2)"

end
