(* ===== verification/Backplane_Safety.thy ===== *)
theory Backplane_Safety
  imports Backplane
begin

text \<open>
  The backplane as a transition system, and its composition with the clients: every client in a
  reachable backplane is a reachable client, so that everything proved of clients and of their
  sessions holds there, and the names in the session map lead to live clients.
\<close>

section \<open>Using a client's session\<close>

context request_op
begin

lemma request_not_UB: "fst (request inline s) \<noteq> Undefined_Behaviour"
proof (cases inline)
  case True
  have "fst (io_dispatch mp True (task r p (message r)) t) \<noteq> Undefined_Behaviour" for r p t
    by (simp add: io_dispatch_def task_unfold)
  with True show ?thesis
    by (simp add: request_eq and_then_def bind_act_def ret_def split: prod.split result.split)
      (metis fst_conv)
qed (simp add: request_queued)

end

lemma client_alive: "client_reachable mp u c \<Longrightarrow> alive (m_pSession c)"
  using client_reachable_ok by (auto simp: client_ok_def)

lemma client_use:
  assumes "client_reachable mp u c" and "session_step mp u (m_pSession c) s'"
    and "read_side s' = read_side (m_pSession c)"
  shows "client_reachable mp u (c\<lparr>m_pSession := s'\<rparr>)"
proof -
  have "alive s'" "m_handshake s' = m_handshake (m_pSession c)"
    using assms(3) client_alive [OF assms(1)] by (simp_all add: read_side_def)
  then have "client_step mp u c (c\<lparr>m_pSession := s'\<rparr>)"
    using assms(2) by (intro client_session) simp_all
  with assms(1) show ?thesis unfolding client_reachable_def by (rule reach_step)
qed

lemma client_api:
  assumes "client_reachable mp u c" and "fst (run_api mp inline a (m_pSession c)) \<noteq> Undefined_Behaviour"
  shows "client_reachable mp u (c\<lparr>m_pSession := snd (run_api mp inline a (m_pSession c))\<rparr>)"
proof (rule client_use [OF assms(1)])
  show "session_step mp u (m_pSession c) (snd (run_api mp inline a (m_pSession c)))"
    using client_alive [OF assms(1)] surjective_pairing assms(2) by (rule step_api)
  show "read_side (snd (run_api mp inline a (m_pSession c))) = read_side (m_pSession c)"
    by (rule keepsD [OF reads.run_api_P]) simp
qed

lemma client_reply:
  assumes "client_reachable mp u c" and "heap_invocations (m_pSession c) p \<noteq> None"
  shows "client_reachable mp u (c\<lparr>m_pSession := snd (invocation_reply mp inline p rep (m_pSession c))\<rparr>)"
proof (rule client_use [OF assms(1)])
  show "session_step mp u (m_pSession c) (snd (invocation_reply mp inline p rep (m_pSession c)))"
    using assms(2) surjective_pairing by (rule step_reply)
  show "read_side (snd (invocation_reply mp inline p rep (m_pSession c))) = read_side (m_pSession c)"
    by (rule keepsD [OF reads.reply_P]) simp
qed

lemma on_session_parts [simp]:
  "snd (on_session f c) = c\<lparr>m_pSession := snd (f (m_pSession c))\<rparr>"
  "fst (on_session f c) = fst (f (m_pSession c))"
  by (simp_all add: on_session_def split: prod.split)

lemma on_client_eq:
  "clients b q = Some c \<Longrightarrow>
   on_client q f b = (fst (f c), b\<lparr>clients := (clients b)(q \<mapsto> snd (f c))\<rparr>)"
  by (simp add: on_client_def split: prod.split)

lemma client_provide:
  "client_reachable mp u c \<Longrightarrow>
   client_reachable mp u (c\<lparr>m_pSession := snd (provide mp inline name f options (m_pSession c))\<rparr>)"
  using client_api [of mp u c inline "Api_Provide name f options"]
  by (simp add: future_of_state future_of_UB provide_op.request_not_UB)

lemma client_call_kw:
  "client_reachable mp u c \<Longrightarrow>
   client_reachable mp u (c\<lparr>m_pSession := snd (call_kw mp inline f a k (m_pSession c))\<rparr>)"
  using client_api [of mp u c inline "Api_Call_Kw f a k"]
  by (simp add: future_of_state future_of_UB call_kw_op.request_not_UB)

section \<open>Transitions\<close>

text \<open>
  A client step that reports a read error emits \<open>m_onDisconnect\<close>.  The discovery starts once the
  continuation of the local launch has run.
\<close>

inductive backplane_step ::
    "msgpack \<Rightarrow> user \<Rightarrow> ip_library \<Rightarrow> datagrams \<Rightarrow> proxy_library \<Rightarrow> backplane \<Rightarrow> backplane \<Rightarrow> bool"
  for mp :: msgpack and u :: user and lib :: ip_library and dg :: datagrams and pl :: proxy_library where
  step_datagram: "0 < receives b \<Longrightarrow>
    receive_datagram dg (connect_to_new_domain lib garbage \<lparr>written = [], fail_after = f\<rparr>) bytes b = (r, b') \<Longrightarrow>
    backplane_step mp u lib dg pl b b'"
| step_receive_error: "0 < receives b \<Longrightarrow>
    on_receive dg (connect_to_new_domain lib garbage \<lparr>written = [], fail_after = f\<rparr>) (Some e) bytes
      (b\<lparr>receives := receives b - 1\<rparr>) = (r, b') \<Longrightarrow> backplane_step mp u lib dg pl b b'"
| step_interfaces: "poll_timers b = Suc n \<Longrightarrow>
    resolve_interfaces lib (join_group can_join) ifap (b\<lparr>poll_timers := n\<rparr>) = (r, b') \<Longrightarrow>
    backplane_step mp u lib dg pl b b'"
| step_announcer: "announcer_step mp lib (m_announcer b) a \<Longrightarrow>
    backplane_step mp u lib dg pl b (b\<lparr>m_announcer := a\<rparr>)"
| step_client: "clients b q = Some c \<Longrightarrow> client_step mp u c c' \<Longrightarrow>
    (r, b') = (if disconnect_signals c < disconnect_signals c' then client_disconnected q else ret ())
      (b\<lparr>clients := (clients b)(q \<mapsto> c')\<rparr>) \<Longrightarrow> backplane_step mp u lib dg pl b b'"
| step_launched: "(name, q) \<in> set (launching b) \<Longrightarrow> clients b q = Some c \<Longrightarrow>
    shared_state (m_connected c) = Has_Value connected \<Longrightarrow>
    client_launched mp proxy_procedure name connected
      (b\<lparr>launching := remove1 (name, q) (launching b)\<rparr>) = (r, b') \<Longrightarrow> backplane_step mp u lib dg pl b b'"
| step_discovery: "discovery_pending b = Suc n \<Longrightarrow> m_localClient b \<notin> snd ` set (launching b) \<Longrightarrow>
    start_discovery mp lib can_select can_join ifap1 ifap2 (b\<lparr>discovery_pending := n\<rparr>) = (r, b') \<Longrightarrow>
    backplane_step mp u lib dg pl b b'"
| step_posted: "posted b \<noteq> [] \<Longrightarrow> run_posted b = (r, b') \<Longrightarrow> backplane_step mp u lib dg pl b b'"
| step_proxy: "clients b (m_localClient b) = Some c \<Longrightarrow> heap_invocations (m_pSession c) p = Some iv \<Longrightarrow>
    proxy mp pl p iv b = (r, b') \<Longrightarrow> backplane_step mp u lib dg pl b b'"
| step_proxy_thread: "(activation, p) \<in> set (proxy_threads b) \<Longrightarrow>
    proxy_thread mp pl activation p b = (r, b') \<Longrightarrow> r \<noteq> Undefined_Behaviour \<Longrightarrow>
    backplane_step mp u lib dg pl b b'"

definition backplane_init :: "backplane \<Rightarrow> bool" where
  "backplane_init b \<longleftrightarrow>
     (\<exists>f garbage params. b = backplane_setup \<lparr>written = [], fail_after = f\<rparr> garbage params)"

definition backplane_reachable ::
    "msgpack \<Rightarrow> user \<Rightarrow> ip_library \<Rightarrow> datagrams \<Rightarrow> proxy_library \<Rightarrow> backplane \<Rightarrow> bool" where
  "backplane_reachable mp u lib dg pl b \<longleftrightarrow> reach backplane_init (backplane_step mp u lib dg pl) b"

section \<open>Invariant\<close>

definition links_ok :: "backplane \<Rightarrow> bool" where
  "links_ok b \<longleftrightarrow> dom (clients b) = {..<next_client b} \<and> m_localClient b < next_client b \<and>
     (\<forall>name q. m_sessionMap b name = Some q \<longrightarrow>
        q < next_client b \<and> (q = m_localClient b \<or> disconnect_slots b q = Some name)) \<and>
     callFutures b = Map.empty"

definition backplane_ok :: "msgpack \<Rightarrow> user \<Rightarrow> backplane \<Rightarrow> bool" where
  "backplane_ok mp u b \<longleftrightarrow> links_ok b \<and> (\<forall>c \<in> ran (clients b). client_reachable mp u c)"

lemma backplane_ok_other [simp]:
  "backplane_ok mp u (b\<lparr>receives := n\<rparr>) = backplane_ok mp u b"
  "backplane_ok mp u (b\<lparr>m_rxMessageCount := w\<rparr>) = backplane_ok mp u b"
  "backplane_ok mp u (b\<lparr>m_knownDomains := ds\<rparr>) = backplane_ok mp u b"
  "backplane_ok mp u (b\<lparr>groups_joined := ips\<rparr>) = backplane_ok mp u b"
  "backplane_ok mp u (b\<lparr>m_knownInterfaceCache := ips\<rparr>) = backplane_ok mp u b"
  "backplane_ok mp u (b\<lparr>poll_timers := n\<rparr>) = backplane_ok mp u b"
  "backplane_ok mp u (b\<lparr>m_announcer := a\<rparr>) = backplane_ok mp u b"
  "backplane_ok mp u (b\<lparr>launching := ls\<rparr>) = backplane_ok mp u b"
  "backplane_ok mp u (b\<lparr>discovery_pending := n\<rparr>) = backplane_ok mp u b"
  "backplane_ok mp u (b\<lparr>posted := ns\<rparr>) = backplane_ok mp u b"
  "backplane_ok mp u (b\<lparr>proxy_threads := ts\<rparr>) = backplane_ok mp u b"
  "backplane_ok mp u (b\<lparr>next_activation := n\<rparr>) = backplane_ok mp u b"
  by (simp_all add: backplane_ok_def links_ok_def)

lemma client_exists: "backplane_ok mp u b \<Longrightarrow> q < next_client b \<Longrightarrow> \<exists>c. clients b q = Some c"
  unfolding backplane_ok_def links_ok_def by (metis domD lessThan_iff)

lemma client_ok_at: "backplane_ok mp u b \<Longrightarrow> clients b q = Some c \<Longrightarrow> client_reachable mp u c"
  unfolding backplane_ok_def by (metis ranI)

lemma local_client_ok:
  assumes "backplane_ok mp u b"
  shows "\<exists>c. clients b (m_localClient b) = Some c \<and> client_reachable mp u c"
proof -
  have "m_localClient b < next_client b" using assms by (simp add: backplane_ok_def links_ok_def)
  with client_exists [OF assms] obtain c where "clients b (m_localClient b) = Some c" by blast
  with client_ok_at [OF assms] show ?thesis by blast
qed

lemma backplane_ok_clients:
  assumes "backplane_ok mp u b" and "clients b q = Some c" and "client_reachable mp u c'"
  shows "backplane_ok mp u (b\<lparr>clients := (clients b)(q \<mapsto> c')\<rparr>)"
proof -
  have "q \<in> dom (clients b)" using assms(2) by auto
  with assms(1,3) show ?thesis
    unfolding backplane_ok_def links_ok_def by (auto simp: ran_def)
qed

lemma on_client_keeps:
  assumes "backplane_ok mp u b" and "clients b q = Some c" and "client_reachable mp u (snd (f c))"
  shows "backplane_ok mp u (snd (on_client q f b))"
  using backplane_ok_clients [OF assms] by (simp add: on_client_eq [OF assms(2)])

lemma forget_keeps [keep_intros]: "keeps (backplane_ok mp u) (forget_domain name)"
  unfolding forget_domain_def erase_domain_def
  by (intro keep_intros keeps_update) (auto simp: backplane_ok_def links_ok_def)

section \<open>Every operation keeps it\<close>

text \<open>What connecting to a domain does, in each of its three cases.\<close>

definition launched_client :: "bool \<Rightarrow> ostream \<Rightarrow> ipv4 \<Rightarrow> port \<Rightarrow> tcp_client" where
  "launched_client garbage os ip port =
     snd (launch ((new_tcp_client os (ip, port) ''default'')\<lparr>m_isConnected := garbage\<rparr>))"

lemma launch_fresh:
  "launch ((new_tcp_client os endpoint realm)\<lparr>m_isConnected := garbage\<rparr>) =
     (Ok (), snd (launch ((new_tcp_client os endpoint realm)\<lparr>m_isConnected := garbage\<rparr>)))"
  "launch (new_tcp_client os endpoint realm) = (Ok (), snd (launch (new_tcp_client os endpoint realm)))"
  by (simp_all add: launch_def action_defs on_connected_def get_future_def new_tcp_client_def
      init_client_def new_promise_def)

lemma connect_known:
  "m_sessionMap b (m_domainName d) = Some q \<Longrightarrow> connect_to_new_domain lib garbage os d b = (Ok (), b)"
  by (simp add: connect_to_new_domain_def action_defs)

lemma connect_bad_address:
  "m_sessionMap b (m_domainName d) = None \<Longrightarrow> from_string lib (m_wampIp d) = None \<Longrightarrow>
   connect_to_new_domain lib garbage os d b = (Throw (Library_Error System_Error), b)"
  by (simp add: connect_to_new_domain_def new_tcp_client_ip_def action_defs)

lemma connect_new:
  assumes "m_sessionMap b (m_domainName d) = None" and "from_string lib (m_wampIp d) = Some ip"
  shows "connect_to_new_domain lib garbage os d b =
    (Ok (), b\<lparr>next_client := Suc (next_client b),
       m_sessionMap := (m_sessionMap b)(m_domainName d \<mapsto> next_client b),
       disconnect_slots := (disconnect_slots b)(next_client b \<mapsto> m_domainName d),
       clients := (clients b)(next_client b \<mapsto> launched_client garbage os ip (m_wampPort d)),
       launching := launching b @ [(m_domainName d, next_client b)],
       m_outstandingFutures := Suc (m_outstandingFutures b)\<rparr>)"
proof -
  have "launch ((new_tcp_client os (ip, m_wampPort d) ''default'')\<lparr>m_isConnected := garbage\<rparr>) =
      (Ok (), launched_client garbage os ip (m_wampPort d))"
    unfolding launched_client_def by (rule launch_fresh(1))
  with assms show ?thesis
    by (simp add: connect_to_new_domain_def new_tcp_client_ip_def action_defs launch_client_def
        on_client_def)
qed

lemma fresh_client_reachable:
  assumes "client_init c" and "\<not> future_retrieved (m_connected c)"
  shows "client_reachable mp u (snd (launch c))"
proof -
  have "reach client_init (client_step mp u) c" using assms(1) by (rule reach_init)
  then show ?thesis unfolding client_reachable_def
    by (rule reach_step) (rule client_launch [OF assms(2) surjective_pairing])
qed

lemma client_init_new:
  "client_init ((new_tcp_client \<lparr>written = [], fail_after = f\<rparr> endpoint realm)\<lparr>m_isConnected := g\<rparr>)"
  "client_init (new_tcp_client \<lparr>written = [], fail_after = f\<rparr> endpoint realm)"
proof -
  show "client_init ((new_tcp_client \<lparr>written = [], fail_after = f\<rparr> endpoint realm)\<lparr>m_isConnected := g\<rparr>)"
    for g unfolding client_init_def by blast
  from this [of "m_isConnected (new_tcp_client \<lparr>written = [], fail_after = f\<rparr> endpoint realm)"]
  show "client_init (new_tcp_client \<lparr>written = [], fail_after = f\<rparr> endpoint realm)" by simp
qed

lemma new_client_promise [simp]:
  "\<not> future_retrieved (m_connected (new_tcp_client os endpoint realm))"
  by (simp add: new_tcp_client_def init_client_def new_promise_def)

lemma connect_keeps [keep_intros]:
  "keeps (backplane_ok mp u) (connect_to_new_domain lib garbage \<lparr>written = [], fail_after = f\<rparr> d)"
proof (rule keepsI)
  fix b assume b: "backplane_ok mp u b"
  let ?m = "connect_to_new_domain lib garbage \<lparr>written = [], fail_after = f\<rparr> d b"
  consider q where "m_sessionMap b (m_domainName d) = Some q"
    | "m_sessionMap b (m_domainName d) = None" "from_string lib (m_wampIp d) = None"
    | ip where "m_sessionMap b (m_domainName d) = None" "from_string lib (m_wampIp d) = Some ip"
    by (cases "m_sessionMap b (m_domainName d)"; cases "from_string lib (m_wampIp d)") auto
  then show "backplane_ok mp u (snd ?m)"
  proof cases
    case 3
    have "client_reachable mp u (launched_client garbage \<lparr>written = [], fail_after = f\<rparr> ip (m_wampPort d))"
      unfolding launched_client_def by (rule fresh_client_reachable [OF client_init_new(1)]) simp
    moreover have "next_client b \<notin> dom (clients b)"
      using b by (simp add: backplane_ok_def links_ok_def)
    ultimately show ?thesis
      using b unfolding connect_new [OF 3] backplane_ok_def links_ok_def
      by (auto simp: ran_def lessThan_Suc less_Suc_eq)
  qed (use b in \<open>simp_all add: connect_known connect_bad_address\<close>)
qed

text \<open>
  The receiving side of the backplane is the composition of a few updates with the slot that
  connects: a predicate these keep is kept by the datagrams, the polls and the start of the discovery.
\<close>

lemma emit_keeps: "(\<And>ip. keeps P (slot ip)) \<Longrightarrow> keeps P (emit slot ips)"
  by (induction ips) (simp_all add: keep_intros)

locale backplane_updates =
  fixes P :: "backplane \<Rightarrow> bool"
  assumes listener_P: "P b \<Longrightarrow> P (b\<lparr>receives := n\<rparr>)" "P b \<Longrightarrow> P (b\<lparr>m_rxMessageCount := w\<rparr>)"
      "P b \<Longrightarrow> P (b\<lparr>m_knownDomains := ds\<rparr>)" "P b \<Longrightarrow> P (b\<lparr>groups_joined := ips\<rparr>)"
    and notifier_P: "P b \<Longrightarrow> P (b\<lparr>m_knownInterfaceCache := known\<rparr>)" "P b \<Longrightarrow> P (b\<lparr>poll_timers := n\<rparr>)"
    and announcer_P: "P b \<Longrightarrow> P (b\<lparr>m_announcer := a\<rparr>)"
    and connect_P: "keeps P (connect_to_new_domain lib garbage \<lparr>written = [], fail_after = f\<rparr> d)"
begin

lemma on_receive_P:
  "keeps P (on_receive dg (connect_to_new_domain lib garbage \<lparr>written = [], fail_after = f\<rparr>) error bytes)"
  unfolding on_receive_def discover_def queue_receive_def
  by (intro keep_intros keeps_update connect_P) (simp_all add: listener_P)

lemma receive_P:
  "keeps P (receive_datagram dg (connect_to_new_domain lib garbage \<lparr>written = [], fail_after = f\<rparr>) bytes)"
  unfolding receive_datagram_def by (intro keep_intros keeps_update on_receive_P) (simp add: listener_P)

lemma interfaces_P: "keeps P (resolve_interfaces lib (join_group can_join) ifap)"
  unfolding resolve_interfaces_def join_group_def
  by (intro keep_intros keeps_update emit_keeps) (simp_all add: listener_P notifier_P)

lemma on_announcer_P: "keeps P (on_announcer f)"
  by (simp add: keeps_def on_announcer_def announcer_P split: prod.split)

lemma start_discovery_P: "keeps P (start_discovery mp lib can_select can_join ifap1 ifap2)"
  unfolding start_discovery_def listener_launch_def notifier_launch_def queue_receive_def
  by (intro keep_intros on_announcer_P interfaces_P keeps_update) (simp_all add: listener_P notifier_P)

end

interpretation ok: backplane_updates "backplane_ok mp u" for mp u
  by unfold_locales (simp_all add: connect_keeps)

lemma client_launched_keeps:
  "keeps (backplane_ok mp u) (client_launched mp proxy_procedure name connected)"
proof -
  have "backplane_ok mp u (snd (on_client (m_localClient b) (on_session
      (provide mp False (name @ ''/'') proxy_procedure [(''match'', STR_OBJ ''prefix'')])) b))"
    if b: "backplane_ok mp u b" for b
  proof -
    obtain c where "clients b (m_localClient b) = Some c" "client_reachable mp u c"
      using local_client_ok [OF b] by blast
    then show ?thesis
      using b client_provide [of mp u c False "name @ ''/''" proxy_procedure "[(''match'', STR_OBJ ''prefix'')]"]
      by (intro on_client_keeps [where c = c])
        simp_all
  qed
  then show ?thesis
    unfolding client_launched_def
    by (intro keeps_if keeps_update) (simp_all add: keeps_def with_state_def and_then_ret_state)
qed

lemma reply_not_UB:
  assumes "heap_invocations s p = Some iv"
  shows "fst (invocation_reply mp inline p rep s) \<noteq> Undefined_Behaviour"
  using assms by (cases "inv_send_result_fn iv")
    (simp_all add: invocation_reply_sendable invocation_reply_not_sendable)

text \<open>An action that is defined in \<open>b\<close> and keeps the invariant there.\<close>

definition fine_in :: "msgpack \<Rightarrow> user \<Rightarrow> backplane \<Rightarrow> (backplane, 'a) action \<Rightarrow> bool" where
  "fine_in mp u b m \<longleftrightarrow> fst (m b) \<noteq> Undefined_Behaviour \<and> backplane_ok mp u (snd (m b))"

lemma fine_in_bind_ret: "fine_in mp u b m \<Longrightarrow> fine_in mp u b (bind_act m (\<lambda>x. ret (f x)))"
  by (cases "m b"; cases "fst (m b)") (simp_all add: fine_in_def action_defs)

lemma fine_in_and_then_ret: "fine_in mp u b m \<Longrightarrow> fine_in mp u b (and_then m (ret x))"
  by (cases "m b"; cases "fst (m b)") (simp_all add: fine_in_def action_defs)

lemma fine_in_convert:
  "backplane_ok mp u b \<Longrightarrow> (\<And>a. fine_in mp u b (f a)) \<Longrightarrow>
   fine_in mp u b (bind_act (lift_result (or_throw x e)) f)"
  by (cases x) (simp_all add: fine_in_def action_defs)

lemma fine_in_with_state: "fine_in mp u b (f b) \<Longrightarrow> fine_in mp u b (with_state f)"
  by (simp add: fine_in_def with_state_def)

lemma proxy_reply_fine:
  assumes "backplane_ok mp u b" and "clients b (m_localClient b) = Some c"
    and "heap_invocations (m_pSession c) p = Some iv"
  shows "fine_in mp u b (proxy_reply mp p rep)"
  unfolding proxy_reply_def
proof (intro fine_in_with_state fine_in_and_then_ret)
  have "backplane_ok mp u (snd (on_client (m_localClient b) (on_session (invocation_reply mp True p rep)) b))"
    using client_reply [OF client_ok_at [OF assms(1,2)], of p True rep] assms
    by (intro on_client_keeps) simp_all
  with reply_not_UB [OF assms(3)]
  show "fine_in mp u b (on_client (m_localClient b) (on_session (invocation_reply mp True p rep)))"
    by (simp add: fine_in_def on_client_eq [OF assms(2)])
qed

text \<open>When \<open>proxy\<close> has returned, its thread is left and its variable is gone.\<close>

definition thread_left :: "nat \<Rightarrow> backplane \<Rightarrow> backplane" where
  "thread_left p b = b\<lparr>callFutures := map_erase (callFutures b) (next_activation b),
     proxy_threads := proxy_threads b @ [(next_activation b, p)],
     next_activation := Suc (next_activation b)\<rparr>"

lemma start_and_return:
  "with_state (\<lambda>b. and_then (start_waiting p q future)
      (and_then (proxy_returns (next_activation b)) (ret x))) b = (Ok x, thread_left p b)"
  by (simp add: start_waiting_def proxy_returns_def thread_left_def action_defs map_erase_def)

lemma thread_left_keeps: "backplane_ok mp u b \<Longrightarrow> backplane_ok mp u (thread_left p b)"
  by (simp add: backplane_ok_def links_ok_def thread_left_def map_erase_def)

lemma proxy_call_fine:
  assumes "backplane_ok mp u b" and "clients b q = Some c"
  shows "fine_in mp u b (proxy_call mp pl p iv f q)"
proof -
  have "fine_in mp u b (bind_act (on_client q (on_session (call_kw mp True f a k)))
      (\<lambda>future. with_state (\<lambda>b. and_then (start_waiting p q future)
        (and_then (proxy_returns (next_activation b)) (ret (Some future))))))" for a k
  proof -
    let ?r = "call_kw mp True f a k (m_pSession c)"
    let ?b = "b\<lparr>clients := (clients b)(q \<mapsto> c\<lparr>m_pSession := snd ?r\<rparr>)\<rparr>"
    have ok: "backplane_ok mp u ?b"
      using assms client_call_kw [OF client_ok_at [OF assms]] by (intro backplane_ok_clients)
    from thread_left_keeps [OF this] show ?thesis
      using ok call_kw_op.request_not_UB [where mp = mp and inline = True and s = "m_pSession c"]
      by (cases "fst ?r")
        (simp_all add: fine_in_def bind_act_def on_client_eq [OF assms(2)] start_and_return)
  qed
  then show ?thesis
    unfolding proxy_call_def invocation_arguments_as_def invocation_kw_arguments_as_def
    by (intro fine_in_convert [OF assms(1)])
qed

lemma detail_not_UB: "invocation_detail conv iv key \<noteq> Undefined_Behaviour"
  by (auto simp: invocation_detail_def kw_scan_eq split: msgobj.splits option.splits)

lemma proxy_fine:
  assumes "backplane_ok mp u b" and "clients b (m_localClient b) = Some c"
    and "heap_invocations (m_pSession c) p = Some iv"
  shows "fine_in mp u b (proxy mp pl p iv')"
proof -
  note reply = proxy_reply_fine [OF assms]
  have "fine_in mp u b (raise e)" for e
    using assms(1) by (simp add: fine_in_def raise_def)
  moreover have "\<exists>c. clients b q = Some c" if "m_sessionMap b name = Some q" for name q
    using that client_exists [OF assms(1)] assms(1) by (auto simp: backplane_ok_def links_ok_def)
  ultimately show ?thesis
    using proxy_call_fine [OF assms(1)] reply detail_not_UB [of "as_string mp" iv' "''procedure''"]
    unfolding proxy_def Let_def
    by (auto split: result.split option.split intro!: fine_in_with_state) (metis option.distinct(1))
qed

lemma proxy_thread_dangling:
  "callFutures b = Map.empty \<Longrightarrow> proxy_thread mp pl activation p b = (Undefined_Behaviour, b)"
  by (simp add: proxy_thread_def with_state_def lift_result_def)

section \<open>Reachable backplanes\<close>

lemma backplane_ok_setup:
  "backplane_ok mp u (backplane_setup \<lparr>written = [], fail_after = f\<rparr> garbage params)"
proof -
  let ?c = "new_tcp_client \<lparr>written = [], fail_after = f\<rparr> (m_params_endpoint params) ''default''"
  obtain c' where c': "launch ?c = (Ok (), c')" using launch_fresh(2) by blast
  moreover have "client_reachable mp u (snd (launch ?c))"
    by (rule fresh_client_reachable [OF client_init_new(2)]) simp
  ultimately have "client_reachable mp u c'" by simp
  with c' show ?thesis
    by (auto simp: backplane_setup_def launch_client_def on_client_def action_defs backplane_ok_def
        links_ok_def new_listener_def new_notifier_def listener.defs notifier.defs)
qed

lemma backplane_step_ok:
  "backplane_step mp u lib dg pl b b' \<Longrightarrow> backplane_ok mp u b \<Longrightarrow> backplane_ok mp u b'"
proof (induction rule: backplane_step.induct)
  case (step_datagram b garbage f bytes r b')
  then show ?case using keepsD_eq [OF ok.receive_P] by blast
next
  case (step_client b q c c' r b')
  then have "client_reachable mp u c'"
    using client_ok_at unfolding client_reachable_def by (blast intro: reach_step)
  then have "backplane_ok mp u (b\<lparr>clients := (clients b)(q \<mapsto> c')\<rparr>)"
    using step_client by (intro backplane_ok_clients)
  moreover have "keeps (backplane_ok mp u)
      (if disconnect_signals c < disconnect_signals c' then client_disconnected q else ret ())"
    unfolding client_disconnected_def by (intro keep_intros)
  ultimately show ?case using keepsD_eq step_client(3) by metis
next
  case (step_proxy b c p iv r b')
  then show ?case using proxy_fine [of mp u b c p iv pl iv] by (simp add: fine_in_def)
next
  case (step_posted b r b')
  have "keeps (backplane_ok mp u) run_posted"
    unfolding run_posted_def by (intro keep_intros keeps_with_stateI) (auto intro!: keep_intros keeps_update split: list.split)
  then show ?case using step_posted keepsD_eq by metis
next
  case (step_receive_error b garbage f e bytes r b')
  show ?case by (rule keepsD_eq [OF ok.on_receive_P _ step_receive_error(2)])
      (simp add: step_receive_error.prems)
next
  case (step_interfaces b n can_join ifap r b')
  show ?case by (rule keepsD_eq [OF ok.interfaces_P _ step_interfaces(2)])
      (simp add: step_interfaces.prems)
next
  case (step_launched name q b c connected proxy_procedure r b')
  show ?case by (rule keepsD_eq [OF client_launched_keeps _ step_launched(4)])
      (simp add: step_launched.prems)
next
  case (step_discovery b n can_select can_join ifap1 ifap2 r b')
  show ?case by (rule keepsD_eq [OF ok.start_discovery_P _ step_discovery(3)])
      (simp add: step_discovery.prems)
next
  case (step_proxy_thread activation p b r b')
  then show ?case by (auto simp: backplane_ok_def links_ok_def proxy_thread_dangling)
qed simp

lemma backplane_reachable_ok: "backplane_reachable mp u lib dg pl b \<Longrightarrow> backplane_ok mp u b"
  unfolding backplane_reachable_def backplane_init_def
  by (erule reach_invariant) (auto intro: backplane_ok_setup backplane_step_ok)

end
