(* ===== verification/Backplane_Routes.thy ===== *)
theory Backplane_Routes
  imports Backplane_Safety
begin

text \<open>
  The session map as a routing table.  A name keeps the client it leads to until the client that
  entered it disconnects or the function posted for a failed launch runs; no step leads it elsewhere.
\<close>

lemma on_client_map [simp]: "m_sessionMap (snd (on_client q f b)) = m_sessionMap b"
  by (simp add: on_client_def split: option.split prod.split)

lemma on_client_routes: "keeps (\<lambda>b. m_sessionMap b name = Some q) (on_client p f)"
  by (simp add: keeps_def)

lemma connect_routes:
  "keeps (\<lambda>b. m_sessionMap b name = Some q) (connect_to_new_domain lib garbage os d)"
proof (rule keepsI)
  fix b :: backplane assume b: "m_sessionMap b name = Some q"
  show "m_sessionMap (snd (connect_to_new_domain lib garbage os d b)) name = Some q"
  proof (cases "m_sessionMap b (m_domainName d)")
    case None
    with b show ?thesis
      by (cases "from_string lib (m_wampIp d)") (auto simp: connect_bad_address connect_new)
  qed (simp add: connect_known b)
qed

interpretation routes: backplane_updates "\<lambda>b. m_sessionMap b name = Some q" for name q
  by unfold_locales (simp_all add: connect_routes)

lemma launched_routes:
  "keeps (\<lambda>b. m_sessionMap b name = Some q) (client_launched mp proxy_procedure domain connected)"
  unfolding client_launched_def by (intro keep_intros keeps_update on_client_routes) simp

lemma proxy_call_routes: "keeps (\<lambda>b. m_sessionMap b name = Some q) (proxy_call mp pl p iv f r)"
  unfolding proxy_call_def start_waiting_def proxy_returns_def
  by (intro keep_intros keeps_update on_client_routes) simp_all

lemma proxy_reply_routes: "keeps (\<lambda>b. m_sessionMap b name = Some q) (proxy_reply mp p rep)"
  unfolding proxy_reply_def by (intro keep_intros on_client_routes)

lemma proxy_routes_kept: "keeps (\<lambda>b. m_sessionMap b name = Some q) (proxy mp pl p iv)"
  unfolding proxy_def Let_def
  by (auto split: result.split option.split
      intro!: keep_intros proxy_call_routes proxy_reply_routes)

lemma proxy_thread_routes: "keeps (\<lambda>b. m_sessionMap b name = Some q) (proxy_thread mp pl activation p)"
  unfolding proxy_thread_def
  by (auto split: promise_state.split option.split intro!: keep_intros on_client_routes)

text \<open>What takes a name out of the map in one step.\<close>

definition leaves :: "string \<Rightarrow> backplane \<Rightarrow> backplane \<Rightarrow> bool" where
  "leaves name b b' \<longleftrightarrow>
     (\<exists>names. posted b = name # names) \<or>
     (\<exists>p c c'. disconnect_slots b p = Some name \<and> clients b p = Some c \<and> clients b' p = Some c' \<and>
        disconnect_signals c < disconnect_signals c')"

lemma forget_domain_eq:
  "forget_domain name b =
     (Ok (), b\<lparr>m_sessionMap := map_erase (m_sessionMap b) name,
               m_knownDomains := map_erase (m_knownDomains b) name\<rparr>)"
  by (simp add: forget_domain_def erase_domain_def action_defs)

lemma route_stable:
  assumes "backplane_step mp u lib dg pl b b'" and "m_sessionMap b name = Some q"
  shows "m_sessionMap b' name = Some q \<or> m_sessionMap b' name = None \<and> leaves name b b'"
  using assms
proof (induction rule: backplane_step.induct)
  case (step_datagram b garbage f bytes r b')
  then show ?case using keepsD_eq [OF routes.receive_P] by blast
next
  case (step_receive_error b garbage f e bytes r b')
  have "m_sessionMap b' name = Some q"
    by (rule keepsD_eq [OF routes.on_receive_P _ step_receive_error(2)]) (simp add: step_receive_error.prems)
  then show ?case ..
next
  case (step_interfaces b n can_join ifap r b')
  have "m_sessionMap b' name = Some q"
    by (rule keepsD_eq [OF routes.interfaces_P _ step_interfaces(2)]) (simp add: step_interfaces.prems)
  then show ?case ..
next
  case (step_client b p c c' r b')
  show ?case
  proof (cases "disconnect_signals c < disconnect_signals c' \<and> disconnect_slots b p = Some name")
    case True
    with step_client show ?thesis
      by (auto simp: client_disconnected_def with_state_def forget_domain_eq leaves_def)
  next
    case False
    with step_client show ?thesis
      by (auto simp: client_disconnected_def with_state_def forget_domain_eq ret_def
          split: if_splits option.splits)
  qed
next
  case (step_launched domain p b c connected proxy_procedure r b')
  have "m_sessionMap b' name = Some q"
    by (rule keepsD_eq [OF launched_routes _ step_launched(4)]) (simp add: step_launched.prems)
  then show ?case ..
next
  case (step_discovery b n can_select can_join ifap1 ifap2 r b')
  have "m_sessionMap b' name = Some q"
    by (rule keepsD_eq [OF routes.start_discovery_P _ step_discovery(3)]) (simp add: step_discovery.prems)
  then show ?case ..
next
  case (step_posted b r b')
  then obtain n ns where posted: "posted b = n # ns" by (cases "posted b") auto
  have "m_sessionMap b' = map_erase (m_sessionMap b) n"
    using step_posted(2) posted by (auto simp: run_posted_def action_defs forget_domain_eq)
  with step_posted.prems posted show ?case by (cases "n = name") (simp_all add: leaves_def)
next
  case (step_proxy b c p iv r b')
  then show ?case using keepsD_eq [OF proxy_routes_kept] by blast
next
  case (step_proxy_thread activation p b r b')
  then show ?case using keepsD_eq [OF proxy_thread_routes] by blast
qed simp

end
