(* ===== verification/Backplane_Routing.thy ===== *)
theory Backplane_Routing
  imports Backplane_Routes
begin

text \<open>
  What the backplane is for: connecting to discovered domains, and forwarding invocations to them.
\<close>

section \<open>Composition\<close>

text \<open>C10: The backplane composes with its clients.  In every reachable backplane each client is a
  reachable client, hence its session a reachable session; every name in the session map leads to
  a client of its own, which takes the name out of the map when it disconnects; neither a
  forwarded invocation nor the end of a launch follows a pointer to no client; and no step leads a
  name to another client: it keeps its client until one that was entered under the name signals its
  disconnection, or the function posted for a failed launch of the name runs.\<close>

theorem backplane_composition:
  assumes "backplane_reachable mp u lib dg pl b"
  shows "(\<forall>q c. clients b q = Some c \<longrightarrow> client_reachable mp u c \<and> reachable mp u (m_pSession c)) \<and>
    (\<forall>name q. m_sessionMap b name = Some q \<longrightarrow> clients b q \<noteq> None \<and>
      (q = m_localClient b \<or> m_sessionMap (snd (client_disconnected q b)) name = None)) \<and>
    (\<forall>c p iv. clients b (m_localClient b) = Some c \<and> heap_invocations (m_pSession c) p = Some iv \<longrightarrow>
      fst (proxy mp pl p iv b) \<noteq> Undefined_Behaviour) \<and>
    fst (client_launched mp f domain connected b) \<noteq> Undefined_Behaviour \<and>
    (\<forall>b' name q. backplane_step mp u lib dg pl b b' \<and> m_sessionMap b name = Some q \<longrightarrow>
      m_sessionMap b' name = Some q \<or> m_sessionMap b' name = None \<and> leaves name b b')"
proof (intro conjI allI impI)
  note ok = backplane_reachable_ok [OF assms]
  show "client_reachable mp u c" if "clients b q = Some c" for q c
    using client_ok_at [OF ok that] .
  then show "reachable mp u (m_pSession c)" if "clients b q = Some c" for q c
    using client_reachable_ok that by (auto simp: client_ok_def)
  show "clients b q \<noteq> None" if "m_sessionMap b name = Some q" for name q
    using that client_exists [OF ok] ok by (auto simp: backplane_ok_def links_ok_def)
  show "q = m_localClient b \<or> m_sessionMap (snd (client_disconnected q b)) name = None"
    if "m_sessionMap b name = Some q" for name q
  proof -
    have "q = m_localClient b \<or> disconnect_slots b q = Some name"
      using that ok by (simp add: backplane_ok_def links_ok_def)
    then show ?thesis by (auto simp: client_disconnected_def with_state_def forget_domain_eq)
  qed
  show "fst (proxy mp pl p iv b) \<noteq> Undefined_Behaviour"
    if "clients b (m_localClient b) = Some c \<and> heap_invocations (m_pSession c) p = Some iv" for c p iv
    using proxy_fine [OF ok, of c p iv pl iv] that by (simp add: fine_in_def)
  obtain lc where "clients b (m_localClient b) = Some lc" using local_client_ok [OF ok] by blast
  then show "fst (client_launched mp f domain connected b) \<noteq> Undefined_Behaviour"
    using provide_op.request_queued(1) [of mp "domain @ ''/''" f "[(''match'', STR_OBJ ''prefix'')]" "m_pSession lc"]
    by (simp add: client_launched_def with_state_def and_then_def bind_act_def on_client_eq
        ret_def update_def)
qed (use route_stable in blast)

text \<open>An instance of the conversions: adjacent slashes are merged, then the text is split at slashes.\<close>

fun merge_slashes :: "string \<Rightarrow> string" where
  "merge_slashes (c # d # s) =
     (if c = CHR ''/'' \<and> d = CHR ''/'' then merge_slashes (d # s) else c # merge_slashes (d # s))"
| "merge_slashes s = s"

fun example_list :: "msgobj \<Rightarrow> msgobj list option" where
  "example_list (ARRAY xs) = Some xs"
| "example_list _ = None"

fun example_map :: "msgobj \<Rightarrow> (msgobj \<times> msgobj) list option" where
  "example_map (MAP kvs) = (if list_all (\<lambda>(k, v). is_str k) kvs then Some kvs else None)"
| "example_map _ = None"

definition example_proxy :: proxy_library where
  "example_proxy =
     \<lparr>split_slash = (\<lambda>s. split_at CHR ''/'' (merge_slashes s)), as_argument_list = example_list,
      as_argument_map = example_map\<rparr>"

theorem backplane_composition_witness:
  "clients (backplane_setup healthy 0 new_parameters) 0 \<noteq> None \<and>
   fst (client_launched demo_mp 3 ''test1'' True (backplane_setup healthy 0 new_parameters))
     \<noteq> Undefined_Behaviour"
proof -
  let ?b = "backplane_setup healthy 0 new_parameters"
  have "backplane_reachable demo_mp silent_user ip_example (example_datagrams demo_mp []) example_proxy ?b"
    unfolding backplane_reachable_def healthy_def
    by (rule reach_init) (auto simp: backplane_init_def)
  note composition = backplane_composition [OF this, of 3 "''test1''" True]
  have "m_sessionMap ?b ''test1'' = Some 0"
    by code_simp
  with composition show ?thesis by blast
qed

section \<open>Connecting to a domain\<close>

lemma launched_client_fields:
  "m_rawsocket_endpoint (launched_client garbage os ip port) = (ip, port)"
  "connects_pending (launched_client garbage os ip port) = 1"
  "\<not> satisfied (m_connected (launched_client garbage os ip port))"
  "m_isConnected (launched_client garbage os ip port) = garbage"
  by (simp_all add: launched_client_def launch_def action_defs on_connected_def get_future_def
      new_tcp_client_def init_client_def new_promise_def satisfied_def)

text \<open>C21: An announcement of a domain the listener does not know, decoded from a datagram.  When no client
  of that name exists and the announced address is one, a client for exactly that endpoint is
  created, entered under the name and its connection begun, and no other client is touched; when the
  client disconnects, the name is forgotten, so that the next announcement connects again.  When
  the address is not one, the exception ends the reception for good.\<close>

theorem announced_domain_connected:
  fixes lib :: ip_library and garbage :: bool and os :: ostream and b :: backplane and d :: domain_info
  assumes "datagrams_ok dg" and "announces dg bytes d" and "length bytes \<le> RX_BUFFER_SIZE"
    and "receives b = 1" and "m_knownDomains b (m_domainName d) = None"
    and "m_sessionMap b (m_domainName d) = None"
  defines "slot \<equiv> connect_to_new_domain lib garbage os"
  shows "(\<forall>ip. from_string lib (m_wampIp d) = Some ip \<longrightarrow>
      (\<exists>b' c. receive_datagram dg slot bytes b = (Ok (), b') \<and> receives b' = 1 \<and>
        clients b' = (clients b)(next_client b \<mapsto> c) \<and>
        m_sessionMap b' = (m_sessionMap b)(m_domainName d \<mapsto> next_client b) \<and>
        m_rawsocket_endpoint c = (ip, m_wampPort d) \<and> connects_pending c = 1 \<and>
        \<not> satisfied (m_connected c) \<and> m_isConnected c = garbage \<and>
        m_knownDomains b' (m_domainName d) = Some d \<and>
        m_knownDomains (snd (client_disconnected (next_client b) b')) (m_domainName d) = None \<and>
        m_sessionMap (snd (client_disconnected (next_client b) b')) (m_domainName d) = None)) \<and>
    (from_string lib (m_wampIp d) = None \<longrightarrow>
      fst (receive_datagram dg slot bytes b) = Throw (Library_Error System_Error) \<and>
      receives (snd (receive_datagram dg slot bytes b)) = 0)"
proof (intro conjI allI impI)
  let ?b = "b\<lparr>receives := receives b - 1, m_rxMessageCount := m_rxMessageCount b + 1,
              m_knownDomains := (m_knownDomains b)(m_domainName d \<mapsto> d)\<rparr>"
  have run: "receive_datagram dg slot bytes b = and_then (slot d) (queue_receive None) ?b"
    using discover_announcement [OF assms(1-3), of slot b] assms(5) by (simp add: Let_def)
  {
    fix ip assume "from_string lib (m_wampIp d) = Some ip"
    then have "slot d ?b = (Ok (), ?b\<lparr>next_client := Suc (next_client b),
        m_sessionMap := (m_sessionMap b)(m_domainName d \<mapsto> next_client b),
        disconnect_slots := (disconnect_slots b)(next_client b \<mapsto> m_domainName d),
        clients := (clients b)(next_client b \<mapsto> launched_client garbage os ip (m_wampPort d)),
        launching := launching b @ [(m_domainName d, next_client b)],
        m_outstandingFutures := Suc (m_outstandingFutures b)\<rparr>)"
      using connect_new [of ?b d lib ip] assms(6) by (simp add: slot_def)
    then show "\<exists>b' c. receive_datagram dg slot bytes b = (Ok (), b') \<and> receives b' = 1 \<and>
        clients b' = (clients b)(next_client b \<mapsto> c) \<and>
        m_sessionMap b' = (m_sessionMap b)(m_domainName d \<mapsto> next_client b) \<and>
        m_rawsocket_endpoint c = (ip, m_wampPort d) \<and> connects_pending c = 1 \<and>
        \<not> satisfied (m_connected c) \<and> m_isConnected c = garbage \<and>
        m_knownDomains b' (m_domainName d) = Some d \<and>
        m_knownDomains (snd (client_disconnected (next_client b) b')) (m_domainName d) = None \<and>
        m_sessionMap (snd (client_disconnected (next_client b) b')) (m_domainName d) = None"
      using assms(4) launched_client_fields [of garbage os ip "m_wampPort d"]
      by (simp add: run and_then_def bind_act_def queue_receive_def update_def client_disconnected_def
          with_state_def forget_domain_eq)
        (rule exI [of _ "launched_client garbage os ip (m_wampPort d)"], simp)
  next
    assume "from_string lib (m_wampIp d) = None"
    then have "slot d ?b = (Throw (Library_Error System_Error), ?b)"
      using connect_bad_address [of ?b d lib] assms(6) by (simp add: slot_def)
    then show "fst (receive_datagram dg slot bytes b) = Throw (Library_Error System_Error)"
      "receives (snd (receive_datagram dg slot bytes b)) = 0"
      using assms(4) by (simp_all add: run and_then_def bind_act_def)
  }
qed

text \<open>An example: the backplane with the default parameters, listening, and one announcement.\<close>

definition demo_backplane :: backplane where
  "demo_backplane = (backplane_setup healthy 0 new_parameters)\<lparr>receives := 1\<rparr>"

lemma demo_backplane_fields:
  "receives demo_backplane = 1" "m_knownDomains demo_backplane = Map.empty"
  "m_sessionMap demo_backplane = [''test1'' \<mapsto> 0]" "m_localClient demo_backplane = 0"
proof -
  obtain c' where "launch (new_tcp_client healthy (m_params_endpoint new_parameters) ''default'') = (Ok (), c')"
    using launch_fresh(2) by blast
  then show "receives demo_backplane = 1" "m_knownDomains demo_backplane = Map.empty"
    "m_sessionMap demo_backplane = [''test1'' \<mapsto> 0]" "m_localClient demo_backplane = 0"
    by (simp_all add: demo_backplane_def backplane_setup_def launch_client_def on_client_def action_defs
        new_listener_def new_notifier_def listener.defs notifier.defs new_parameters_def)
qed

theorem announced_domain_connected_witness:
  "\<exists>b' c. receive_datagram (example_datagrams text_mp [domain_at 5])
      (connect_to_new_domain ip_example True healthy) (encode text_mp (announcement (domain_at 5)))
      demo_backplane = (Ok (), b') \<and> clients b' = (clients demo_backplane)(next_client demo_backplane \<mapsto> c) \<and>
    m_sessionMap b' = [''test1'' \<mapsto> 0, ''a'' \<mapsto> next_client demo_backplane] \<and>
    m_rawsocket_endpoint c = (5, 8000) \<and> m_isConnected c"
proof -
  let ?dg = "example_datagrams text_mp [domain_at 5]"
  have "announces ?dg (encode text_mp (announcement (domain_at 5))) (domain_at 5)"
    by (rule example_announces) code_simp
  moreover have "length (encode text_mp (announcement (domain_at 5))) \<le> RX_BUFFER_SIZE" by code_simp
  moreover have "from_string ip_example (m_wampIp (domain_at 5)) = Some 5"
    using ip_ok_simps(1) [OF ip_example_ok] by (simp add: domain_at_def)
  moreover have "([''test1'' \<mapsto> (0::nat)]) ''a'' = None" by simp
  moreover have "m_domainName (domain_at 5) = ''a''" "m_wampPort (domain_at 5) = 8000"
    by (simp_all add: domain_at_def)
  ultimately show ?thesis
    using announced_domain_connected [OF example_datagrams_ok, of text_mp "[domain_at 5]"
        "encode text_mp (announcement (domain_at 5))" "domain_at 5" demo_backplane ip_example True healthy]
    by (simp add: demo_backplane_fields del: fun_upd_apply) blast
qed

section \<open>Forwarding\<close>

text \<open>From \<open>b\<close> to \<open>b'\<close> only client \<open>q\<close> and the threads of \<open>proxy\<close> changed, and the client's session wrote
  \<open>bytes\<close>.\<close>

definition only_wrote :: "backplane \<Rightarrow> nat \<Rightarrow> byte list \<Rightarrow> backplane \<Rightarrow> bool" where
  "only_wrote b q bytes b' \<longleftrightarrow> (\<exists>c c'. clients b q = Some c \<and>
     b'\<lparr>callFutures := callFutures b, proxy_threads := proxy_threads b, next_activation := next_activation b\<rparr> =
       b\<lparr>clients := (clients b)(q \<mapsto> c')\<rparr> \<and>
     written (m_out (m_pSession c')) = written (m_out (m_pSession c)) @ bytes)"

definition session_up :: "session \<Rightarrow> bool" where
  "session_up s \<longleftrightarrow> alive s \<and> \<not> m_stopped s \<and> fail_after (m_out s) = None"

lemma only_wroteI:
  "clients b q = Some c \<Longrightarrow> written (m_out s') = written (m_out (m_pSession c)) @ bytes \<Longrightarrow>
   only_wrote b q bytes (b\<lparr>clients := (clients b)(q \<mapsto> c\<lparr>m_pSession := s'\<rparr>)\<rparr>)"
  unfolding only_wrote_def by (intro exI [of _ c] exI [of _ "c\<lparr>m_pSession := s'\<rparr>"]) simp

lemma only_wrote_thread: "only_wrote b q bytes b' \<Longrightarrow> only_wrote b q bytes (thread_left p b')"
  by (simp add: only_wrote_def thread_left_def)

lemma proxy_reply_writes:
  assumes "clients b (m_localClient b) = Some lc" and "heap_invocations (m_pSession lc) p = Some iv"
    and "sendable iv" and "session_up (m_pSession lc)"
  shows "fst (proxy_reply mp p rep b) = Ok None \<and>
    only_wrote b (m_localClient b) (frame mp (reply_message rep (inv_request_id iv)))
      (snd (proxy_reply mp p rep b))"
proof -
  obtain g where "inv_send_result_fn iv = Some g" using assms(3) by (auto simp: sendable_def)
  with assms show ?thesis
    by (auto simp: proxy_reply_def with_state_def and_then_def bind_act_def ret_def on_client_eq
        invocation_reply_sendable Let_def send_result_eq send_healthy session_up_def
        intro!: only_wroteI)
qed

text \<open>The forwarded call, and the thread it leaves behind.\<close>

lemma forwarded_call:
  fixes p :: nat and mp :: msgpack and f :: string and a :: "msgobj list" and k :: "(msgobj \<times> msgobj) list"
  assumes "clients b q = Some c" and "session_up (m_pSession c)"
  defines "m \<equiv> bind_act (on_client q (on_session (call_kw mp True f a k))) (\<lambda>future.
    with_state (\<lambda>b. and_then (start_waiting p q future)
      (and_then (proxy_returns (next_activation b)) (ret (Some future)))))"
  shows "m_session_id (m_pSession c) = 0 \<Longrightarrow>
      fst (m b) = Throw No_Session_Error \<and> only_wrote b q [] (snd (m b))"
    and "m_session_id (m_pSession c) \<noteq> 0 \<Longrightarrow>
      fst (m b) = Ok (Some (heap_next (m_pSession c))) \<and>
      only_wrote b q (frame mp (call_kw_message f a k (word_of_nat (Suc (m_request_id (m_pSession c))))))
        (snd (m b)) \<and>
      proxy_threads (snd (m b)) = proxy_threads b @ [(next_activation b, p)]"
proof -
  let ?s = "m_pSession c"
  let ?b = "b\<lparr>clients := (clients b)(q \<mapsto> c\<lparr>m_pSession := snd (call_kw mp True f a k ?s)\<rparr>)\<rparr>"
  note up = assms(2) [unfolded session_up_def]
  have m: "m b = (case fst (call_kw mp True f a k ?s) of
      Ok future \<Rightarrow> (Ok (Some future), thread_left p ?b)
    | Throw e \<Rightarrow> (Throw e, ?b) | Undefined_Behaviour \<Rightarrow> (Undefined_Behaviour, ?b))"
    by (cases "fst (call_kw mp True f a k ?s)")
      (simp_all add: m_def bind_act_def on_client_eq [OF assms(1)] start_and_return)
  show "fst (m b) = Throw No_Session_Error \<and> only_wrote b q [] (snd (m b))" if "m_session_id ?s = 0"
    unfolding m using call_kw_op.request_not_joined_silent(1,2) [of ?s mp f a k] up that
    by (auto intro!: only_wroteI [OF assms(1)])
  show "fst (m b) = Ok (Some (heap_next ?s)) \<and>
      only_wrote b q (frame mp (call_kw_message f a k (word_of_nat (Suc (m_request_id ?s))))) (snd (m b)) \<and>
      proxy_threads (snd (m b)) = proxy_threads b @ [(next_activation b, p)]"
    if "m_session_id ?s \<noteq> 0"
  proof -
    have "proxy_threads (thread_left p ?b) = proxy_threads b @ [(next_activation b, p)]"
      by (simp add: thread_left_def)
    then show ?thesis
      unfolding m using call_kw_op.request_joined(1,3) [of ?s mp f a k] up that
      by (auto intro!: only_wrote_thread only_wroteI [OF assms(1)] simp del: of_nat_Suc)
  qed
qed

text \<open>C14: Forwarding.  An invocation of \<open>domain/procedure\<close> becomes exactly one CALL frame of the
  procedure with the invocation's payload and the next request id, on the session of the client in
  the map under that domain, nothing else is written anywhere, and one thread waits for the answer.  When the route has not two
  parts, or no client of the domain exists or claims to be connected, the caller gets exactly one
  ERROR reply.  A client that claims to be connected while its session is not joined lets
  \<open>no_session_error\<close> out and writes nothing.\<close>

theorem proxy_routes:
  assumes "clients b (m_localClient b) = Some lc" and "heap_invocations (m_pSession lc) p = Some iv"
    and "sendable iv" and "session_up (m_pSession lc)"
    and "invocation_detail (as_string mp) iv ''procedure'' = Ok route"
    and "as_argument_list pl (inv_arguments iv) = Some a"
    and "as_argument_map pl (inv_kw_arguments iv) = Some k"
  shows "(length (split_slash pl route) \<noteq> 2 \<longrightarrow> fst (proxy mp pl p iv b) = Ok None \<and>
      only_wrote b (m_localClient b)
        (frame mp (error_message ''no domain specified'' (inv_request_id iv))) (snd (proxy mp pl p iv b))) \<and>
    (split_slash pl route = [domain, f] \<and>
     (m_sessionMap b domain = None \<or>
      (\<exists>q c. m_sessionMap b domain = Some q \<and> clients b q = Some c \<and> \<not> isConnected c)) \<longrightarrow>
      fst (proxy mp pl p iv b) = Ok None \<and>
      only_wrote b (m_localClient b)
        (frame mp (error_message ''target domain is unknown'' (inv_request_id iv))) (snd (proxy mp pl p iv b))) \<and>
    (split_slash pl route = [domain, f] \<and> m_sessionMap b domain = Some q \<and> clients b q = Some c \<and>
     isConnected c \<and> session_up (m_pSession c) \<longrightarrow>
      (if m_session_id (m_pSession c) = 0
       then fst (proxy mp pl p iv b) = Throw No_Session_Error \<and> only_wrote b q [] (snd (proxy mp pl p iv b))
       else fst (proxy mp pl p iv b) = Ok (Some (heap_next (m_pSession c))) \<and>
         only_wrote b q (frame mp (call_kw_message f a k (word_of_nat (Suc (m_request_id (m_pSession c))))))
           (snd (proxy mp pl p iv b)) \<and>
         proxy_threads (snd (proxy mp pl p iv b)) = proxy_threads b @ [(next_activation b, p)]))"
proof (intro conjI impI)
  note reply = proxy_reply_writes [OF assms(1-4)]
  assume "length (split_slash pl route) \<noteq> 2"
  then have "proxy mp pl p iv b = proxy_reply mp p (Error_Uri ''no domain specified'') b"
    using assms(5) by (simp add: proxy_def)
  with reply [of mp "Error_Uri ''no domain specified''"] show "fst (proxy mp pl p iv b) = Ok None"
    "only_wrote b (m_localClient b)
        (frame mp (error_message ''no domain specified'' (inv_request_id iv))) (snd (proxy mp pl p iv b))"
    by simp_all
next
  note reply = proxy_reply_writes [OF assms(1-4)]
  assume "split_slash pl route = [domain, f] \<and>
     (m_sessionMap b domain = None \<or>
      (\<exists>q c. m_sessionMap b domain = Some q \<and> clients b q = Some c \<and> \<not> isConnected c))"
  then have "proxy mp pl p iv b = proxy_reply mp p (Error_Uri ''target domain is unknown'') b"
    using assms(5) by (auto simp: proxy_def with_state_def)
  with reply [of mp "Error_Uri ''target domain is unknown''"] show "fst (proxy mp pl p iv b) = Ok None"
    "only_wrote b (m_localClient b)
        (frame mp (error_message ''target domain is unknown'' (inv_request_id iv))) (snd (proxy mp pl p iv b))"
    by simp_all
next
  assume *: "split_slash pl route = [domain, f] \<and> m_sessionMap b domain = Some q \<and> clients b q = Some c \<and>
     isConnected c \<and> session_up (m_pSession c)"
  then have routed: "proxy mp pl p iv b =
      bind_act (on_client q (on_session (call_kw mp True f a k))) (\<lambda>future.
        with_state (\<lambda>b. and_then (start_waiting p q future)
          (and_then (proxy_returns (next_activation b)) (ret (Some future))))) b"
    using assms(5-7) by (simp add: proxy_def with_state_def proxy_call_def invocation_arguments_as_def
        invocation_kw_arguments_as_def bind_act_def lift_result_def)
  show "if m_session_id (m_pSession c) = 0
       then fst (proxy mp pl p iv b) = Throw No_Session_Error \<and> only_wrote b q [] (snd (proxy mp pl p iv b))
       else fst (proxy mp pl p iv b) = Ok (Some (heap_next (m_pSession c))) \<and>
         only_wrote b q (frame mp (call_kw_message f a k (word_of_nat (Suc (m_request_id (m_pSession c))))))
           (snd (proxy mp pl p iv b)) \<and>
         proxy_threads (snd (proxy mp pl p iv b)) = proxy_threads b @ [(next_activation b, p)]"
    unfolding routed
    using * forwarded_call(1) [of b q c mp f a k p] forwarded_call(2) [of b q c mp f a k p] by auto
qed

text \<open>A local router invoked with the route \<open>a/f\<close>, and a client that has joined the router of \<open>a\<close>.\<close>

definition routed_invocation :: wamp_invocation where
  "routed_invocation = new_invocation\<lparr>inv_details := MAP [(STR_OBJ ''procedure'', STR_OBJ ''a/f'')],
     inv_request_id := 4, inv_send_result_fn := Some Send_Via_Session\<rparr>"

definition routing_backplane :: backplane where
  "routing_backplane = demo_backplane\<lparr>m_sessionMap := [''a'' \<mapsto> 1],
     clients := [0 \<mapsto> demo_client\<lparr>m_pSession := (demo [])\<lparr>heap_invocations := [5 \<mapsto> routed_invocation]\<rparr>\<rparr>,
                 1 \<mapsto> demo_client\<lparr>m_pSession := demo [], m_isConnected := True\<rparr>]\<rparr>"

theorem proxy_routes_witness:
  "fst (proxy demo_mp example_proxy 5 routed_invocation routing_backplane) = Ok (Some 0) \<and>
   only_wrote routing_backplane 1 (frame demo_mp (call_kw_message ''f'' [] [] 1))
     (snd (proxy demo_mp example_proxy 5 routed_invocation routing_backplane))"
proof -
  let ?lc = "demo_client\<lparr>m_pSession := (demo [])\<lparr>heap_invocations := [5 \<mapsto> routed_invocation]\<rparr>\<rparr>"
  let ?c = "demo_client\<lparr>m_pSession := demo [], m_isConnected := True\<rparr>"
  have up: "session_up (demo [])" by code_simp
  have local: "clients routing_backplane (m_localClient routing_backplane) = Some ?lc"
    "heap_invocations (m_pSession ?lc) 5 = Some routed_invocation"
    "session_up (m_pSession ?lc)" "sendable routed_invocation"
    using up by (simp_all add: routing_backplane_def demo_backplane_fields session_up_def sendable_def
        routed_invocation_def)
  have route: "invocation_detail (as_string demo_mp) routed_invocation ''procedure'' = Ok ''a/f''"
    "as_argument_list example_proxy (inv_arguments routed_invocation) = Some []"
    "as_argument_map example_proxy (inv_kw_arguments routed_invocation) = Some []"
    "split_slash example_proxy ''a/f'' = [''a'', ''f'']"
    by code_simp+
  have remote: "m_sessionMap routing_backplane ''a'' = Some 1" "clients routing_backplane 1 = Some ?c"
    "isConnected ?c" "session_up (m_pSession ?c)"
    using up by (simp_all add: routing_backplane_def isConnected_def)
  have "m_session_id (m_pSession ?c) = 7" "heap_next (m_pSession ?c) = 0" "m_request_id (m_pSession ?c) = 0"
    by code_simp+
  with proxy_routes [OF local(1,2,4,3) route(1-3), of "''a''" "''f''" 1 ?c] remote route(4)
  show ?thesis by (simp add: of_nat_Suc)
qed

section \<open>The answer\<close>

lemma proxy_call_return:
  "proxy_call mp pl p iv f q b = (Ok (Some future), b') \<Longrightarrow> callFutures b' (next_activation b) = None"
  by (auto simp: proxy_call_def start_and_return bind_act_def lift_result_def on_client_def thread_left_def
      split: result.splits prod.splits option.splits)

lemma proxy_reply_return: "proxy_reply mp p rep b \<noteq> (Ok (Some future), b')"
  by (auto simp: proxy_reply_def with_state_def and_then_def bind_act_def ret_def
      split: result.splits prod.splits)

lemma proxy_return:
  "proxy mp pl p iv b = (Ok (Some future), b') \<Longrightarrow> callFutures b' (next_activation b) = None"
  unfolding proxy_def Let_def
  by (auto simp: with_state_def proxy_reply_return raise_def lift_result_def
      split: result.splits option.splits if_splits dest: proxy_call_return)

text \<open>C22: The answer to a forwarded invocation.  The thread \<open>proxy\<close> leaves behind refers to a variable
  that is gone when \<open>proxy\<close> has returned, and in no reachable backplane does a waiting thread find
  its variable: whatever it does there is undefined.  Were the variable alive, the thread would wait
  until the call is answered, answer the invocation with one YIELD of the result's payload under
  the invocation's request id, queued for the io thread, and let the error of a failed call end the
  program instead of reporting it.\<close>

theorem proxy_answer:
  shows "(backplane_reachable mp u lib dg pl b \<and> (activation, p) \<in> set (proxy_threads b) \<longrightarrow>
      fst (proxy_thread mp pl activation p b) = Undefined_Behaviour) \<and>
    (proxy mp pl p iv b = (Ok (Some future), b') \<longrightarrow>
      fst (proxy_thread mp pl (next_activation b) p b') = Undefined_Behaviour) \<and>
    (callFutures b activation = Some (q, future) \<and> clients b q = Some c \<and>
     heap_calls (m_pSession c) future = Some waiting \<longrightarrow>
      (case shared_state (call_promise waiting) of
         Pending \<Rightarrow> proxy_thread mp pl activation p b = (Ok (), b)
       | Has_Exception e \<Rightarrow> proxy_thread mp pl activation p b = (Throw e, b)
       | Has_Value res \<Rightarrow>
           (\<forall>lc s inv a k. clients b (m_localClient b) = Some lc \<and> s = m_pSession lc \<and>
              heap_invocations s p = Some inv \<and> sendable inv \<and> alive s \<and>
              as_argument_list pl (obj (cr_arguments res)) = Some a \<and>
              as_argument_map pl (obj (cr_kw_arguments res)) = Some k \<longrightarrow>
            proxy_thread mp pl activation p b =
              (Ok (), b\<lparr>clients := (clients b)(m_localClient b \<mapsto> lc\<lparr>m_pSession := s\<lparr>
                 io_queue := io_queue s @ [Send_Result_Task (yield_kw_message a k (inv_request_id inv))],
                 heap_invocations := (heap_invocations s)(p \<mapsto> inv\<lparr>inv_send_result_fn := None\<rparr>)\<rparr>\<rparr>)\<rparr>))))"
proof (intro conjI impI)
  assume "backplane_reachable mp u lib dg pl b \<and> (activation, p) \<in> set (proxy_threads b)"
  then have "backplane_ok mp u b" using backplane_reachable_ok by blast
  then show "fst (proxy_thread mp pl activation p b) = Undefined_Behaviour"
    by (simp add: backplane_ok_def links_ok_def proxy_thread_dangling)
next
  assume "proxy mp pl p iv b = (Ok (Some future), b')"
  then show "fst (proxy_thread mp pl (next_activation b) p b') = Undefined_Behaviour"
    using proxy_return by (simp add: proxy_thread_def with_state_def lift_result_def)
next
  assume live: "callFutures b activation = Some (q, future) \<and> clients b q = Some c \<and>
     heap_calls (m_pSession c) future = Some waiting"
  show "case shared_state (call_promise waiting) of
         Pending \<Rightarrow> proxy_thread mp pl activation p b = (Ok (), b)
       | Has_Exception e \<Rightarrow> proxy_thread mp pl activation p b = (Throw e, b)
       | Has_Value res \<Rightarrow>
           (\<forall>lc s inv a k. clients b (m_localClient b) = Some lc \<and> s = m_pSession lc \<and>
              heap_invocations s p = Some inv \<and> sendable inv \<and> alive s \<and>
              as_argument_list pl (obj (cr_arguments res)) = Some a \<and>
              as_argument_map pl (obj (cr_kw_arguments res)) = Some k \<longrightarrow>
            proxy_thread mp pl activation p b =
              (Ok (), b\<lparr>clients := (clients b)(m_localClient b \<mapsto> lc\<lparr>m_pSession := s\<lparr>
                 io_queue := io_queue s @ [Send_Result_Task (yield_kw_message a k (inv_request_id inv))],
                 heap_invocations := (heap_invocations s)(p \<mapsto> inv\<lparr>inv_send_result_fn := None\<rparr>)\<rparr>\<rparr>)\<rparr>))"
    using live
    by (cases "shared_state (call_promise waiting)")
      (auto simp: proxy_thread_def with_state_def ret_def raise_def lift_result_def bind_act_def sendable_def
        call_result_arguments_as_def call_result_kw_arguments_as_def on_client_eq on_session_def
        invocation_reply_sendable send_result_eq Let_def)
qed

text \<open>The variable of an activation kept alive, and its call answered with an empty result.\<close>

definition answered_backplane :: backplane where
  "answered_backplane = demo_backplane\<lparr>callFutures := [3 \<mapsto> (1, 0)],
     clients := [0 \<mapsto> demo_client\<lparr>m_pSession := (demo [])\<lparr>heap_invocations := [5 \<mapsto> routed_invocation]\<rparr>\<rparr>,
                 1 \<mapsto> demo_client\<lparr>m_pSession := (demo [])\<lparr>heap_calls :=
                   [0 \<mapsto> new_call\<lparr>call_promise :=
                      new_promise\<lparr>shared_state := Has_Value (call_result_with_zone None)\<rparr>\<rparr>]\<rparr>\<rparr>]\<rparr>"

theorem proxy_answer_witness:
  "fst (proxy_thread demo_mp example_proxy (next_activation routing_backplane) 5
      (snd (proxy demo_mp example_proxy 5 routed_invocation routing_backplane))) = Undefined_Behaviour \<and>
   map_option (\<lambda>c. io_queue (m_pSession c))
     (clients (snd (proxy_thread demo_mp example_proxy 3 5 answered_backplane)) 0) =
     Some [Send_Result_Task (yield_kw_message [] [] 4)]"
proof
  have "fst (proxy demo_mp example_proxy 5 routed_invocation routing_backplane) = Ok (Some 0)"
    by code_simp
  then have "proxy demo_mp example_proxy 5 routed_invocation routing_backplane =
      (Ok (Some 0), snd (proxy demo_mp example_proxy 5 routed_invocation routing_backplane))"
    by (simp add: prod_eq_iff)
  then show "fst (proxy_thread demo_mp example_proxy (next_activation routing_backplane) 5
      (snd (proxy demo_mp example_proxy 5 routed_invocation routing_backplane))) = Undefined_Behaviour"
    using proxy_answer by blast
next
  let ?lc = "demo_client\<lparr>m_pSession := (demo [])\<lparr>heap_invocations := [5 \<mapsto> routed_invocation]\<rparr>\<rparr>"
  let ?w = "new_call\<lparr>call_promise :=
      new_promise\<lparr>shared_state := Has_Value (call_result_with_zone None)\<rparr>\<rparr>"
  let ?rc = "demo_client\<lparr>m_pSession := (demo [])\<lparr>heap_calls := [0 \<mapsto> ?w]\<rparr>\<rparr>"
  have "clients answered_backplane (m_localClient answered_backplane) = Some ?lc"
    "clients answered_backplane 1 = Some ?rc" "callFutures answered_backplane 3 = Some (1, 0)"
    "m_localClient answered_backplane = 0"
    by (simp_all add: answered_backplane_def demo_backplane_fields)
  moreover have "alive (demo [])" "io_queue (demo []) = []" "sendable routed_invocation"
    "inv_request_id routed_invocation = 4"
    "as_argument_list example_proxy (obj (cr_arguments (call_result_with_zone None))) = Some []"
    "as_argument_map example_proxy (obj (cr_kw_arguments (call_result_with_zone None))) = Some []"
    by code_simp+
  ultimately show "map_option (\<lambda>c. io_queue (m_pSession c))
     (clients (snd (proxy_thread demo_mp example_proxy 3 5 answered_backplane)) 0) =
     Some [Send_Result_Task (yield_kw_message [] [] 4)]"
    using proxy_answer [THEN conjunct2, THEN conjunct2, of answered_backplane 3 1 0 ?rc ?w demo_mp example_proxy 5]
    by simp
qed

end
