(* ===== verification/Example_Programs.thy ===== *)
theory Example_Programs
  imports Callee Parameters
begin

text \<open>
  The example programs \<open>caller\<close>, \<open>publisher\<close>, \<open>callee2\<close> and \<open>subscriber\<close> of \<open>examples/\<close>: each
  connects one socket, starts a session on it and joins a realm, each step in a continuation of the
  one before, and then calls, publishes, provides or subscribes.  The main thread runs the
  \<open>io_service\<close>; continuations run on threads of their own, so their requests are queued.
\<close>

section \<open>A program in execution\<close>

text \<open>
  The main thread is in \<open>io.run()\<close>, or has left it with the value \<open>main\<close> will return, or has returned.
  Between the last two it destroys the futures of the continuations, which waits for every
  continuation that has not run (so the comment at their declaration).  \<open>app_connecting\<close> says that
  \<open>async_connect\<close> is outstanding, \<open>app_waiting\<close> are the continuations attached to futures and not
  run, \<open>app_printed\<close> the results written to \<open>std::cerr\<close>.
\<close>

datatype main_state = Io_Running | Returning int | Returned int

datatype continuation = After_Start | After_Join | After_Call nat | After_Leave | After_Stop

record app =
  app_session :: session
  app_params :: parameters
  app_connecting :: bool
  app_waiting :: "continuation list"
  app_printed :: "u64 list"
  app_main :: main_state

definition app_setup :: "ostream \<Rightarrow> parameters \<Rightarrow> app" where
  "app_setup os params =
     \<lparr>app_session = new_session os, app_params = params, app_connecting = True, app_waiting = [],
      app_printed = [], app_main = Io_Running\<rparr>"

text \<open>\<open>main\<close> up to \<open>io.run()\<close>, the same in all four programs.\<close>

definition example_main :: "ip_library \<Rightarrow> ostream \<Rightarrow> command_line \<Rightarrow> app main_outcome" where
  "example_main lib os cl =
     (case get_parameters lib cl of
        Ok (Running params) \<Rightarrow> Running (app_setup os params)
      | Ok (Exit n) \<Rightarrow> Exit n
      | _ \<Rightarrow> Exit 1)"

definition on_app :: "(session, 'a) action \<Rightarrow> (app, 'a) action" where
  "on_app f a = (case f (app_session a) of (r, s) \<Rightarrow> (r, a\<lparr>app_session := s\<rparr>))"

text \<open>\<open>f = future.then(...)\<close>.\<close>

definition attach :: "continuation \<Rightarrow> (app, unit) action" where
  "attach k = update (\<lambda>a. a\<lparr>app_waiting := app_waiting a @ [k]\<rparr>)"

definition io_stop :: "(app, unit) action" where
  "io_stop = update (\<lambda>a. if app_main a = Io_Running then a\<lparr>app_main := Returning 0\<rparr> else a)"

text \<open>
  What \<open>get()\<close> on a future delivers, \<open>None\<close> when the future is not ready.  A continuation runs when
  its future is ready.
\<close>

definition future_get :: "'a promise \<Rightarrow> 'a result option" where
  "future_get p =
     (case shared_state p of Pending \<Rightarrow> None | Has_Value v \<Rightarrow> Some (Ok v) | Has_Exception e \<Rightarrow> Some (Throw e))"

text \<open>
  A program: the completion handler of its connection, the continuations of its futures (each with
  what \<open>get()\<close> delivers, where the continuation looks at it), and its callbacks.
\<close>

record program =
  on_connect :: "io_error option \<Rightarrow> (app, unit) action"
  on_started :: "(app, unit) action"
  on_joined :: "u64 result \<Rightarrow> (app, unit) action"
  on_called :: "wamp_call_result result \<Rightarrow> (app, unit) action"
  on_left :: "string result \<Rightarrow> (app, unit) action"
  on_stopped :: "(app, unit) action"
  callbacks :: user

definition continue :: "program \<Rightarrow> continuation \<Rightarrow> app \<Rightarrow> (unit result \<times> app) option" where
  "continue P k a =
     (let s = app_session a in case k of
        After_Start \<Rightarrow> map_option (\<lambda>_. on_started P a) (future_get (m_handshake s))
      | After_Join \<Rightarrow> map_option (\<lambda>v. on_joined P v a) (future_get (m_session_join s))
      | After_Call f \<Rightarrow> map_option (\<lambda>v. on_called P v a)
          (Option.bind (heap_calls s f) (\<lambda>c. future_get (call_promise c)))
      | After_Leave \<Rightarrow> map_option (\<lambda>v. on_left P v a) (future_get (m_session_leave s))
      | After_Stop \<Rightarrow> map_option (\<lambda>_. on_stopped P a) (future_get (m_session_stop s)))"

text \<open>The continuations a program does not have.\<close>

definition no_continuation :: "(app, unit) action" where
  "no_continuation = ret ()"

section \<open>Caller\<close>

definition caller_connected :: "io_error option \<Rightarrow> (app, unit) action" where
  "caller_connected ec =
     (case ec of
        None \<Rightarrow> and_then (on_app start) (attach After_Start)
      | Some _ \<Rightarrow> io_stop)"

definition caller_started :: "msgpack \<Rightarrow> (app, unit) action" where
  "caller_started mp =
     with_state (\<lambda>a. and_then (on_app (join mp False (m_params_realm (app_params a)))) (attach After_Join))"

definition caller_joined :: "msgpack \<Rightarrow> u64 result \<Rightarrow> (app, unit) action" where
  "caller_joined mp s =
     bind_act (lift_result s) (\<lambda>_.
       bind_act (on_app (call_args mp False ''com.examples.calculator.add''
           [POSITIVE_INTEGER 23, POSITIVE_INTEGER 777]))
         (\<lambda>f. attach (After_Call f)))"

definition caller_called :: "msgpack \<Rightarrow> wamp_call_result result \<Rightarrow> (app, unit) action" where
  "caller_called mp result =
     bind_act (lift_result result) (\<lambda>res.
       bind_act (lift_result (call_result_argument (as_uint64 mp) res 0)) (\<lambda>sum.
         and_then (update (\<lambda>a. a\<lparr>app_printed := app_printed a @ [sum]\<rparr>))
           (and_then (on_app (leave mp False ''wamp.error.close_realm'')) (attach After_Leave))))"

definition caller_left :: "msgpack \<Rightarrow> string result \<Rightarrow> (app, unit) action" where
  "caller_left mp reason =
     bind_act (lift_result reason) (\<lambda>_. and_then (on_app (stop mp False)) (attach After_Stop))"

definition caller_stopped :: "(app, unit) action" where
  "caller_stopped = io_stop"

definition caller :: "msgpack \<Rightarrow> program" where
  "caller mp =
     \<lparr>on_connect = caller_connected, on_started = caller_started mp, on_joined = caller_joined mp,
      on_called = caller_called mp, on_left = caller_left mp, on_stopped = caller_stopped,
      callbacks = silent_user\<rparr>"

definition caller_main :: "msgpack \<Rightarrow> ip_library \<Rightarrow> ostream \<Rightarrow> command_line \<Rightarrow> program \<times> app main_outcome" where
  "caller_main mp lib os cl = (caller mp, example_main lib os cl)"

section \<open>Publisher\<close>

definition publisher_connected :: "io_error option \<Rightarrow> (app, unit) action" where
  "publisher_connected ec =
     (case ec of
        None \<Rightarrow> and_then (on_app start) (attach After_Start)
      | Some _ \<Rightarrow> io_stop)"

definition publisher_started :: "msgpack \<Rightarrow> (app, unit) action" where
  "publisher_started mp =
     with_state (\<lambda>a. and_then (on_app (join mp False (m_params_realm (app_params a)))) (attach After_Join))"

definition publisher_joined :: "msgpack \<Rightarrow> u64 result \<Rightarrow> (app, unit) action" where
  "publisher_joined mp joined =
     bind_act (lift_result joined) (\<lambda>_.
       and_then (on_app (publish_args mp False ''com.examples.subscriptions.topic1'' [STR_OBJ ''hello'']))
         (and_then (on_app (leave mp False ''wamp.error.close_realm'')) (attach After_Leave)))"

definition publisher_left :: "msgpack \<Rightarrow> string result \<Rightarrow> (app, unit) action" where
  "publisher_left mp reason =
     bind_act (lift_result reason) (\<lambda>_. and_then (on_app (stop mp False)) (attach After_Stop))"

definition publisher_stopped :: "(app, unit) action" where
  "publisher_stopped = io_stop"

definition publisher :: "msgpack \<Rightarrow> program" where
  "publisher mp =
     \<lparr>on_connect = publisher_connected, on_started = publisher_started mp,
      on_joined = publisher_joined mp, on_called = \<lambda>_. no_continuation, on_left = publisher_left mp,
      on_stopped = publisher_stopped, callbacks = silent_user\<rparr>"

definition publisher_main :: "msgpack \<Rightarrow> ip_library \<Rightarrow> ostream \<Rightarrow> command_line \<Rightarrow> program \<times> app main_outcome" where
  "publisher_main mp lib os cl = (publisher mp, example_main lib os cl)"

section \<open>Callee\<close>

text \<open>A callback that goes on with a value, or lets an exception out; accessors are never undefined.\<close>

fun prog_of :: "'a result \<Rightarrow> ('a \<Rightarrow> prog) \<Rightarrow> prog" where
  "prog_of (Ok v) f = f v"
| "prog_of (Throw e) f = Raise e"
| "prog_of Undefined_Behaviour f = Done"

definition ADD :: procedure where
  "ADD = 0"

definition add :: "msgpack \<Rightarrow> nat \<Rightarrow> wamp_invocation \<Rightarrow> prog" where
  "add mp p invocation =
     prog_of (invocation_argument (as_uint64 mp) invocation 0) (\<lambda>a.
       prog_of (invocation_argument (as_uint64 mp) invocation 1) (\<lambda>b.
         Reply_Then p (Result_Args [POSITIVE_INTEGER (a + b)]) (\<lambda>r. prog_of r (\<lambda>_. Done))))"

definition callee_connected :: "io_error option \<Rightarrow> (app, unit) action" where
  "callee_connected ec =
     (case ec of
        None \<Rightarrow> and_then (on_app start) (attach After_Start)
      | Some _ \<Rightarrow> ret ())"

definition callee_started :: "msgpack \<Rightarrow> (app, unit) action" where
  "callee_started mp =
     with_state (\<lambda>a. and_then (on_app (join mp False (m_params_realm (app_params a)))) (attach After_Join))"

definition callee_joined :: "msgpack \<Rightarrow> u64 result \<Rightarrow> (app, unit) action" where
  "callee_joined mp s =
     bind_act (lift_result s) (\<lambda>_.
       bind_act (on_app (provide mp False ''com.examples.calculator.add'' ADD [])) (\<lambda>_. ret ()))"

definition callee :: "msgpack \<Rightarrow> program" where
  "callee mp =
     \<lparr>on_connect = callee_connected, on_started = callee_started mp, on_joined = callee_joined mp,
      on_called = \<lambda>_. no_continuation, on_left = \<lambda>_. no_continuation, on_stopped = no_continuation,
      callbacks = \<lparr>on_event = \<lambda>_ _. Done,
        on_invoke = \<lambda>f p invocation. if f = ADD then add mp p invocation else Done\<rparr>\<rparr>"

definition callee_main :: "msgpack \<Rightarrow> ip_library \<Rightarrow> ostream \<Rightarrow> command_line \<Rightarrow> program \<times> app main_outcome" where
  "callee_main mp lib os cl = (callee mp, example_main lib os cl)"

section \<open>Subscriber\<close>

definition TOPIC1 :: event_handler where
  "TOPIC1 = 0"

definition topic1 :: "msgpack \<Rightarrow> wamp_event \<Rightarrow> prog" where
  "topic1 mp ev = prog_of (event_argument (as_uint64 mp) ev 0) (\<lambda>_. Done)"

definition subscriber_connected :: "io_error option \<Rightarrow> (app, unit) action" where
  "subscriber_connected ec =
     (case ec of
        None \<Rightarrow> and_then (on_app start) (attach After_Start)
      | Some _ \<Rightarrow> io_stop)"

definition subscriber_started :: "msgpack \<Rightarrow> (app, unit) action" where
  "subscriber_started mp =
     with_state (\<lambda>a. and_then (on_app (join mp False (m_params_realm (app_params a)))) (attach After_Join))"

definition subscriber_joined :: "msgpack \<Rightarrow> u64 result \<Rightarrow> (app, unit) action" where
  "subscriber_joined mp s =
     bind_act (lift_result s) (\<lambda>_.
       bind_act (on_app (subscribe mp False ''com.examples.subscriptions.topic1'' TOPIC1)) (\<lambda>_. ret ()))"

definition subscriber :: "msgpack \<Rightarrow> program" where
  "subscriber mp =
     \<lparr>on_connect = subscriber_connected, on_started = subscriber_started mp,
      on_joined = subscriber_joined mp, on_called = \<lambda>_. no_continuation,
      on_left = \<lambda>_. no_continuation, on_stopped = no_continuation,
      callbacks = \<lparr>on_event = \<lambda>h ev. if h = TOPIC1 then topic1 mp ev else Done,
        on_invoke = \<lambda>_ _ _. Done\<rparr>\<rparr>"

definition subscriber_main :: "msgpack \<Rightarrow> ip_library \<Rightarrow> ostream \<Rightarrow> command_line \<Rightarrow> program \<times> app main_outcome" where
  "subscriber_main mp lib os cl = (subscriber mp, example_main lib os cl)"

section \<open>Execution\<close>

text \<open>
  An exception that leaves a handler leaves \<open>io.run()\<close>, and \<open>main\<close> returns 1; one that leaves a
  continuation stays in a future nobody looks at.  \<open>io.run()\<close> also returns when nothing is left to do.
\<close>

definition io_result :: "unit result \<Rightarrow> app \<Rightarrow> app" where
  "io_result r a = (case r of Throw _ \<Rightarrow> a\<lparr>app_main := Returning 1\<rparr> | _ \<Rightarrow> a)"

inductive app_step :: "msgpack \<Rightarrow> program \<Rightarrow> app \<Rightarrow> app \<Rightarrow> bool"
  for mp :: msgpack and P :: program where
  app_connect: "app_main a = Io_Running \<Longrightarrow> app_connecting a \<Longrightarrow>
    on_connect P ec (a\<lparr>app_connecting := False\<rparr>) = (r, a') \<Longrightarrow> app_step mp P a (io_result r a')"
| app_task: "app_main a = Io_Running \<Longrightarrow> io_queue (app_session a) \<noteq> [] \<Longrightarrow>
    run_next_task mp (app_session a) = (r, s') \<Longrightarrow> r \<noteq> Undefined_Behaviour \<Longrightarrow>
    app_step mp P a (io_result r (a\<lparr>app_session := s'\<rparr>))"
| app_read: "app_main a = Io_Running \<Longrightarrow> pending_reads (app_session a) = op # ops \<Longrightarrow>
    read_fits (app_session a) op outcome \<Longrightarrow>
    complete_read mp (callbacks P) outcome (app_session a) = (r, s') \<Longrightarrow> r \<noteq> Undefined_Behaviour \<Longrightarrow>
    app_step mp P a (io_result r (a\<lparr>app_session := s'\<rparr>))"
| app_idle: "app_main a = Io_Running \<Longrightarrow> \<not> app_connecting a \<Longrightarrow> io_queue (app_session a) = [] \<Longrightarrow>
    pending_reads (app_session a) = [] \<Longrightarrow> app_step mp P a (a\<lparr>app_main := Returning 0\<rparr>)"
| app_continue: "k \<in> set (app_waiting a) \<Longrightarrow>
    continue P k (a\<lparr>app_waiting := remove1 k (app_waiting a)\<rparr>) = Some (r, a') \<Longrightarrow> app_step mp P a a'"
| app_return: "app_main a = Returning n \<Longrightarrow> app_waiting a = [] \<Longrightarrow>
    app_step mp P a (a\<lparr>app_main := Returned n\<rparr>)"

definition app_init :: "app \<Rightarrow> bool" where
  "app_init a \<longleftrightarrow> (\<exists>f params. a = app_setup \<lparr>written = [], fail_after = f\<rparr> params)"

lemma example_main_init:
  "example_main lib \<lparr>written = [], fail_after = f\<rparr> cl = Running a \<Longrightarrow> app_init a"
  by (auto simp: example_main_def app_init_def split: result.splits main_outcome.splits)

definition app_reachable :: "msgpack \<Rightarrow> program \<Rightarrow> app \<Rightarrow> bool" where
  "app_reachable mp P a \<longleftrightarrow> reach app_init (app_step mp P) a"

end
