(* ===== verification/Example_Behaviour.thy ===== *)
theory Example_Behaviour
  imports Example_Programs
begin

text \<open>
  The example programs as transition systems: the contract of a program's continuations as a locale,
  what follows from it for every execution, its instances, and what the programs do.
\<close>

section \<open>The session of a running program\<close>

text \<open>
  The session stays alive on the io thread.  It is started once, so at most one read is outstanding.
\<close>

lemma read_side_live: "read_side s' = read_side s \<Longrightarrow> alive s' = alive s \<and> pending_reads s' = pending_reads s"
  by (simp add: read_side_def)

interpretation living: field_invariant mp alive for mp
  by unfold_locales
    (simp_all add: send_keeps keeps_def leave_task_def,
     simp_all add: stop_task_def on_promise_defs action_defs alloc_invocation_def split: prod.splits)

interpretation living: io_invariant mp alive for mp
proof unfold_locales
  show "keeps alive (run_next_task mp)"
    by (rule keepsI) (simp add: read_side_live [OF read_side_next_task])
  show "alive (snd (start s))" if "alive s" for s
    using that by (simp add: start_def action_defs on_out_def on_handshake_def get_future_def
        split: prod.splits result.splits)
  show "keeps alive (on_leave (set_value reason))" for reason
    by (simp add: keeps_def on_leave_def split: prod.splits)
qed (simp_all add: keeps_on_handshake)

definition live :: "msgpack \<Rightarrow> user \<Rightarrow> session \<Rightarrow> bool" where
  "live mp u s \<longleftrightarrow> reachable mp u s \<and> alive s \<and> length (pending_reads s) \<le> 1"

lemma live_step:
  "live mp u s \<Longrightarrow> session_step mp u s s' \<Longrightarrow> alive s' \<Longrightarrow> length (pending_reads s') \<le> 1 \<Longrightarrow> live mp u s'"
  unfolding live_def by (blast intro: reachable_step)

lemma live_task:
  assumes "live mp u s" and "io_queue s \<noteq> []" and "run_next_task mp s = (r, s')"
    and "r \<noteq> Undefined_Behaviour"
  shows "live mp u s'"
proof -
  have "alive s' = alive s \<and> pending_reads s' = pending_reads s"
    using read_side_live [OF read_side_next_task, of mp s] assms(3) by simp
  with assms(1) show ?thesis
    by (intro live_step [OF assms(1) step_task [OF assms(2-4)]]) (simp_all add: live_def)
qed

text \<open>Of one outstanding read at most one is left, and none when its handler throws.\<close>

lemma read_again:
  assumes "complete_read mp u outcome s = (r, s')" and "length (pending_reads s) \<le> 1"
  shows "length (pending_reads s') \<le> 1" and "r \<noteq> Ok () \<Longrightarrow> pending_reads s' = []"
proof -
  have "length (pending_reads s') \<le> 1 \<and> (r \<noteq> Ok () \<longrightarrow> pending_reads s' = [])"
  proof (cases "pending_reads s")
    case (Cons op ops)
    then show ?thesis
      using assms on_read_arms [of op "s\<lparr>pending_reads := ops\<rparr>" mp u outcome]
      by (auto simp: complete_read_def arms_def)
  qed (use assms in \<open>simp add: complete_read_def\<close>)
  then show "length (pending_reads s') \<le> 1" "r \<noteq> Ok () \<Longrightarrow> pending_reads s' = []" by simp_all
qed

lemma live_read:
  assumes "live mp u s" and "pending_reads s = op # ops" and "read_fits s op outcome"
    and "complete_read mp u outcome s = (r, s')" and "r \<noteq> Undefined_Behaviour"
  shows "live mp u s'"
proof (rule live_step [OF assms(1)])
  show "session_step mp u s s'"
    using assms by (intro step_first_read [OF _ assms(2-5)]) (simp add: live_def)
  show "alive s'"
    using keepsD_eq [OF living.reading.complete_read_P _ assms(4)] assms(1) by (simp add: live_def)
  show "length (pending_reads s') \<le> 1" using read_again(1) [OF assms(4)] assms(1) by (simp add: live_def)
qed

lemma live_start:
  assumes "live mp u s" and "\<not> future_retrieved (m_handshake s)"
  shows "live mp u (snd (start s))"
proof (rule live_step [OF assms(1)])
  show "session_step mp u s (snd (start s))"
    using assms(1) by (intro step_start [OF _ surjective_pairing]) (simp add: live_def)
  show "alive (snd (start s))" using assms(1) living.start_P [of s] by (simp add: live_def)
  have "pending_reads s = []" using assms reachable_reads_ok by (auto simp: live_def reads_ok_def)
  then show "length (pending_reads (snd (start s))) \<le> 1"
    using start_arming [of s] by (auto simp: arming_def)
qed

lemma live_api:
  assumes "live mp u s"
  shows "live mp u (snd (run_api mp False c s))"
proof (rule live_step [OF assms])
  have "fst (run_api mp False c s) \<noteq> Undefined_Behaviour"
    by (cases c) (simp_all add: no_value_def future_of_def io_dispatch_def request_defs publish_defs
      stop_def join_def leave_def unsubscribe_def next_request_id_def alloc_defs on_promise_defs
      action_defs get_future_def split: prod.splits)
  then show "session_step mp u s (snd (run_api mp False c s))"
    using assms by (intro step_api [OF _ surjective_pairing]) (simp_all add: live_def)
  have "read_side (snd (run_api mp False c s)) = read_side s"
    by (rule keepsD [OF reads.run_api_P]) (rule refl)
  from read_side_live [OF this] assms
  show "alive (snd (run_api mp False c s))" "length (pending_reads (snd (run_api mp False c s))) \<le> 1"
    by (simp_all add: live_def)
qed

section \<open>The contract of a program\<close>

text \<open>
  Every stage of a program uses the session by its operations and attaches at most one continuation,
  that of a later stage; only the answer of the call prints, and prints once.  A program is correct
  in this sense when all its stages are.
\<close>

fun rank :: "continuation \<Rightarrow> nat" where
  "rank After_Start = 1"
| "rank After_Join = 2"
| "rank (After_Call f) = 3"
| "rank After_Leave = 4"
| "rank After_Stop = 5"

lemma rank_bounds: "0 < rank k" "rank k \<le> 5"
  by (cases k; simp)+

definition in_stage :: "msgpack \<Rightarrow> user \<Rightarrow> nat \<Rightarrow> app \<Rightarrow> bool" where
  "in_stage mp u n a \<longleftrightarrow> live mp u (app_session a) \<and> \<not> app_connecting a \<and>
     (app_waiting a = [] \<or> (\<exists>k. app_waiting a = [k] \<and> n < rank k)) \<and> (\<forall>v. app_main a \<noteq> Returned v)"

text \<open>Between two stages no continuation waits.\<close>

lemma idle_iff: "in_stage mp u 5 a \<longleftrightarrow> live mp u (app_session a) \<and> \<not> app_connecting a \<and>
    app_waiting a = [] \<and> (\<forall>v. app_main a \<noteq> Returned v)"
  using rank_bounds(2) by (auto simp: in_stage_def not_less [symmetric])

definition prints :: "nat \<Rightarrow> (app, 'a) action \<Rightarrow> bool" where
  "prints n m \<longleftrightarrow> (\<forall>a. length (app_printed (snd (m a))) \<le> length (app_printed a) + n)"

definition stage :: "msgpack \<Rightarrow> user \<Rightarrow> nat \<Rightarrow> (app, 'a) action \<Rightarrow> bool" where
  "stage mp u n m \<longleftrightarrow> leads (in_stage mp u 5) (in_stage mp u n) m \<and> prints (of_bool (n = 3)) m"

text \<open>How far a program has come: connecting, the rank of the continuation it waits for, or past all.\<close>

definition stage_of :: "app \<Rightarrow> nat" where
  "stage_of a = (if app_connecting a then 0 else case app_waiting a of [] \<Rightarrow> 6 | k # ks \<Rightarrow> rank k)"

text \<open>Whether the future a continuation is attached to is ready.\<close>

fun ready :: "continuation \<Rightarrow> session \<Rightarrow> bool" where
  "ready After_Start s = satisfied (m_handshake s)"
| "ready After_Join s = satisfied (m_session_join s)"
| "ready (After_Call f) s = (case heap_calls s f of None \<Rightarrow> False | Some c \<Rightarrow> satisfied (call_promise c))"
| "ready After_Leave s = satisfied (m_session_leave s)"
| "ready After_Stop s = satisfied (m_session_stop s)"

lemma future_get_None: "future_get p = None \<longleftrightarrow> \<not> satisfied p"
  by (simp add: future_get_def satisfied_def split: promise_state.splits)

lemma continue_None: "continue P k a = None \<longleftrightarrow> \<not> ready k (app_session a)"
  by (cases k) (simp_all add: continue_def Let_def future_get_None split: option.splits)

locale example_program =
  fixes mp :: msgpack and P :: program
  assumes connect_stage: "in_stage mp (callbacks P) 5 a \<Longrightarrow> \<not> future_retrieved (m_handshake (app_session a))
      \<Longrightarrow> in_stage mp (callbacks P) 0 (snd (on_connect P ec a))"
    and connect_silent: "prints 0 (on_connect P ec)"
    and started_stage: "stage mp (callbacks P) 1 (on_started P)"
    and joined_stage: "stage mp (callbacks P) 2 (on_joined P i)"
    and called_stage: "stage mp (callbacks P) 3 (on_called P res)"
    and left_stage: "stage mp (callbacks P) 4 (on_left P reason)"
    and stopped_stage: "stage mp (callbacks P) 5 (on_stopped P)"
begin

definition app_ok :: "app \<Rightarrow> bool" where
  "app_ok a \<longleftrightarrow> live mp (callbacks P) (app_session a) \<and> length (app_waiting a) \<le> 1 \<and>
     (\<forall>n. app_main a = Returned n \<longrightarrow> app_waiting a = []) \<and>
     length (app_printed a) \<le> of_bool (3 < stage_of a) \<and>
     (app_connecting a \<longrightarrow> app_waiting a = [] \<and> app_main a = Io_Running \<and> pending_reads (app_session a) = [] \<and>
        io_queue (app_session a) = [] \<and> \<not> future_retrieved (m_handshake (app_session a)))"

lemma stage_ok:
  "in_stage mp (callbacks P) n a \<Longrightarrow> length (app_printed a) \<le> of_bool (3 < stage_of a) \<Longrightarrow> app_ok a"
  by (auto simp: in_stage_def app_ok_def)

lemma stage_reached: "in_stage mp u n a \<Longrightarrow> n \<le> 5 \<Longrightarrow> n < stage_of a"
  by (auto simp: in_stage_def stage_of_def)

lemma io_result_ok: "app_ok a \<Longrightarrow> app_main a = Io_Running \<Longrightarrow> \<not> app_connecting a \<Longrightarrow> app_ok (io_result r a)"
  by (cases r) (simp_all add: io_result_def app_ok_def stage_of_def)

lemma continue_stage:
  assumes "in_stage mp (callbacks P) 5 a" and "continue P k a = Some (r, a')"
  shows "in_stage mp (callbacks P) (rank k) a' \<and>
    length (app_printed a') \<le> length (app_printed a) + of_bool (rank k = 3)"
proof -
  note stages = started_stage joined_stage called_stage left_stage stopped_stage
  have "m a = (r, a') \<Longrightarrow> in_stage mp (callbacks P) n a' \<and>
      length (app_printed a') \<le> length (app_printed a) + of_bool (n = 3)" if "stage mp (callbacks P) n m"
    for m :: "(app, unit) action" and n
    using that assms(1) unfolding stage_def leads_def prints_def by (metis snd_conv)
  then show ?thesis
    using assms(2) stages by (cases k) (force simp: continue_def Let_def)+
qed

lemma continue_ok:
  assumes "app_ok a" and "k \<in> set (app_waiting a)"
    and "continue P k (a\<lparr>app_waiting := remove1 k (app_waiting a)\<rparr>) = Some (r, a')"
  shows "app_ok a'" and "stage_of a < stage_of a'"
proof -
  have waiting: "app_waiting a = [k]" using assms(1,2) by (cases "app_waiting a") (auto simp: app_ok_def)
  with assms(1) have "in_stage mp (callbacks P) 5 (a\<lparr>app_waiting := remove1 k (app_waiting a)\<rparr>)"
    by (auto simp: idle_iff app_ok_def)
  from continue_stage [OF this assms(3)]
  have after: "in_stage mp (callbacks P) (rank k) a'"
    and printed: "length (app_printed a') \<le> length (app_printed a) + of_bool (rank k = 3)" by simp_all
  have "stage_of a = rank k" using assms(1) waiting by (auto simp: app_ok_def stage_of_def)
  then show later: "stage_of a < stage_of a'"
    using stage_reached [OF after rank_bounds(2)] by simp
  have "length (app_printed a) \<le> of_bool (3 < rank k)"
    using assms(1) \<open>stage_of a = rank k\<close> by (simp add: app_ok_def)
  then have "length (app_printed a') \<le> of_bool (3 < stage_of a')"
    using printed later \<open>stage_of a = rank k\<close> by (cases "rank k = 3"; cases "3 < rank k") auto
  then show "app_ok a'" by (rule stage_ok [OF after])
qed

lemma connect_ok:
  assumes "app_ok a" and "app_connecting a" and "on_connect P ec (a\<lparr>app_connecting := False\<rparr>) = (r, a')"
  shows "app_ok (io_result r a')" and "stage_of (io_result r a') \<noteq> 0"
proof -
  have "in_stage mp (callbacks P) 5 (a\<lparr>app_connecting := False\<rparr>)"
    using assms(1,2) by (auto simp: idle_iff app_ok_def)
  then have after: "in_stage mp (callbacks P) 0 a'"
    using connect_stage [of "a\<lparr>app_connecting := False\<rparr>" ec] assms by (simp add: app_ok_def)
  then have "in_stage mp (callbacks P) 0 (io_result r a')"
    by (cases r) (simp_all add: io_result_def in_stage_def)
  moreover have "length (app_printed a') \<le> length (app_printed a)"
    using connect_silent [of ec, unfolded prints_def, rule_format, of "a\<lparr>app_connecting := False\<rparr>"] assms(3)
    by simp
  then have "app_printed (io_result r a') = []"
    using assms(1,2) by (cases r) (simp_all add: io_result_def app_ok_def stage_of_def)
  ultimately show "app_ok (io_result r a')" "stage_of (io_result r a') \<noteq> 0"
    using stage_reached [of "callbacks P" 0 "io_result r a'"] by (auto intro: stage_ok)
qed

text \<open>A session that has been started is no longer connecting.\<close>

lemma io_ok:
  assumes "app_ok a" and "app_main a = Io_Running" and "io_queue (app_session a) \<noteq> [] \<or> pending_reads (app_session a) \<noteq> []"
    and "live mp (callbacks P) s'"
  shows "app_ok (io_result r (a\<lparr>app_session := s'\<rparr>))"
    and "stage_of (io_result r (a\<lparr>app_session := s'\<rparr>)) = stage_of a"
    and "app_waiting (io_result r (a\<lparr>app_session := s'\<rparr>)) = app_waiting a"
proof -
  have "\<not> app_connecting a" using assms(1,3) by (auto simp: app_ok_def)
  moreover have "stage_of (a\<lparr>app_session := s'\<rparr>) = stage_of a" by (simp add: stage_of_def)
  ultimately show "app_ok (io_result r (a\<lparr>app_session := s'\<rparr>))"
    using assms by (intro io_result_ok) (simp_all add: app_ok_def)
  show "stage_of (io_result r (a\<lparr>app_session := s'\<rparr>)) = stage_of a"
    by (cases r) (simp_all add: io_result_def stage_of_def)
  show "app_waiting (io_result r (a\<lparr>app_session := s'\<rparr>)) = app_waiting a"
    by (cases r) (simp_all add: io_result_def)
qed

text \<open>No step goes back; one that runs a continuation moves to a later stage.\<close>

lemma app_step_ok:
  "app_step mp P a a' \<Longrightarrow> app_ok a \<Longrightarrow>
    app_ok a' \<and> stage_of a \<le> stage_of a' \<and> (app_waiting a' \<noteq> app_waiting a \<longrightarrow> stage_of a < stage_of a')"
proof (induction rule: app_step.induct)
  case (app_connect a ec r a')
  then show ?case using connect_ok [of a ec r a'] by (auto simp: stage_of_def)
next
  case (app_task a r s')
  then have "live mp (callbacks P) s'" using live_task by (auto simp: app_ok_def)
  then show ?case using app_task io_ok by simp
next
  case (app_read a op ops outcome r s')
  then have "live mp (callbacks P) s'" using live_read by (auto simp: app_ok_def)
  then show ?case using app_read io_ok by simp
next
  case (app_idle a)
  then show ?case by (simp add: app_ok_def stage_of_def)
next
  case (app_continue k a r a')
  then show ?case using continue_ok by (simp add: less_imp_le)
next
  case (app_return a n)
  then show ?case by (auto simp: app_ok_def stage_of_def)
qed

lemmas app_ok_step = app_step_ok [THEN conjunct1]

lemma reachable_app_ok: "app_reachable mp P a \<Longrightarrow> app_ok a"
  unfolding app_reachable_def
proof (erule reach_invariant)
  fix a assume "app_init a"
  then show "app_ok a"
    by (auto simp: app_init_def app_setup_def app_ok_def live_def reachable_def session_init_def
        new_session_def new_promise_def intro!: reach_init)
qed (rule app_ok_step)

text \<open>A program whose main thread waits for a continuation that cannot run is stuck.\<close>

lemma stuck:
  assumes "app_ok a" and "app_main a = Returning n" and "app_waiting a = [k]"
    and "\<not> ready k (app_session a)"
  shows "\<not> app_step mp P a a'"
proof
  assume "app_step mp P a a'"
  then show False
  proof cases
    case (app_continue l r)
    then show False using assms continue_None [of P k "a\<lparr>app_waiting := []\<rparr>"] by simp
  qed (use assms in simp_all)
qed

end

section \<open>The four programs\<close>

named_theorems stage_intros "introduction rules for stages"

abbreviation moves :: "msgpack \<Rightarrow> user \<Rightarrow> nat \<Rightarrow> (app, 'a) action \<Rightarrow> bool" where
  "moves mp u n \<equiv> leads (in_stage mp u 5) (in_stage mp u n)"

lemma idle_in_stage: "in_stage mp u 5 a \<Longrightarrow> in_stage mp u n a"
  unfolding idle_iff by (simp add: in_stage_def)

lemma moves_bind [stage_intros]:
  assumes "keeps (in_stage mp u 5) m" and "\<And>v. moves mp u n (f v)"
  shows "moves mp u n (bind_act m f)"
proof -
  have "in_stage mp u n (snd (bind_act m f a))" if "in_stage mp u 5 a" for a
  proof -
    obtain r a' where m: "m a = (r, a')" by fastforce
    then have "in_stage mp u 5 a'" by (rule keepsD_eq [OF assms(1) that])
    then show ?thesis
      using m assms(2) by (cases r) (auto simp: bind_act_def leads_def intro: idle_in_stage)
  qed
  then show ?thesis by (simp add: leads_def)
qed

lemma moves_and_then [stage_intros]:
  "keeps (in_stage mp u 5) m \<Longrightarrow> moves mp u n f \<Longrightarrow> moves mp u n (and_then m f)"
  unfolding and_then_def by (rule moves_bind)

lemma moves_with_state [stage_intros]: "(\<And>a. moves mp u n (f a)) \<Longrightarrow> moves mp u n (with_state f)"
  by (rule leads_with_state)

lemma moves_attach [stage_intros]: "n < rank k \<Longrightarrow> moves mp u n (attach k)"
  by (simp add: leads_def attach_def update_def in_stage_def [where n = n] idle_iff)

lemma moves_basic [stage_intros]: "moves mp u n io_stop" "moves mp u n (ret v)"
  by (simp_all add: leads_def io_stop_def update_def ret_def in_stage_def [where n = n] idle_iff)

lemma prints_bind [stage_intros]:
  assumes "prints 0 m" and "\<And>v. prints n (f v)"
  shows "prints n (bind_act m f)"
proof -
  have "length (app_printed (snd (bind_act m f a))) \<le> length (app_printed a) + n" for a
  proof -
    obtain r a' where m: "m a = (r, a')" by fastforce
    then have "length (app_printed a') \<le> length (app_printed a)"
      using assms(1) unfolding prints_def by (metis add_0_right snd_conv)
    moreover have "length (app_printed (snd (f v a'))) \<le> length (app_printed a') + n" for v
      using assms(2) by (simp add: prints_def)
    ultimately show ?thesis
      using m by (cases r) (auto simp: bind_act_def intro: order_trans [OF _ add_right_mono])
  qed
  then show ?thesis by (simp add: prints_def)
qed

lemma prints_and_then [stage_intros]: "prints 0 m \<Longrightarrow> prints n f \<Longrightarrow> prints n (and_then m f)"
  unfolding and_then_def by (rule prints_bind)

lemma prints_with_state [stage_intros]: "(\<And>a. prints n (f a)) \<Longrightarrow> prints n (with_state f)"
  by (simp add: prints_def with_state_def)

lemma prints_basic [stage_intros]:
  "prints n (attach k)" "prints n io_stop" "prints n (ret v)" "prints n (lift_result r)"
  by (simp_all add: prints_def attach_def io_stop_def update_def ret_def lift_result_def)

lemma prints_on_app [stage_intros]: "prints n (on_app f)"
  by (simp add: prints_def on_app_def split: prod.split)

lemma prints_value [stage_intros]:
  assumes "prints 0 m"
  shows "prints (Suc 0) (and_then (update (\<lambda>a. a\<lparr>app_printed := app_printed a @ [v]\<rparr>)) m)"
proof -
  have "length (app_printed (snd (m (a\<lparr>app_printed := app_printed a @ [v]\<rparr>)))) \<le> Suc (length (app_printed a))" for a
    using assms [unfolded prints_def, rule_format, of "a\<lparr>app_printed := app_printed a @ [v]\<rparr>"] by simp
  then show ?thesis by (simp add: prints_def and_then_def bind_act_def update_def)
qed

text \<open>The operations the continuations call, all from a thread other than the io thread.\<close>

lemma live_operations:
  assumes "live mp u s"
  shows "live mp u (snd (join mp False realm s))" "live mp u (snd (leave mp False reason s))"
    "live mp u (snd (stop mp False s))" "live mp u (snd (call_args mp False f a s))"
    "live mp u (snd (publish_args mp False f a s))" "live mp u (snd (subscribe mp False f h s))"
    "live mp u (snd (provide mp False f h options s))"
  using live_api [OF assms, of "Api_Join realm"] live_api [OF assms, of "Api_Leave reason"]
    live_api [OF assms, of Api_Stop] live_api [OF assms, of "Api_Call_Args f a"]
    live_api [OF assms, of "Api_Publish_Args f a"] live_api [OF assms, of "Api_Subscribe f h"]
    live_api [OF assms, of "Api_Provide f h options"]
  by (simp_all add: no_value_def and_then_ret_state future_of_state)

lemma on_app_keeps [stage_intros]:
  assumes "\<And>s. live mp u s \<Longrightarrow> live mp u (snd (f s))"
  shows "keeps (in_stage mp u n) (on_app f)"
  using assms by (simp add: keeps_def on_app_def in_stage_def split: prod.split) (metis snd_conv)

lemma print_keeps [stage_intros]:
  "keeps (in_stage mp u n) (update (\<lambda>a. a\<lparr>app_printed := app_printed a @ [v]\<rparr>))"
  by (simp add: keeps_def update_def in_stage_def)

lemma connected_stage:
  assumes "in_stage mp u 5 a" and "\<not> future_retrieved (m_handshake (app_session a))"
  shows "in_stage mp u 0 (snd (and_then (on_app start) (attach After_Start) a))"
proof -
  obtain r s' where st: "start (app_session a) = (r, s')" by fastforce
  then have "live mp u s'" using assms live_start [of mp u "app_session a"] by (simp add: idle_iff)
  with assms(1) st show ?thesis
    by (cases r) (simp_all add: on_app_def attach_def action_defs in_stage_def [where n = 0] idle_iff)
qed

lemma stopped_in_stage: "in_stage mp u 5 a \<Longrightarrow> in_stage mp u n (snd (io_stop a))"
  using moves_basic(1) by (simp add: leads_def)

lemmas caller_defs =
  caller_def caller_connected_def caller_started_def caller_joined_def caller_called_def
  caller_left_def caller_stopped_def no_continuation_def

lemmas publisher_defs =
  publisher_def publisher_connected_def publisher_started_def publisher_joined_def
  publisher_left_def publisher_stopped_def no_continuation_def

lemmas callee_defs =
  callee_def callee_connected_def callee_started_def callee_joined_def no_continuation_def

lemmas subscriber_defs =
  subscriber_def subscriber_connected_def subscriber_started_def subscriber_joined_def
  no_continuation_def

interpretation caller: example_program mp "caller mp" for mp
  by unfold_locales
    (auto simp: caller_defs stage_def connected_stage stopped_in_stage idle_in_stage live_operations ret_def
      intro!: stage_intros keeps_lift_result split: option.split)

interpretation publisher: example_program mp "publisher mp" for mp
  by unfold_locales
    (auto simp: publisher_defs stage_def connected_stage stopped_in_stage idle_in_stage live_operations ret_def
      intro!: stage_intros keeps_lift_result split: option.split)

interpretation callee: example_program mp "callee mp" for mp
  by unfold_locales
    (auto simp: callee_defs stage_def connected_stage stopped_in_stage idle_in_stage live_operations ret_def
      intro!: stage_intros keeps_lift_result split: option.split)

interpretation subscriber: example_program mp "subscriber mp" for mp
  by unfold_locales
    (auto simp: subscriber_defs stage_def connected_stage stopped_in_stage idle_in_stage live_operations ret_def
      intro!: stage_intros keeps_lift_result split: option.split)

end
