(* ===== verification/Example_Results.thy ===== *)
theory Example_Results
  imports Example_Behaviour
begin

text \<open>
  What the example programs do: their execution as a whole, the sum the callee computes, the
  publisher's event at the subscriber, and how a program ends.
\<close>

section \<open>Runs\<close>

datatype app_move =
    Do_Connection "io_error option"
  | Do_App_Task
  | Do_App_Read read_outcome
  | Do_Idle
  | Do_Continue
  | Do_Return

fun do_app :: "msgpack \<Rightarrow> program \<Rightarrow> app_move \<Rightarrow> app \<Rightarrow> app option" where
  "do_app mp P (Do_Connection ec) a =
     (if app_main a = Io_Running \<and> app_connecting a
      then (case on_connect P ec (a\<lparr>app_connecting := False\<rparr>) of (r, a') \<Rightarrow> Some (io_result r a')) else None)"
| "do_app mp P Do_App_Task a =
     (if app_main a = Io_Running \<and> io_queue (app_session a) \<noteq> []
      then (case run_next_task mp (app_session a) of
              (Undefined_Behaviour, s') \<Rightarrow> None
            | (r, s') \<Rightarrow> Some (io_result r (a\<lparr>app_session := s'\<rparr>))) else None)"
| "do_app mp P (Do_App_Read outcome) a =
     (case pending_reads (app_session a) of
        [] \<Rightarrow> None
      | op # ops \<Rightarrow> if app_main a = Io_Running \<and> read_fits (app_session a) op outcome
                    then (case complete_read mp (callbacks P) outcome (app_session a) of
                            (Undefined_Behaviour, s') \<Rightarrow> None
                          | (r, s') \<Rightarrow> Some (io_result r (a\<lparr>app_session := s'\<rparr>))) else None)"
| "do_app mp P Do_Idle a =
     (if app_main a = Io_Running \<and> \<not> app_connecting a \<and> io_queue (app_session a) = [] \<and>
         pending_reads (app_session a) = [] then Some (a\<lparr>app_main := Returning 0\<rparr>) else None)"
| "do_app mp P Do_Continue a =
     (case app_waiting a of [] \<Rightarrow> None | k # ks \<Rightarrow> map_option snd (continue P k (a\<lparr>app_waiting := ks\<rparr>)))"
| "do_app mp P Do_Return a =
     (case app_main a of
        Returning n \<Rightarrow> if app_waiting a = [] then Some (a\<lparr>app_main := Returned n\<rparr>) else None
      | _ \<Rightarrow> None)"

fun run_app :: "msgpack \<Rightarrow> program \<Rightarrow> app_move list \<Rightarrow> app \<Rightarrow> app option" where
  "run_app mp P [] a = Some a"
| "run_app mp P (m # ms) a = (case do_app mp P m a of None \<Rightarrow> None | Some a' \<Rightarrow> run_app mp P ms a')"

lemma do_app_sound: "do_app mp P m a = Some a' \<Longrightarrow> app_step mp P a a'"
proof (cases m)
  case Do_Continue
  moreover assume "do_app mp P m a = Some a'"
  ultimately show ?thesis
    by (auto split: list.splits intro: app_step.app_continue)
qed (auto split: if_splits list.splits prod.splits result.splits main_state.splits
      intro: app_step.app_connect app_step.app_task app_step.app_read app_step.app_idle app_step.app_return)

lemma run_app_reachable: "run_app mp P ms a = Some a' \<Longrightarrow> app_reachable mp P a \<Longrightarrow> app_reachable mp P a'"
  by (induction ms arbitrary: a)
    (auto simp: app_reachable_def split: option.splits intro: reach_step dest: do_app_sound)

text \<open>A router that welcomes the program and answers its request: the call with 800.\<close>

definition calculator_mp :: msgpack where
  "calculator_mp = scripted
     [welcome_object,
      ARRAY [POSITIVE_INTEGER 50, POSITIVE_INTEGER 1, MAP [], ARRAY [POSITIVE_INTEGER 800]],
      ARRAY [POSITIVE_INTEGER 6, MAP [], STR_OBJ ''bye''],
      ARRAY [POSITIVE_INTEGER 65, POSITIVE_INTEGER 1, POSITIVE_INTEGER 9],
      ARRAY [POSITIVE_INTEGER 33, POSITIVE_INTEGER 1, POSITIVE_INTEGER 9]]"

lemma calculator_ok: "msgpack_ok calculator_mp"
  by (simp add: calculator_mp_def)

definition app_run :: "program \<Rightarrow> app_move list \<Rightarrow> app" where
  "app_run P ms = the (run_app calculator_mp P ms (app_setup healthy new_parameters))"

definition app_enabled :: "program \<Rightarrow> app_move list \<Rightarrow> bool" where
  "app_enabled P ms \<longleftrightarrow>
     \<not> Option.is_none (run_app calculator_mp P ms (app_setup healthy new_parameters))"

lemma app_run_reachable: "app_enabled P ms \<Longrightarrow> app_reachable calculator_mp P (app_run P ms)"
proof -
  have "app_reachable calculator_mp P (app_setup healthy new_parameters)"
    unfolding app_reachable_def healthy_def by (rule reach_init) (auto simp: app_init_def)
  then show "app_enabled P ms \<Longrightarrow> app_reachable calculator_mp P (app_run P ms)"
    by (auto simp: app_enabled_def app_run_def Option.is_none_def intro: run_app_reachable)
qed

fun deliver_app :: "byte \<Rightarrow> app_move list" where
  "deliver_app b = [Do_App_Read (Read_Ok [0, 0, 0, 1]), Do_App_Read (Read_Ok [b])]"

definition app_joins :: "app_move list" where
  "app_joins = [Do_Connection None, Do_App_Read (Read_Ok [0x7F, 0xF2, 0, 0]), Do_Continue, Do_App_Task]
     @ deliver_app 0 @ [Do_Continue]"

definition app_ends :: "app_move list" where
  "app_ends = [Do_Continue, Do_App_Task] @ deliver_app 2 @ [Do_Continue, Do_App_Task, Do_Continue, Do_Return]"

section \<open>Execution\<close>

definition example_programs :: "msgpack \<Rightarrow> program list" where
  "example_programs mp = [caller mp, publisher mp, callee mp, subscriber mp]"

lemma example_program_cases:
  assumes "P \<in> set (example_programs mp)"
  shows "example_program mp P"
  using assms caller.example_program_axioms publisher.example_program_axioms
    callee.example_program_axioms subscriber.example_program_axioms
  by (auto simp: example_programs_def)

text \<open>C33: The example programs compose with the session.  In every reachable state of each of the four
  programs its session is a reachable session of the library, so all that is proved of sessions
  holds inside it; at most one continuation waits; no step goes back to an earlier stage (connecting,
  then started, joined, called, left, stopped), and one that runs a continuation or attaches one goes
  on to a later stage, so each continuation runs at most once; nothing is printed before the call is
  answered and one number at most in all; and \<open>main\<close> has returned only when no continuation waits.\<close>

theorem programs_compose:
  assumes "P \<in> set (example_programs mp)" and "app_reachable mp P a"
  shows "reachable mp (callbacks P) (app_session a) \<and> alive (app_session a) \<and>
    of_bool (app_connecting a) + length (app_waiting a) \<le> (1 :: nat) \<and>
    (\<forall>a'. app_step mp P a a' \<longrightarrow> stage_of a \<le> stage_of a' \<and>
      (app_waiting a' \<noteq> app_waiting a \<longrightarrow> stage_of a < stage_of a')) \<and>
    length (app_printed a) \<le> of_bool (stage_of a > 3) \<and>
    (\<forall>n. app_main a = Returned n \<longrightarrow> app_waiting a = []) \<and>
    (app_connecting a \<longrightarrow> app_main a = Io_Running)"
proof -
  note P = example_program_cases [OF assms(1)]
  have ok: "example_program.app_ok mp P a" by (rule example_program.reachable_app_ok [OF P assms(2)])
  then show ?thesis
    using example_program.app_step_ok [OF P _ ok] by (auto simp: example_program.app_ok_def [OF P] live_def)
qed

text \<open>The caller's whole run: the sum is printed and \<open>main\<close> returns 0.\<close>

definition caller_run :: "app_move list" where
  "caller_run = app_joins @ [Do_App_Task] @ deliver_app 1 @ app_ends"

theorem programs_compose_witness:
  "app_printed (app_run (caller calculator_mp) caller_run) = [800] \<and>
   app_main (app_run (caller calculator_mp) caller_run) = Returned 0 \<and>
   reachable calculator_mp (callbacks (caller calculator_mp))
     (app_session (app_run (caller calculator_mp) caller_run))"
proof (intro conjI)
  show "app_printed (app_run (caller calculator_mp) caller_run) = [800]" by code_simp
  show "app_main (app_run (caller calculator_mp) caller_run) = Returned 0" by code_simp
  have "app_enabled (caller calculator_mp) caller_run" by code_simp
  then have "app_reachable calculator_mp (caller calculator_mp) (app_run (caller calculator_mp) caller_run)"
    by (rule app_run_reachable)
  moreover have "caller calculator_mp \<in> set (example_programs calculator_mp)"
    by (simp add: example_programs_def)
  ultimately show "reachable calculator_mp (callbacks (caller calculator_mp))
     (app_session (app_run (caller calculator_mp) caller_run))"
    using programs_compose by blast
qed

section \<open>The end of a program\<close>

text \<open>C34: An exception that leaves a message handler ends a program only when no continuation waits.  The
  main thread leaves \<open>io.run()\<close> to return 1, but waits for the continuation first, and when its future
  is not ready nothing can make it ready any more: the program neither answers nor ends.  When no
  continuation waits, returning 1 is the only thing that can happen.\<close>

theorem exception_ends_program:
  assumes "P \<in> set (example_programs mp)" and "app_reachable mp P a" and "app_main a = Io_Running"
    and "pending_reads (app_session a) = op # ops" and "read_fits (app_session a) op outcome"
    and "complete_read mp (callbacks P) outcome (app_session a) = (Throw e, s')"
  defines "b \<equiv> a\<lparr>app_session := s', app_main := Returning 1\<rparr>"
  shows "app_step mp P a b \<and>
    (\<forall>k. app_waiting a = [k] \<and> \<not> ready k s' \<longrightarrow> (\<forall>c. \<not> app_step mp P b c)) \<and>
    (app_waiting a = [] \<longrightarrow> (\<forall>c. app_step mp P b c \<longleftrightarrow> c = b\<lparr>app_main := Returned 1\<rparr>))"
proof -
  note P = example_program_cases [OF assms(1)]
  have step: "app_step mp P a b"
    using app_step.app_read [OF assms(3-6)] by (simp add: b_def io_result_def)
  then have "example_program.app_ok mp P b"
    using example_program.app_ok_step [OF P] example_program.reachable_app_ok [OF P assms(2)] by blast
  then have "\<forall>k. app_waiting a = [k] \<and> \<not> ready k s' \<longrightarrow> (\<forall>c. \<not> app_step mp P b c)"
    using example_program.stuck [OF P, of b 1] by (simp add: b_def)
  moreover have "\<forall>c. app_step mp P b c \<longleftrightarrow> c = b\<lparr>app_main := Returned 1\<rparr>" if "app_waiting a = []"
  proof (intro allI iffI)
    fix c assume "app_step mp P b c"
    then show "c = b\<lparr>app_main := Returned 1\<rparr>"
      using that by cases (simp_all add: b_def)
  next
    fix c assume "c = b\<lparr>app_main := Returned 1\<rparr>"
    then show "app_step mp P b c"
      using that app_step.app_return [of b 1 mp P] by (simp add: b_def)
  qed
  ultimately show ?thesis using step by blast
qed

text \<open>A caller whose call is open gets a second WELCOME.\<close>

theorem exception_ends_program_witness:
  "\<exists>b. app_main b = Returning 1 \<and>
     app_step calculator_mp (caller calculator_mp)
       (app_run (caller calculator_mp) (app_joins @ [Do_App_Task, Do_App_Read (Read_Ok [0, 0, 0, 1])])) b \<and>
     (\<forall>c. \<not> app_step calculator_mp (caller calculator_mp) b c)"
proof -
  let ?P = "caller calculator_mp"
  let ?a = "app_run ?P (app_joins @ [Do_App_Task, Do_App_Read (Read_Ok [0, 0, 0, 1])])"
  let ?r = "complete_read calculator_mp (callbacks ?P) (Read_Ok [0]) (app_session ?a)"
  have "app_enabled ?P (app_joins @ [Do_App_Task, Do_App_Read (Read_Ok [0, 0, 0, 1])])" by code_simp
  then have reach: "app_reachable calculator_mp ?P ?a" by (rule app_run_reachable)
  have "app_main ?a = Io_Running" "pending_reads (app_session ?a) = [Read_Body]"
    "read_fits (app_session ?a) Read_Body (Read_Ok [0])" "app_waiting ?a = [After_Call 0]"
    "\<not> ready (After_Call 0) (snd ?r)"
    by code_simp+
  moreover have "fst ?r = Throw (Library_Error Promise_Already_Satisfied)" by code_simp
  then have "?r = (Throw (Library_Error Promise_Already_Satisfied), snd ?r)" by (simp add: prod_eq_iff)
  moreover have "?P \<in> set (example_programs calculator_mp)" by (simp add: example_programs_def)
  ultimately show ?thesis
    using exception_ends_program [OF _ reach] by (intro exI [of _ "?a\<lparr>app_session := snd ?r, app_main := Returning 1\<rparr>"]) force
qed

section \<open>The sum\<close>

lemma callee_invocation:
  assumes "msgpack_ok mp" and "payload_ok payload" and "m_procedures s i = Some ADD"
  shows "got_message mp (callbacks (callee mp)) (ARRAY (invocation_fields r i d payload)) z s =
    (let p = heap_next s; iv = received_invocation r z (invocation_fields r i d payload)
     in try_catch (run_prog mp (add mp p iv)) (report_exception mp p)
          (s\<lparr>heap_invocations := (heap_invocations s)(p \<mapsto> iv), heap_next := Suc p\<rparr>))"
  using assms(3)
  by (simp add: invocation_dispatch [OF assms(1,2)] invoke_procedure_def alloc_invocation_def callee_def Let_def)

text \<open>A reply on the io thread to an open invocation of a healthy session.\<close>

lemma healthy_reply:
  assumes "heap_invocations s p = Some iv" and "sendable iv" and "alive s" and "\<not> m_stopped s"
    and "fail_after (m_out s) = None"
  shows "fst (invocation_reply mp True p rep s) = Ok ()"
    and "written (m_out (snd (invocation_reply mp True p rep s))) =
      written (m_out s) @ frame mp (reply_message rep (inv_request_id iv))"
proof -
  obtain g where "inv_send_result_fn iv = Some g" using assms(2) by (auto simp: sendable_def)
  with assms show "fst (invocation_reply mp True p rep s) = Ok ()"
    "written (m_out (snd (invocation_reply mp True p rep s))) =
      written (m_out s) @ frame mp (reply_message rep (inv_request_id iv))"
    by (simp_all add: invocation_reply_sendable Let_def send_result_eq send_healthy)
qed

lemma healthy_report:
  assumes "heap_invocations s p = Some iv" and "sendable iv" and "alive s" and "\<not> m_stopped s"
    and "fail_after (m_out s) = None" and "exn_what (library_what mp) e = Some w"
  shows "fst (report_exception mp p e s) = Ok ()"
    and "written (m_out (snd (report_exception mp p e s))) = written (m_out s) @
      frame mp (error_kw_message ''wamp.error.runtime_error'' [] [(STR_OBJ ''what'', STR_OBJ w)]
        (inv_request_id iv))"
  using assms healthy_reply [OF assms(1-5)]
  by (simp_all add: report_exception_def with_state_def invocation_sendable_def)

lemma index_texts: "decimal 0 = ''0''" "decimal (Suc 0) = ''1''"
  by code_simp+

text \<open>C35: The procedure of the callee.  An invocation with two integers is answered by exactly one YIELD of
  their sum modulo \<open>2 ^ 64\<close> under the invocation's request id; further arguments are ignored.  One
  with fewer than two arguments, or whose first argument is no integer, is answered by one ERROR
  that names the reason.\<close>

theorem add_procedure:
  fixes s :: session and z :: nat and r i :: u64 and d :: "(msgobj \<times> msgobj) list"
  assumes "msgpack_ok mp" and "m_procedures s i = Some ADD" and "alive s" and "\<not> m_stopped s"
    and "fail_after (m_out s) = None"
  defines "invoked \<equiv> (\<lambda>arguments. got_message mp (callbacks (callee mp))
      (ARRAY (invocation_fields r i d [ARRAY arguments])) z s)"
    and "failed \<equiv> (\<lambda>w. written (m_out s) @ frame mp (error_kw_message ''wamp.error.runtime_error'' []
      [(STR_OBJ ''what'', STR_OBJ w)] r))"
  shows "fst (invoked (POSITIVE_INTEGER a # POSITIVE_INTEGER b # rest)) = Ok () \<and>
    written (m_out (snd (invoked (POSITIVE_INTEGER a # POSITIVE_INTEGER b # rest)))) =
      written (m_out s) @ frame mp (yield_message [POSITIVE_INTEGER (a + b)] r) \<and>
    written (m_out (snd (invoked []))) = failed ''no argument at index 0'' \<and>
    written (m_out (snd (invoked [POSITIVE_INTEGER a]))) = failed ''no argument at index 1'' \<and>
    (as_uint64 mp x = None \<longrightarrow> fst (invoked (x # rest)) = Ok () \<and>
      written (m_out (snd (invoked (x # rest)))) = failed (library_what mp Msgpack_Type_Error))"
proof (intro conjI impI)
  let ?p = "heap_next s"
  let ?iv = "\<lambda>arguments. received_invocation r z (invocation_fields r i d [ARRAY arguments])"
  let ?s = "\<lambda>arguments. s\<lparr>heap_invocations := (heap_invocations s)(?p \<mapsto> ?iv arguments), heap_next := Suc ?p\<rparr>"
  have payload: "payload_ok [ARRAY arguments]" for arguments by simp
  note fields = received_invocation_fields [OF payload, of r z i d]
  have run: "invoked arguments =
      try_catch (run_prog mp (add mp ?p (?iv arguments))) (report_exception mp ?p) (?s arguments)" for arguments
    unfolding invoked_def callee_invocation [OF assms(1) payload assms(2)] by (simp add: Let_def)
  have int: "as_uint64 mp (POSITIVE_INTEGER n) = Some n" for n
    using assms(1) unfolding msgpack_ok_def by blast
  have state: "heap_invocations (?s arguments) ?p = Some (?iv arguments)" "sendable (?iv arguments)"
    "alive (?s arguments)" "\<not> m_stopped (?s arguments)" "fail_after (m_out (?s arguments)) = None" for arguments
    using assms(3-5) fields by simp_all
  note reply = healthy_reply [OF state] and report = healthy_report [OF state]
  let ?args = "POSITIVE_INTEGER a # POSITIVE_INTEGER b # rest"
  let ?sum = "Result_Args [POSITIVE_INTEGER (a + b)]"
  have "add mp ?p (?iv ?args) = Reply_Then ?p ?sum (\<lambda>r. prog_of r (\<lambda>_. Done))"
    by (simp add: add_def invocation_argument_def fields int)
  moreover obtain s' where "invocation_reply mp True ?p ?sum (?s ?args) = (Ok (), s')"
    using reply(1) [of mp ?sum ?args] by (metis prod.collapse)
  ultimately show "fst (invoked ?args) = Ok ()"
    "written (m_out (snd (invoked ?args))) =
      written (m_out s) @ frame mp (yield_message [POSITIVE_INTEGER (a + b)] r)"
    using reply(2) [of mp ?sum ?args] by (simp_all add: run try_catch_def fields ret_def)
  have raised: "fst (invoked arguments) = Ok () \<and> written (m_out (snd (invoked arguments))) = failed w"
    if "add mp ?p (?iv arguments) = Raise e" "exn_what (library_what mp) e = Some w" for arguments e w
    using report [OF that(2), of arguments] that(1) by (simp add: run try_catch_def raise_def fields failed_def)
  show "written (m_out (snd (invoked []))) = failed ''no argument at index 0''"
    by (rule raised [THEN conjunct2, of _ "no_argument 0"])
      (simp_all add: add_def invocation_argument_def fields no_argument_def index_texts)
  show "written (m_out (snd (invoked [POSITIVE_INTEGER a]))) = failed ''no argument at index 1''"
    by (rule raised [THEN conjunct2, of _ "no_argument 1"])
      (simp_all add: add_def invocation_argument_def fields no_argument_def index_texts int)
  assume "as_uint64 mp x = None"
  then have "add mp ?p (?iv (x # rest)) = Raise type_error"
    by (simp add: add_def invocation_argument_def fields)
  then show "fst (invoked (x # rest)) = Ok ()"
    "written (m_out (snd (invoked (x # rest)))) = failed (library_what mp Msgpack_Type_Error)"
    using raised [of "x # rest" type_error] by (simp_all add: type_error_def)
qed

theorem add_procedure_witness:
  "written (m_out (snd (got_message calculator_mp (callbacks (callee calculator_mp))
      (ARRAY (invocation_fields 4 9 [] [ARRAY [POSITIVE_INTEGER 23, POSITIVE_INTEGER 777]])) 0
      (app_session (app_run (callee calculator_mp) (app_joins @ [Do_App_Task] @ deliver_app 3)))))) =
   written (m_out (app_session (app_run (callee calculator_mp) (app_joins @ [Do_App_Task] @ deliver_app 3)))) @
     frame calculator_mp (yield_message [POSITIVE_INTEGER 800] 4)"
proof -
  let ?s = "app_session (app_run (callee calculator_mp) (app_joins @ [Do_App_Task] @ deliver_app 3))"
  have "m_procedures ?s 9 = Some ADD" "alive ?s" "\<not> m_stopped ?s" "fail_after (m_out ?s) = None"
    by code_simp+
  from add_procedure [OF calculator_ok this, where r = 4 and z = 0 and d = "[]" and a = 23 and b = 777
      and rest = "[]"]
  show ?thesis by simp
qed

section \<open>The event\<close>

text \<open>C37: Publisher and subscriber do not fit together.  When its session has joined, the publisher queues one
  PUBLISH of the text \<open>hello\<close> on the topic, then leaves.  The subscriber's handler of the topic reads
  an integer: on the event that carries the text it throws, the session contains the exception and
  nothing is received, while an event with an integer is accepted.\<close>

theorem published_event_rejected:
  assumes "msgpack_ok mp" and "as_uint64 mp (STR_OBJ ''hello'') = None"
    and "reachable mp (callbacks (subscriber mp)) s"
    and "mm_values i (m_subscription_handlers s) = [TOPIC1]"
    and "\<not> future_retrieved (m_session_leave (app_session a))"
  shows "(\<exists>a' m. publisher_joined mp (Ok j) a = (Ok (), a') \<and> app_waiting a' = app_waiting a @ [After_Leave] \<and>
      m = publish_args_message ''com.examples.subscriptions.topic1'' [STR_OBJ ''hello'']
            (word_of_nat (Suc (m_request_id (app_session a)))) \<and>
      io_queue (app_session a') = io_queue (app_session a) @
        [Publish_Task m, Leave_Task (goodbye_message ''wamp.error.close_realm'')]) \<and>
    run_prog mp (on_event (callbacks (subscriber mp)) TOPIC1
      (received_event (event_fields i pub d [ARRAY [STR_OBJ ''hello'']]))) s = (Throw type_error, s) \<and>
    got_message mp (callbacks (subscriber mp))
      (ARRAY (event_fields i pub d [ARRAY [STR_OBJ ''hello'']])) z s = (Ok (), s) \<and>
    run_prog mp (on_event (callbacks (subscriber mp)) TOPIC1
      (received_event (event_fields i pub d [ARRAY (POSITIVE_INTEGER n # rest)]))) s = (Ok (), s)"
proof (intro conjI)
  show "\<exists>a' m. publisher_joined mp (Ok j) a = (Ok (), a') \<and> app_waiting a' = app_waiting a @ [After_Leave] \<and>
      m = publish_args_message ''com.examples.subscriptions.topic1'' [STR_OBJ ''hello'']
            (word_of_nat (Suc (m_request_id (app_session a)))) \<and>
      io_queue (app_session a') = io_queue (app_session a) @
        [Publish_Task m, Leave_Task (goodbye_message ''wamp.error.close_realm'')]"
    using assms(5)
    by (simp add: publisher_joined_def on_app_def attach_def action_defs publish_args_def leave_def
        next_request_id_def io_dispatch_def on_leave_def get_future_def del: of_nat_Suc)
  have payload: "payload_ok [ARRAY xs]" for xs by simp
  have int: "as_uint64 mp (POSITIVE_INTEGER n) = Some n"
    using assms(1) unfolding msgpack_ok_def by blast
  note handler = subscriber_def topic1_def event_argument_def received_event_fields [OF payload]
  show rejected: "run_prog mp (on_event (callbacks (subscriber mp)) TOPIC1
      (received_event (event_fields i pub d [ARRAY [STR_OBJ ''hello'']]))) s = (Throw type_error, s)"
    by (simp add: handler assms(2) raise_def)
  show "run_prog mp (on_event (callbacks (subscriber mp)) TOPIC1
      (received_event (event_fields i pub d [ARRAY (POSITIVE_INTEGER n # rest)]))) s = (Ok (), s)"
    by (simp add: handler int ret_def)
  show "got_message mp (callbacks (subscriber mp))
      (ARRAY (event_fields i pub d [ARRAY [STR_OBJ ''hello'']])) z s = (Ok (), s)"
    unfolding event_dispatch [OF assms(1,3) payload] assms(4)
    by (simp add: rejected try_catch_def and_then_def bind_act_def ret_def)
qed

theorem published_event_rejected_witness:
  "got_message calculator_mp (callbacks (subscriber calculator_mp))
     (ARRAY (event_fields 9 1 [] [ARRAY [STR_OBJ ''hello'']])) 0
     (app_session (app_run (subscriber calculator_mp) (app_joins @ [Do_App_Task] @ deliver_app 4))) =
   (Ok (), app_session (app_run (subscriber calculator_mp) (app_joins @ [Do_App_Task] @ deliver_app 4)))"
proof -
  let ?a = "app_run (subscriber calculator_mp) (app_joins @ [Do_App_Task] @ deliver_app 4)"
  let ?p = "app_run (publisher calculator_mp) []"
  have "app_enabled (subscriber calculator_mp) (app_joins @ [Do_App_Task] @ deliver_app 4)" by code_simp
  then have "app_reachable calculator_mp (subscriber calculator_mp) ?a" by (rule app_run_reachable)
  then have "reachable calculator_mp (callbacks (subscriber calculator_mp)) (app_session ?a)"
    using subscriber.reachable_app_ok by (auto simp: subscriber.app_ok_def live_def)
  moreover have "mm_values 9 (m_subscription_handlers (app_session ?a)) = [TOPIC1]"
    "as_uint64 calculator_mp (STR_OBJ ''hello'') = None"
    "\<not> future_retrieved (m_session_leave (app_session ?p))"
    by code_simp+
  ultimately show ?thesis using published_event_rejected [OF calculator_ok] by blast
qed

end
