(* ===== verification/Caller_Results.thy ===== *)
theory Caller_Results
  imports Example_Results Session_Futures
begin

text \<open>
  The example program \<open>caller\<close> (\<open>examples/caller.cpp\<close>): what the answer to its call makes of it, and
  that a call which fails leaves it running without an aim.
\<close>

section \<open>Reads queue nothing\<close>

text \<open>
  The caller has no callbacks, so what it receives makes no requests.  A call whose function is still
  queued is in no table, so no message answers it.
\<close>

lemma silent_callbacks:
  assumes "\<And>s iv. P s \<Longrightarrow> P (snd (alloc_invocation iv s))"
  shows "keeps P (process_event mp silent_user message)"
    and "keeps P (process_invocation mp silent_user message z)"
proof -
  have "keeps P (trigger_handlers mp silent_user hs ev)" for hs ev
    by (induction hs) (auto simp: silent_user_def intro!: keep_intros)
  then show "keeps P (process_event mp silent_user message)"
    unfolding process_event_def receive_defs Let_def by (intro keep_intros)
  have "keeps P (invoke_procedure mp silent_user g (received_invocation rid z message))" for g rid
    using assms by (simp add: keeps_def invoke_procedure_def silent_user_def action_defs split: prod.splits)
      (metis snd_conv)
  then show "keeps P (process_invocation mp silent_user message z)"
    unfolding process_invocation_def receive_defs by (intro keep_intros)
qed

lemma queue_actions:
  "keeps (\<lambda>s. io_queue s = q) (send mp b)"
  "keeps (\<lambda>s. io_queue s = q) (on_handshake f1)" "keeps (\<lambda>s. io_queue s = q) (on_join f2)"
  "keeps (\<lambda>s. io_queue s = q) (on_leave f3)" "keeps (\<lambda>s. io_queue s = q) (on_stop f4)"
  "keeps (\<lambda>s. io_queue s = q) (reject_call p e)" "keeps (\<lambda>s. io_queue s = q) (resolve_call p v)"
  "keeps (\<lambda>s. io_queue s = q) (respond_subscribe p sv)" "keeps (\<lambda>s. io_queue s = q) (respond_unsubscribe p)"
  "keeps (\<lambda>s. io_queue s = q) (respond_register p rv)"
  "keeps (\<lambda>s. io_queue s = q) (io_dispatch mp True t)"
  by (simp_all add: keeps_def on_promise_defs object_defs io_dispatch_def run_task_queue
      split: option.splits prod.splits)

lemma queue_handlers:
  "keeps (\<lambda>s. io_queue s = q) (process_welcome mp message)"
  "keeps (\<lambda>s. io_queue s = q) (process_goodbye mp message)"
  "keeps (\<lambda>s. io_queue s = q) (process_error mp message)"
  "keeps (\<lambda>s. io_queue s = q) (process_call_result mp message z)"
  "keeps (\<lambda>s. io_queue s = q) (process_subscribed mp message)"
  "keeps (\<lambda>s. io_queue s = q) (process_unsubscribed mp message)"
  "keeps (\<lambda>s. io_queue s = q) (process_registered mp message)"
  unfolding process_welcome_def process_goodbye_def process_error_def process_call_result_def
    process_subscribed_def process_unsubscribed_def process_registered_def receive_defs Let_def
  by (intro keep_intros keeps_update queue_actions; simp)+

lemma queue_got_message: "keeps (\<lambda>s. io_queue s = q) (got_message mp silent_user v z)"
proof -
  have "keeps (\<lambda>s. io_queue s = q) (process_message mp silent_user t message z)" for t message
    by (cases t)
      (simp_all add: unexpected_def not_implemented_def protocol_error_def keep_intros queue_handlers
        silent_callbacks alloc_invocation_def)
  then show ?thesis
    unfolding got_message_def receive_defs by (cases v) (auto intro!: keep_intros)
qed

lemma queue_rx_error: "keeps (\<lambda>s. io_queue s = q) (handle_rx_error mp e)"
  unfolding handle_rx_error_def leave_def stop_def
  by (intro keep_intros keeps_update queue_actions) simp

interpretation quiet: read_invariant mp silent_user "\<lambda>s. io_queue s = q" for mp q
  by unfold_locales (simp_all add: queue_got_message queue_rx_error queue_actions)

definition holds_call :: "nat \<Rightarrow> task list \<Rightarrow> session \<Rightarrow> bool" where
  "holds_call f q s \<longleftrightarrow> requests_ok s \<and> io_queue s = q \<and>
     (f \<in> set (concat (map call_ptr q)) \<longrightarrow> open_on (Call_Future f) s)"

lemma held_unanswered:
  assumes "holds_call f q s" and "f \<in> set (concat (map call_ptr q))"
  shows "\<not> answers mp s message (Call_Future f)"
proof -
  have "f \<notin> ran (m_calls s)"
    using assms by (auto simp: holds_call_def requests_ok_def tables_ok_def table_ok_def)
  then show ?thesis
    by (auto simp: names_request_def ran_def bind_eq_Some_conv)
qed

lemma holds_call_message: "keeps (holds_call f q) (got_message mp silent_user v z)"
proof (rule keepsI)
  fix s assume s: "holds_call f q s"
  let ?s' = "snd (got_message mp silent_user v z s)"
  have "open_on (Call_Future f) ?s'" if "f \<in> set (concat (map call_ptr q))"
    using got_message_leaves_open [of "Call_Future f" s v mp silent_user z] held_unanswered [OF s that] s that
    by (auto simp: leaves_open_def holds_call_def)
  then show "holds_call f q ?s'"
    using s keepsD [OF requests.got_message_P, of s] keepsD [OF queue_got_message, of s q]
    by (simp add: holds_call_def)
qed

lemma holds_call_rx_error: "keeps (holds_call f q) (handle_rx_error mp e)"
  using requests.rx_error_P queue_rx_error rx_error_keeps_open
  by (simp add: keeps_def holds_call_def)

lemma holds_call_updates:
  "holds_call f q s \<Longrightarrow> holds_call f q (s\<lparr>pending_reads := ops\<rparr>)"
  "holds_call f q s \<Longrightarrow> holds_call f q (s\<lparr>m_buffer_message_length := bs\<rparr>)"
  "holds_call f q s \<Longrightarrow> holds_call f q (s\<lparr>m_message_length := n\<rparr>)"
  "holds_call f q s \<Longrightarrow> holds_call f q (s\<lparr>m_unpacker := rest\<rparr>)"
  "holds_call f q s \<Longrightarrow> holds_call f q (s\<lparr>zone_count := z\<rparr>)"
  by (auto simp: holds_call_def requests.reads_P requests.prefix_P requests.length_P requests.unpacker_P
      requests.zone_P elim!: open_fields)

lemma holds_call_handshake: "keeps (holds_call f q) (on_handshake (set_value v))"
proof (rule keepsI)
  fix s assume s: "holds_call f q s"
  then show "holds_call f q (snd (on_handshake (set_value v) s))"
    using keepsD [OF requests.handshake_P, of s] keepsD [OF queue_actions(2), of s q]
    by (simp add: holds_call_def open_promises)
qed

interpretation held: read_invariant mp silent_user "holds_call f q" for mp f q
  by unfold_locales
    (rule holds_call_message holds_call_rx_error holds_call_handshake holds_call_updates; assumption?)+

section \<open>The call of a running program\<close>

text \<open>
  While the caller waits for its call, the function of the call is the last one in the queue, with the
  call open, or the queue is empty.
\<close>

definition call_pending :: "app \<Rightarrow> bool" where
  "call_pending a \<longleftrightarrow> (\<forall>f. app_waiting a = [After_Call f] \<longrightarrow> io_queue (app_session a) = [] \<or>
     (\<exists>ts r b. io_queue (app_session a) = ts @ [Call_Task r f b]) \<and> open_on (Call_Future f) (app_session a))"

lemma next_task_queue: "io_queue (snd (run_next_task mp s)) = tl (io_queue s)"
  by (auto simp: run_next_task_def run_task_queue split: list.split)

lemma call_pending_task:
  assumes "requests_ok s" and "io_queue s = ts @ [Call_Task r f b]" and "open_on (Call_Future f) s"
    and "io_queue (snd (run_next_task mp s)) \<noteq> []"
  shows "(\<exists>ts. io_queue (snd (run_next_task mp s)) = ts @ [Call_Task r f b]) \<and>
    open_on (Call_Future f) (snd (run_next_task mp s))"
proof -
  obtain t ts' where ts: "ts = t # ts'" using assms(2,4) by (cases ts) (auto simp: next_task_queue)
  have "distinct (concat (map call_ptr (io_queue s)))"
    using assms(1) by (simp add: requests_ok_def tables_ok_def table_ok_def)
  then have "captured_future t \<noteq> Some (Call_Future f)"
    using assms(2) ts by (cases t) auto
  then have "board (snd (run_next_task mp s)) (Call_Future f) = Some Unresolved"
    using next_task_outcome [OF assms(3), of mp] assms(2) ts by simp
  moreover have "heap_bounded (snd (run_next_task mp s))"
    using keepsD [OF next_task_tables assms(1)] by (simp add: requests_ok_def tables_ok_def)
  ultimately show ?thesis using assms(2) ts by (simp add: open_on_def next_task_queue del: board.simps)
qed

lemma caller_continues_pending:
  assumes "caller.app_ok mp a" and "k \<in> set (app_waiting a)"
    and "continue (caller mp) k (a\<lparr>app_waiting := remove1 k (app_waiting a)\<rparr>) = Some (r, a')"
  shows "call_pending a'"
proof -
  have a: "app_waiting a = [k]" using assms(1,2) by (cases "app_waiting a") (auto simp: caller.app_ok_def)
  let ?s = "app_session a"
  have live: "live mp (callbacks (caller mp)) ?s" using assms(1) by (simp add: caller.app_ok_def)
  show ?thesis
  proof (cases k)
    case After_Start
    obtain r1 s1 where "join mp False (m_params_realm (app_params a)) ?s = (r1, s1)" by fastforce
    then show ?thesis
      using assms(3) a After_Start
      by (cases r1) (auto simp: continue_def caller_def caller_started_def on_app_def attach_def
          action_defs call_pending_def)
  next
    case After_Join
    let ?n = "heap_next ?s"
    have "heap_bounded ?s" using live reachable_bounded by (auto simp: live_def)
    then have "board (snd (call_args mp False g xs ?s)) (Call_Future ?n) = Some Unresolved \<and>
        heap_bounded (snd (call_args mp False g xs ?s))" for g xs
      by (simp add: call_args_def next_request_id_def alloc_call_def io_dispatch_def action_defs new_call_def
          heap_bounded_def)
    then have "open_on (Call_Future ?n) (snd (call_args mp False g xs ?s))" for g xs
      by (simp add: open_on_def del: board.simps)
    moreover obtain v where "caller_joined mp v (a\<lparr>app_waiting := []\<rparr>) = (r, a')"
      using assms(3) a After_Join by (auto simp: continue_def caller_def)
    ultimately show ?thesis
      by (cases v) (auto simp: caller_joined_def on_app_def attach_def action_defs call_args_def
          next_request_id_def alloc_call_def io_dispatch_def call_pending_def)
  next
    case (After_Call f)
    then show ?thesis
      using assms(3) a caller.continue_stage [of mp "a\<lparr>app_waiting := []\<rparr>" k r a'] assms(1)
      by (auto simp: idle_iff caller.app_ok_def in_stage_def call_pending_def)
  next
    case After_Leave
    then show ?thesis
      using assms(3) a caller.continue_stage [of mp "a\<lparr>app_waiting := []\<rparr>" k r a'] assms(1)
      by (auto simp: idle_iff caller.app_ok_def in_stage_def call_pending_def)
  next
    case After_Stop
    then show ?thesis
      using assms(3) a caller.continue_stage [of mp "a\<lparr>app_waiting := []\<rparr>" k r a'] assms(1)
      by (auto simp: idle_iff caller.app_ok_def in_stage_def call_pending_def)
  qed
qed

lemma io_result_fields [simp]:
  "app_session (io_result r a) = app_session a" "app_waiting (io_result r a) = app_waiting a"
  "app_printed (io_result r a) = app_printed a" "app_connecting (io_result r a) = app_connecting a"
  by (simp_all add: io_result_def split: result.split)

lemma caller_step_pending:
  "app_step mp (caller mp) a a' \<Longrightarrow> caller.app_ok mp a \<Longrightarrow> call_pending a \<Longrightarrow> call_pending a'"
proof (induction rule: app_step.induct)
  case (app_connect a ec r a')
  then have "app_waiting a = []" by (simp add: caller.app_ok_def)
  then have "app_waiting a' = [] \<or> app_waiting a' = [After_Start]"
    using app_connect.hyps(3)
    by (auto simp: caller_def caller_connected_def on_app_def attach_def io_stop_def action_defs
        split: option.splits prod.splits result.splits)
  then show ?case by (auto simp: call_pending_def)
next
  case (app_task a r s')
  have ok: "requests_ok (app_session a)"
    using app_task.prems(1) requests.reachable_P by (auto simp: caller.app_ok_def live_def)
  have s': "s' = snd (run_next_task mp (app_session a))" using app_task.hyps(3) by simp
  show ?case
    unfolding call_pending_def io_result_fields
  proof (intro allI impI)
    fix f assume "app_waiting (a\<lparr>app_session := s'\<rparr>) = [After_Call f]"
    then obtain ts q b where "io_queue (app_session a) = ts @ [Call_Task q f b]"
      "open_on (Call_Future f) (app_session a)"
      using app_task.prems(2) app_task.hyps(2) by (auto simp: call_pending_def)
    from call_pending_task [OF ok this, of mp]
    show "io_queue (app_session (a\<lparr>app_session := s'\<rparr>)) = [] \<or>
      (\<exists>ts r b. io_queue (app_session (a\<lparr>app_session := s'\<rparr>)) = ts @ [Call_Task r f b]) \<and>
      open_on (Call_Future f) (app_session (a\<lparr>app_session := s'\<rparr>))"
      by (auto simp: s')
  qed
next
  case (app_read a op ops outcome r s')
  have ok: "requests_ok (app_session a)"
    using app_read.prems(1) requests.reachable_P by (auto simp: caller.app_ok_def live_def)
  have read: "holds_call f (io_queue (app_session a)) s'"
    if "f \<in> set (concat (map call_ptr (io_queue (app_session a)))) \<longrightarrow> open_on (Call_Future f) (app_session a)" for f
    using keepsD_eq [OF held.complete_read_P _ app_read.hyps(4) [unfolded caller_def program.simps]] that ok
    by (simp add: holds_call_def)
  show ?case
    unfolding call_pending_def io_result_fields
  proof (intro allI impI)
    fix f assume "app_waiting (a\<lparr>app_session := s'\<rparr>) = [After_Call f]"
    then have before: "io_queue (app_session a) = [] \<or>
        (\<exists>ts r b. io_queue (app_session a) = ts @ [Call_Task r f b]) \<and> open_on (Call_Future f) (app_session a)"
      using app_read.prems(2) by (auto simp: call_pending_def)
    then have "holds_call f (io_queue (app_session a)) s'" by (intro read) auto
    with before show "io_queue (app_session (a\<lparr>app_session := s'\<rparr>)) = [] \<or>
      (\<exists>ts r b. io_queue (app_session (a\<lparr>app_session := s'\<rparr>)) = ts @ [Call_Task r f b]) \<and>
      open_on (Call_Future f) (app_session (a\<lparr>app_session := s'\<rparr>))"
      by (auto simp: holds_call_def)
  qed
next
  case (app_continue k a r a')
  then show ?case by (rule_tac caller_continues_pending)
qed (simp_all add: call_pending_def)

lemma caller_reachable_pending:
  assumes "app_reachable mp (caller mp) a"
  shows "call_pending a"
proof -
  have "caller.app_ok mp a \<and> call_pending a"
    using assms unfolding app_reachable_def
  proof (rule reach_invariant)
    show "caller.app_ok mp a \<and> call_pending a" if "app_init a" for a
      using that caller.reachable_app_ok [of mp a] reach_init [of app_init a]
      by (auto simp: app_reachable_def app_init_def app_setup_def call_pending_def)
  qed (blast intro: caller.app_ok_step caller_step_pending)
  then show ?thesis ..
qed

lemma continue_call:
  "continue P (After_Call f) a =
     map_option (\<lambda>v. on_called P v a)
       (Option.bind (heap_calls (app_session a) f) (\<lambda>c. future_get (call_promise c)))"
  by (simp add: continue_def)

lemma caller_called_sum:
  assumes "call_result_argument (as_uint64 mp) res 0 = Ok n"
    and "\<not> future_retrieved (m_session_leave (app_session a))"
  shows "\<exists>a'. caller_called mp (Ok res) a = (Ok (), a') \<and> app_printed a' = app_printed a @ [n] \<and>
    app_waiting a' = app_waiting a @ [After_Leave] \<and> io_queue (app_session a') =
      io_queue (app_session a) @ [Leave_Task (goodbye_message ''wamp.error.close_realm'')]"
  using assms
  by (simp add: caller_called_def on_app_def attach_def action_defs leave_def io_dispatch_def
      on_leave_def get_future_def)

lemma caller_called_failed:
  assumes "result = Throw e \<or> (\<exists>res. result = Ok res \<and> call_result_argument (as_uint64 mp) res 0 = Throw e)"
  shows "caller_called mp result a = (Throw e, a)"
  using assms by (auto simp: caller_called_def action_defs)

text \<open>Once its call has been answered nothing is queued.\<close>

lemma answered_queue:
  assumes "app_reachable mp (caller mp) a" and "app_waiting a = [After_Call f]"
    and "ready (After_Call f) (app_session a)"
  shows "io_queue (app_session a) = []"
proof -
  have "\<not> open_on (Call_Future f) (app_session a)"
    using assms(3) by (auto simp: open_on_def split: option.splits)
  then show ?thesis
    using caller_reachable_pending [OF assms(1)] assms(2) by (auto simp: call_pending_def)
qed

text \<open>
  A program without continuations and queued functions only reads; \<open>running\<close> says that the main thread
  was in \<open>io.run()\<close>.
\<close>

definition aimless :: "bool \<Rightarrow> app \<Rightarrow> bool" where
  "aimless running a \<longleftrightarrow> app_waiting a = [] \<and> app_printed a = [] \<and> \<not> app_connecting a \<and>
     io_queue (app_session a) = [] \<and> length (pending_reads (app_session a)) \<le> 1 \<and>
     (running \<longrightarrow> app_main a = Io_Running \<or> pending_reads (app_session a) = [])"

lemma aimless_step: "app_step mp (caller mp) a a' \<Longrightarrow> aimless running a \<Longrightarrow> aimless running a'"
proof (induction rule: app_step.induct)
  case (app_read a op ops outcome r s')
  note read = app_read.hyps(4) [unfolded caller_def program.simps]
  have "io_queue s' = []"
    using keepsD_eq [OF quiet.complete_read_P _ read, of "[]"] app_read.prems by (simp add: aimless_def)
  moreover have "length (pending_reads s') \<le> 1" "r \<noteq> Ok () \<Longrightarrow> pending_reads s' = []"
    using read_again [OF read] app_read.prems by (simp_all add: aimless_def)
  ultimately show ?case
    using app_read.prems app_read.hyps(1) by (cases r) (auto simp: aimless_def io_result_def)
qed (simp_all add: aimless_def)

text \<open>What the continuation of the call reads from its future, once that is ready.\<close>

definition received_sum :: "msgpack \<Rightarrow> session \<Rightarrow> nat \<Rightarrow> u64 result option" where
  "received_sum mp s f =
     map_option
       (\<lambda>v. case v of
           Ok res \<Rightarrow> call_result_argument (as_uint64 mp) res 0
         | Throw e \<Rightarrow> Throw e
         | Undefined_Behaviour \<Rightarrow> Undefined_Behaviour)
       (Option.bind (heap_calls s f) (\<lambda>c. future_get (call_promise c)))"

lemma received_sum_ready: "received_sum mp s f \<noteq> None \<longleftrightarrow> ready (After_Call f) s"
  by (auto simp: received_sum_def future_get_None split: option.splits) (metis future_get_None not_None_eq)+

lemma answer_received:
  assumes "msgpack_ok mp" and "reachable mp u s" and "m_calls s r = Some f"
    and "\<not> ready (After_Call f) s" and "payload_ok payload"
  shows "received_sum mp (snd (got_message mp u (ARRAY (result_fields r d payload)) z s)) f =
      Some (case payload of ARRAY (x # _) # _ \<Rightarrow> or_throw (as_uint64 mp x) type_error | _ \<Rightarrow> Throw (no_argument 0))"
    and "\<exists>e. received_sum mp (snd (got_message mp u (ARRAY (error_fields CALL r d uri payload)) z s)) f =
      Some (Throw e)"
proof -
  obtain c where call: "heap_calls s f = Some c" "\<not> satisfied (call_promise c)"
    using assms(4) pending_call [OF reachable_requests_ok [OF assms(2)] assms(3)]
    by (metis option.simps(5) ready.simps(3))
  obtain res where "obj (cr_arguments res) = (case payload of [] \<Rightarrow> ARRAY [] | a # _ \<Rightarrow> a)"
    "got_message mp u (ARRAY (result_fields r d payload)) z s =
      (Ok (), s\<lparr>heap_calls := (heap_calls s)(f \<mapsto> c\<lparr>call_promise := (call_promise c)
         \<lparr>shared_state := Has_Value res\<rparr>\<rparr>)\<rparr>)"
    using result_effect [OF assms(1,2,3,5), of d z] call by auto
  with assms(5) show "received_sum mp (snd (got_message mp u (ARRAY (result_fields r d payload)) z s)) f =
      Some (case payload of ARRAY (x # _) # _ \<Rightarrow> or_throw (as_uint64 mp x) type_error | _ \<Rightarrow> Throw (no_argument 0))"
    by (auto simp: received_sum_def future_get_def call_result_argument_def payload_ok_iff split: list.split)
  show "\<exists>e. received_sum mp (snd (got_message mp u (ARRAY (error_fields CALL r d uri payload)) z s)) f =
      Some (Throw e)"
    using error_rejects_call [OF assms(1,2,3,5), of d uri z] call
    by (auto simp: received_sum_def future_get_def)
qed

text \<open>C36: The caller.  When the session has joined it queues one CALL of the procedure with 23 and 777 and
  waits for its answer.  What its continuation then reads: from a RESULT the integer that is its first
  argument, but an exception when there is no argument or it is no integer, and an exception from any
  ERROR.  An integer is printed, the only number ever, and the session leaves.  Otherwise, a call that
  is refused included, the continuation throws where nobody looks, and for good: in no later state has
  anything been printed, is a continuation left or a function queued, so the session is never left and
  never stopped by the program, and \<open>main\<close> stays in \<open>io.run()\<close> as long as a read is outstanding.\<close>

theorem caller_prints_sum:
  fixes z :: nat
  assumes "msgpack_ok mp" and "app_reachable mp (caller mp) a" and "app_waiting a = [k]"
  defines "s \<equiv> app_session a" and "a1 \<equiv> a\<lparr>app_waiting := []\<rparr>"
    and "received \<equiv> (\<lambda>f message. received_sum mp
      (snd (got_message mp (callbacks (caller mp)) (ARRAY message) z (app_session a))) f)"
  shows "(k = After_Join \<and> shared_state (m_session_join s) = Has_Value i \<longrightarrow>
      (\<exists>a' m. continue (caller mp) k a1 = Some (Ok (), a') \<and>
        app_waiting a' = [After_Call (heap_next s)] \<and>
        m = call_args_message ''com.examples.calculator.add'' [POSITIVE_INTEGER 23, POSITIVE_INTEGER 777]
              (word_of_nat (Suc (m_request_id s))) \<and>
        io_queue (app_session a') =
          io_queue s @ [Call_Task (word_of_nat (Suc (m_request_id s))) (heap_next s) m])) \<and>
    (m_calls s r = Some f \<and> \<not> ready (After_Call f) s \<and> payload_ok payload \<longrightarrow>
      received f (result_fields r d payload) = Some (case payload of
          ARRAY (x # _) # _ \<Rightarrow> or_throw (as_uint64 mp x) type_error
        | _ \<Rightarrow> Throw (no_argument 0)) \<and>
      (\<exists>e. received f (error_fields CALL r d uri payload) = Some (Throw e))) \<and>
    (k = After_Call f \<and> received_sum mp s f = Some (Ok n) \<and> \<not> future_retrieved (m_session_leave s) \<longrightarrow>
      (\<exists>a'. continue (caller mp) k a1 = Some (Ok (), a') \<and> app_printed a' = [n] \<and>
        app_waiting a' = [After_Leave] \<and>
        io_queue (app_session a') = [Leave_Task (goodbye_message ''wamp.error.close_realm'')])) \<and>
    (k = After_Call f \<and> received_sum mp s f = Some (Throw e) \<longrightarrow>
      continue (caller mp) k a1 = Some (Throw e, a1) \<and>
      (\<forall>c. (app_step mp (caller mp))\<^sup>*\<^sup>* a1 c \<longrightarrow>
        app_printed c = [] \<and> app_waiting c = [] \<and> io_queue (app_session c) = [] \<and>
        (app_main a = Io_Running \<longrightarrow> app_main c = Io_Running \<or> pending_reads (app_session c) = [])))"
proof -
  have ok: "caller.app_ok mp a" by (rule caller.reachable_app_ok [OF assms(2)])
  then have reach: "reachable mp (callbacks (caller mp)) s" and idle: "\<not> app_connecting a"
    and one: "length (pending_reads s) \<le> 1"
    using assms(3) by (auto simp: caller.app_ok_def live_def s_def)
  have printed: "app_printed a = []" if "k = After_Call f"
    using ok assms(3) idle that by (simp add: caller.app_ok_def stage_of_def)
  have queue: "io_queue s = []" if "k = After_Call f" "received_sum mp s f \<noteq> None"
    using answered_queue [OF assms(2)] assms(3) that received_sum_ready [of mp s f] unfolding s_def by blast
  show ?thesis
  proof (intro conjI impI)
    show "\<exists>a' m. continue (caller mp) k a1 = Some (Ok (), a') \<and>
        app_waiting a' = [After_Call (heap_next s)] \<and>
        m = call_args_message ''com.examples.calculator.add'' [POSITIVE_INTEGER 23, POSITIVE_INTEGER 777]
              (word_of_nat (Suc (m_request_id s))) \<and>
        io_queue (app_session a') =
          io_queue s @ [Call_Task (word_of_nat (Suc (m_request_id s))) (heap_next s) m]"
      if "k = After_Join \<and> shared_state (m_session_join s) = Has_Value i"
      using that by (simp add: s_def a1_def continue_def future_get_def caller_def caller_joined_def on_app_def
          attach_def action_defs call_args_def next_request_id_def alloc_call_def io_dispatch_def del: of_nat_Suc)
    assume "m_calls s r = Some f \<and> \<not> ready (After_Call f) s \<and> payload_ok payload"
    then have entered: "m_calls s r = Some f" "\<not> ready (After_Call f) s" "payload_ok payload" by blast+
    note answer = answer_received [OF assms(1) reach entered]
    show "received f (result_fields r d payload) = Some (case payload of
          ARRAY (x # _) # _ \<Rightarrow> or_throw (as_uint64 mp x) type_error | _ \<Rightarrow> Throw (no_argument 0))"
      unfolding received_def s_def [symmetric] by (rule answer(1))
    show "\<exists>e. received f (error_fields CALL r d uri payload) = Some (Throw e)"
      unfolding received_def s_def [symmetric] by (rule answer(2))
  next
    assume sum: "k = After_Call f \<and> received_sum mp s f = Some (Ok n) \<and> \<not> future_retrieved (m_session_leave s)"
    then obtain v where v: "Option.bind (heap_calls s f) (\<lambda>c. future_get (call_promise c)) = Some v"
      "(case v of Ok res \<Rightarrow> call_result_argument (as_uint64 mp) res 0 | Throw e \<Rightarrow> Throw e
        | Undefined_Behaviour \<Rightarrow> Undefined_Behaviour) = Ok n"
      by (auto simp: received_sum_def)
    then obtain res where res: "v = Ok res" "call_result_argument (as_uint64 mp) res 0 = Ok n"
      by (cases v) simp_all
    with v(1) sum have "continue (caller mp) k a1 = Some (caller_called mp (Ok res) a1)"
      by (simp add: continue_call caller_def s_def a1_def)
    with res show "\<exists>a'. continue (caller mp) k a1 = Some (Ok (), a') \<and> app_printed a' = [n] \<and>
        app_waiting a' = [After_Leave] \<and>
        io_queue (app_session a') = [Leave_Task (goodbye_message ''wamp.error.close_realm'')]"
      using caller_called_sum [of mp res n a1] sum printed queue by (auto simp: s_def a1_def)
  next
    assume failed: "k = After_Call f \<and> received_sum mp s f = Some (Throw e)"
    then obtain v where v: "Option.bind (heap_calls s f) (\<lambda>c. future_get (call_promise c)) = Some v"
      "(case v of Ok res \<Rightarrow> call_result_argument (as_uint64 mp) res 0 | Throw e \<Rightarrow> Throw e
        | Undefined_Behaviour \<Rightarrow> Undefined_Behaviour) = Throw e"
      by (auto simp: received_sum_def)
    then have "caller_called mp v a1 = (Throw e, a1)"
      by (intro caller_called_failed) (cases v; simp)
    with v(1) failed show "continue (caller mp) k a1 = Some (Throw e, a1)"
      by (simp add: continue_call caller_def s_def a1_def)
    have start: "aimless (app_main a = Io_Running) a1"
      using idle one printed queue failed by (simp add: aimless_def a1_def s_def)
    have "aimless (app_main a = Io_Running) c" if "(app_step mp (caller mp))\<^sup>*\<^sup>* a1 c" for c
      using that start by (induction rule: rtranclp_induct) (blast intro: aimless_step)+
    then show "\<forall>c. (app_step mp (caller mp))\<^sup>*\<^sup>* a1 c \<longrightarrow>
        app_printed c = [] \<and> app_waiting c = [] \<and> io_queue (app_session c) = [] \<and>
        (app_main a = Io_Running \<longrightarrow> app_main c = Io_Running \<or> pending_reads (app_session c) = [])"
      by (simp add: aimless_def)
  qed
qed

text \<open>A caller that has received 800; and one whose call is open receives a RESULT without arguments.\<close>

theorem caller_prints_sum_witness:
  "(\<exists>a'. continue (caller calculator_mp) (After_Call 0)
      ((app_run (caller calculator_mp) (app_joins @ [Do_App_Task] @ deliver_app 1))\<lparr>app_waiting := []\<rparr>) =
      Some (Ok (), a') \<and> app_printed a' = [800] \<and> app_waiting a' = [After_Leave]) \<and>
   received_sum calculator_mp (snd (got_message calculator_mp (callbacks (caller calculator_mp))
      (ARRAY (result_fields 1 [] [])) 0
      (app_session (app_run (caller calculator_mp) (app_joins @ [Do_App_Task]))))) 0 = Some (Throw (no_argument 0))"
proof
  let ?a = "app_run (caller calculator_mp) (app_joins @ [Do_App_Task] @ deliver_app 1)"
  have "app_enabled (caller calculator_mp) (app_joins @ [Do_App_Task] @ deliver_app 1)" by code_simp
  then have reach: "app_reachable calculator_mp (caller calculator_mp) ?a" by (rule app_run_reachable)
  have a: "app_waiting ?a = [After_Call 0]" "\<not> future_retrieved (m_session_leave (app_session ?a))"
    "received_sum calculator_mp (app_session ?a) 0 = Some (Ok 800)"
    by code_simp+
  from caller_prints_sum [OF calculator_ok reach a(1), of _ _ 0 _ _ _ _ 800] a(2,3)
  show "\<exists>a'. continue (caller calculator_mp) (After_Call 0) (?a\<lparr>app_waiting := []\<rparr>) = Some (Ok (), a') \<and>
      app_printed a' = [800] \<and> app_waiting a' = [After_Leave]"
    by blast
next
  let ?a = "app_run (caller calculator_mp) (app_joins @ [Do_App_Task])"
  have "app_enabled (caller calculator_mp) (app_joins @ [Do_App_Task])" by code_simp
  then have reach: "app_reachable calculator_mp (caller calculator_mp) ?a" by (rule app_run_reachable)
  have a: "app_waiting ?a = [After_Call 0]" "m_calls (app_session ?a) 1 = Some 0"
    "\<not> ready (After_Call 0) (app_session ?a)"
    by code_simp+
  from caller_prints_sum [OF calculator_ok reach a(1), where r = 1 and f = 0 and payload = "[]" and z = 0 and d = "[]"] a(2,3)
  show "received_sum calculator_mp (snd (got_message calculator_mp (callbacks (caller calculator_mp))
      (ARRAY (result_fields 1 [] [])) 0 (app_session ?a))) 0 = Some (Throw (no_argument 0))"
    by simp
qed

end
