(* ===== verification/Proxy_Caller.thy ===== *)
theory Proxy_Caller
  imports Example_Programs Tcp_Client
begin

text \<open>
  The example program \<open>proxyCaller\<close> (\<open>examples/proxyCaller.cpp\<close>): it calls a procedure of another
  domain through the backplane, with a TCP client.  Its state is the client until \<open>client.reset()\<close>,
  whether the continuation of the launch has not run, the futures of the calls whose continuation has
  not run, the results printed, and the main thread.
\<close>

record proxy_app =
  pa_client :: "tcp_client option"
  pa_launching :: bool
  pa_calls :: "nat list"
  pa_printed :: "u64 list"
  pa_main :: main_state

definition proxy_caller_setup :: "ostream \<Rightarrow> parameters \<Rightarrow> proxy_app" where
  "proxy_caller_setup os params =
     \<lparr>pa_client = Some (snd (launch (new_tcp_client os (m_params_endpoint params) ''default''))),
      pa_launching = True, pa_calls = [], pa_printed = [], pa_main = Io_Running\<rparr>"

definition proxy_caller_main :: "ip_library \<Rightarrow> ostream \<Rightarrow> command_line \<Rightarrow> proxy_app main_outcome" where
  "proxy_caller_main lib os cl =
     (case get_parameters lib cl of
        Ok (Running params) \<Rightarrow> Running (proxy_caller_setup os params)
      | Ok (Exit n) \<Rightarrow> Exit n
      | _ \<Rightarrow> Exit 1)"

definition on_pa_client :: "(tcp_client, 'a) action \<Rightarrow> (proxy_app, 'a) action" where
  "on_pa_client f a =
     (case pa_client a of
        None \<Rightarrow> (Undefined_Behaviour, a)
      | Some c \<Rightarrow> (case f c of (r, c') \<Rightarrow> (r, a\<lparr>pa_client := Some c'\<rparr>)))"

text \<open>The continuation of the launch, which only prints the value of the future, and of the call.\<close>

definition proxy_caller_launched :: "msgpack \<Rightarrow> bool result \<Rightarrow> (proxy_app, unit) action" where
  "proxy_caller_launched mp connected =
     bind_act (lift_result connected) (\<lambda>_.
       bind_act (on_pa_client (on_session (call_args mp False ''uav1/com.examples.calculator.add''
           [POSITIVE_INTEGER 23, POSITIVE_INTEGER 777])))
         (\<lambda>f. update (\<lambda>a. a\<lparr>pa_calls := pa_calls a @ [f]\<rparr>)))"

definition proxy_caller_called :: "msgpack \<Rightarrow> wamp_call_result result \<Rightarrow> (proxy_app, unit) action" where
  "proxy_caller_called mp result =
     bind_act (lift_result result) (\<lambda>res.
       bind_act (lift_result (call_result_argument (as_uint64 mp) res 0)) (\<lambda>n.
         update (\<lambda>a. a\<lparr>pa_printed := pa_printed a @ [n], pa_client := None\<rparr>)))"

definition pa_result :: "unit result \<Rightarrow> proxy_app \<Rightarrow> proxy_app" where
  "pa_result r a = (case r of Throw _ \<Rightarrow> a\<lparr>pa_main := Returning 1\<rparr> | _ \<Rightarrow> a)"

text \<open>
  The io thread completes the connection and reads and runs queued functions; the client's own
  continuations and those of the program run on their threads.  When the main thread has left
  \<open>io->run()\<close> it destroys the futures of the program, then the client with the client's futures.
\<close>

definition pa_idle :: "proxy_app \<Rightarrow> bool" where
  "pa_idle a \<longleftrightarrow> (case pa_client a of
     None \<Rightarrow> True
   | Some c \<Rightarrow> connects_pending c = 0 \<and> io_queue (m_pSession c) = [] \<and> pending_reads (m_pSession c) = [])"

definition pa_waiting :: "proxy_app \<Rightarrow> bool" where
  "pa_waiting a \<longleftrightarrow> pa_launching a \<or> pa_calls a \<noteq> [] \<or> (case pa_client a of
     None \<Rightarrow> False | Some c \<Rightarrow> 0 < start_continuations c + join_continuations c)"

inductive proxy_app_step :: "msgpack \<Rightarrow> proxy_app \<Rightarrow> proxy_app \<Rightarrow> bool" for mp :: msgpack where
  pa_connected: "pa_main a = Io_Running \<Longrightarrow> pa_client a = Some c \<Longrightarrow> connects_pending c = Suc n \<Longrightarrow>
    after_connect ec (c\<lparr>connects_pending := n\<rparr>) = (r, c') \<Longrightarrow>
    proxy_app_step mp a (pa_result r (a\<lparr>pa_client := Some c'\<rparr>))"
| pa_task: "pa_main a = Io_Running \<Longrightarrow> pa_client a = Some c \<Longrightarrow> io_queue (m_pSession c) \<noteq> [] \<Longrightarrow>
    on_session (run_next_task mp) c = (r, c') \<Longrightarrow> r \<noteq> Undefined_Behaviour \<Longrightarrow>
    proxy_app_step mp a (pa_result r (a\<lparr>pa_client := Some c'\<rparr>))"
| pa_read: "pa_main a = Io_Running \<Longrightarrow> pa_client a = Some c \<Longrightarrow> pending_reads (m_pSession c) = op # ops \<Longrightarrow>
    read_fits (m_pSession c) op outcome \<Longrightarrow>
    on_session (complete_read mp silent_user outcome) c = (r, c') \<Longrightarrow> r \<noteq> Undefined_Behaviour \<Longrightarrow>
    proxy_app_step mp a (pa_result r (a\<lparr>pa_client := Some c'\<rparr>))"
| pa_started: "pa_client a = Some c \<Longrightarrow> start_continuations c = Suc n \<Longrightarrow>
    satisfied (m_handshake (m_pSession c)) \<Longrightarrow>
    after_start mp False (c\<lparr>start_continuations := n\<rparr>) = (r, c') \<Longrightarrow>
    proxy_app_step mp a (a\<lparr>pa_client := Some c'\<rparr>)"
| pa_joined: "pa_client a = Some c \<Longrightarrow> join_continuations c = Suc n \<Longrightarrow>
    satisfied (m_session_join (m_pSession c)) \<Longrightarrow>
    after_join (c\<lparr>join_continuations := n\<rparr>) = (r, c') \<Longrightarrow>
    proxy_app_step mp a (a\<lparr>pa_client := Some c'\<rparr>)"
| pa_launched: "pa_launching a \<Longrightarrow> pa_client a = Some c \<Longrightarrow> future_get (m_connected c) = Some connected \<Longrightarrow>
    proxy_caller_launched mp connected (a\<lparr>pa_launching := False\<rparr>) = (r, a') \<Longrightarrow> proxy_app_step mp a a'"
| pa_called: "f \<in> set (pa_calls a) \<Longrightarrow> pa_client a = Some c \<Longrightarrow> heap_calls (m_pSession c) f = Some w \<Longrightarrow>
    future_get (call_promise w) = Some result \<Longrightarrow>
    proxy_caller_called mp result (a\<lparr>pa_calls := remove1 f (pa_calls a)\<rparr>) = (r, a') \<Longrightarrow>
    proxy_app_step mp a a'"
| pa_out_of_work: "pa_main a = Io_Running \<Longrightarrow> pa_idle a \<Longrightarrow> proxy_app_step mp a (a\<lparr>pa_main := Returning 0\<rparr>)"
| pa_return: "pa_main a = Returning n \<Longrightarrow> \<not> pa_waiting a \<Longrightarrow> proxy_app_step mp a (a\<lparr>pa_main := Returned n\<rparr>)"

section \<open>A connection that fails\<close>

text \<open>The client after its connection has failed, and the state of the program then.\<close>

definition refused :: "io_error \<Rightarrow> ostream \<Rightarrow> parameters \<Rightarrow> proxy_app" where
  "refused e os params =
     snd (on_pa_client (\<lambda>c. after_connect (Some e) (c\<lparr>connects_pending := 0\<rparr>))
       (proxy_caller_setup os params))"

text \<open>
  What becomes of the program then.  Nothing is sent or printed.  Until the continuation of the launch
  has run there is no call.  Then its function is queued, as long as the main thread is in
  \<open>io->run()\<close> or after it has left it for lack of work; when it runs it throws, and with it goes the
  promise of the call; and then the continuation of the call may run.
\<close>

definition call_refused :: "ostream \<Rightarrow> proxy_app \<Rightarrow> bool" where
  "call_refused os a \<longleftrightarrow> pa_printed a = [] \<and>
     (\<exists>c s. pa_client a = Some c \<and> s = m_pSession c \<and> connects_pending c = 0 \<and>
        start_continuations c = 0 \<and> join_continuations c = 0 \<and> alive s \<and> m_out s = os \<and>
        m_session_id s = 0 \<and> pending_reads s = [] \<and> shared_state (m_connected c) = Has_Value False \<and>
        (if pa_launching a
         then pa_calls a = [] \<and> io_queue s = [] \<and> pa_main a \<in> {Io_Running, Returning 0}
         else (\<exists>r f b w. pa_calls a = [f] \<and> io_queue s = [Call_Task r f b] \<and> heap_calls s f = Some w \<and>
                 shared_state (call_promise w) = Pending \<and> pa_main a \<in> {Io_Running, Returning 0}) \<or>
              (\<exists>f w. pa_calls a = [f] \<and> io_queue s = [] \<and> heap_calls s f = Some w \<and>
                 shared_state (call_promise w) = Has_Exception (Library_Error Broken_Promise) \<and>
                 pa_main a = Returning 1) \<or>
              pa_calls a = [] \<and> io_queue s = [] \<and> pa_main a \<in> {Returning 1, Returned 1}))"

lemma refused_start: "call_refused os (refused e os params)" "pa_launching (refused e os params)"
  by (simp_all add: refused_def proxy_caller_setup_def on_pa_client_def launch_def action_defs on_connected_def
      get_future_def new_tcp_client_def init_client_def new_promise_def after_connect_def set_value_cases
      call_refused_def satisfied_def new_session_def)

lemma refused_launched:
  assumes "call_refused os a" and "pa_launching a" and "pa_client a = Some c"
    and "future_get (m_connected c) = Some connected"
    and "proxy_caller_launched mp connected (a\<lparr>pa_launching := False\<rparr>) = (r, a')"
  shows "call_refused os a' \<and> \<not> pa_launching a' \<and> pa_main a' = pa_main a \<and> pa_calls a' \<noteq> []"
  using assms
  by (auto simp: call_refused_def future_get_def proxy_caller_launched_def action_defs on_pa_client_def
      on_session_def call_args_def next_request_id_def alloc_call_def io_dispatch_def new_call_def
      new_promise_def)

text \<open>The refused function: the exception leaves \<open>io->run()\<close>, and the promise breaks.\<close>

lemma refused_task:
  assumes "call_refused os a" and "pa_client a = Some c" and "io_queue (m_pSession c) \<noteq> []"
    and "on_session (run_next_task mp) c = (r, c')" and "pa_main a = Io_Running"
  shows "call_refused os (pa_result r (a\<lparr>pa_client := Some c'\<rparr>))"
    and "pa_main (pa_result r (a\<lparr>pa_client := Some c'\<rparr>)) = Returning 1" and "r \<noteq> Undefined_Behaviour"
proof -
  let ?s = "m_pSession c"
  obtain q f b w where a: "pa_calls a = [f]" "\<not> pa_launching a" "io_queue ?s = [Call_Task q f b]"
    "heap_calls ?s f = Some w" "shared_state (call_promise w) = Pending" "alive ?s" "m_session_id ?s = 0"
    using assms(1-3,5) by (auto simp: call_refused_def split: if_splits)
  then have "run_next_task mp ?s = (Throw No_Session_Error, release_call f (?s\<lparr>io_queue := []\<rparr>))"
    by (simp add: run_next_task_def call_task_def)
  then have rc: "r = Throw No_Session_Error" "c' = c\<lparr>m_pSession := release_call f (?s\<lparr>io_queue := []\<rparr>)\<rparr>"
    using assms(4) by (simp_all add: on_session_def)
  from a rc assms(1,2) show "call_refused os (pa_result r (a\<lparr>pa_client := Some c'\<rparr>))"
    by (auto simp: call_refused_def pa_result_def release_call_def destroy_call_def abandon_def)
  show "pa_main (pa_result r (a\<lparr>pa_client := Some c'\<rparr>)) = Returning 1" "r \<noteq> Undefined_Behaviour"
    by (simp_all add: rc pa_result_def)
qed

lemma refused_called:
  assumes "call_refused os a" and "f \<in> set (pa_calls a)" and "pa_client a = Some c"
    and "heap_calls (m_pSession c) f = Some w" and "future_get (call_promise w) = Some result"
    and "proxy_caller_called mp result (a\<lparr>pa_calls := remove1 f (pa_calls a)\<rparr>) = (r, a')"
  shows "call_refused os a' \<and> \<not> pa_launching a' \<and> pa_main a' = Returning 1 \<and> pa_calls a' = []"
  using assms
  by (auto simp: call_refused_def future_get_def proxy_caller_called_def action_defs split: if_splits)

lemma refused_step:
  "proxy_app_step mp a a' \<Longrightarrow> call_refused os a \<Longrightarrow>
     call_refused os a' \<and> (pa_main a = Returning 0 \<longrightarrow> pa_main a' = Returning 0)"
proof (induction rule: proxy_app_step.induct)
  case (pa_task a c r c')
  then show ?case using refused_task(1) by simp
next
  case (pa_launched a c connected r a')
  then show ?case using refused_launched by metis
next
  case (pa_called f a c w result r a')
  then have "pa_main a = Returning 1"
    by (auto simp: call_refused_def future_get_def split: if_splits)
  then show ?case using refused_called [OF pa_called.prems pa_called.hyps] by simp
next
  case (pa_return a n)
  then show ?case by (auto simp: call_refused_def pa_waiting_def split: if_splits)
next
  case (pa_out_of_work a)
  then show ?case by (auto simp: call_refused_def pa_idle_def split: if_splits)
qed (auto simp: call_refused_def)

text \<open>The way to the end, from each stage.\<close>

lemma refused_end:
  assumes "call_refused os a" and "pa_main a = Returning 1" and "pa_calls a = []" and "\<not> pa_launching a"
  shows "proxy_app_step mp a (a\<lparr>pa_main := Returned 1\<rparr>)"
  by (rule pa_return [OF assms(2)]) (use assms in \<open>auto simp: pa_waiting_def call_refused_def\<close>)

lemma refused_broken:
  assumes "call_refused os a" and "pa_main a = Returning 1" and "\<not> pa_launching a"
  shows "\<exists>b. (proxy_app_step mp)\<^sup>*\<^sup>* a b \<and> pa_main b = Returned 1"
proof (cases "pa_calls a = []")
  case True
  then show ?thesis using refused_end [OF assms(1,2) _ assms(3)] by (intro exI [of _ "a\<lparr>pa_main := Returned 1\<rparr>"]) (simp add: r_into_rtranclp)
next
  case False
  then obtain c f w where c: "f \<in> set (pa_calls a)" "pa_client a = Some c" "heap_calls (m_pSession c) f = Some w"
    "future_get (call_promise w) = Some (Throw (Library_Error Broken_Promise))"
    using assms by (auto simp: call_refused_def future_get_def)
  obtain r a' where called: "proxy_caller_called mp (Throw (Library_Error Broken_Promise))
      (a\<lparr>pa_calls := remove1 f (pa_calls a)\<rparr>) = (r, a')" by fastforce
  have a': "call_refused os a'" "\<not> pa_launching a'" "pa_main a' = Returning 1" "pa_calls a' = []"
    using refused_called [OF assms(1) c called] by blast+
  have "proxy_app_step mp a a'" by (rule pa_called [OF c called])
  moreover have "proxy_app_step mp a' (a'\<lparr>pa_main := Returned 1\<rparr>)"
    by (rule refused_end [OF a'(1,3,4,2)])
  ultimately show ?thesis by (intro exI [of _ "a'\<lparr>pa_main := Returned 1\<rparr>"]) simp
qed

lemma refused_queued:
  assumes "call_refused os a" and "pa_main a = Io_Running" and "\<not> pa_launching a"
  shows "\<exists>b. (proxy_app_step mp)\<^sup>*\<^sup>* a b \<and> pa_main b = Returned 1"
proof -
  obtain c where c: "pa_client a = Some c" "io_queue (m_pSession c) \<noteq> []"
    using assms by (auto simp: call_refused_def)
  obtain r c' where run: "on_session (run_next_task mp) c = (r, c')" by fastforce
  let ?a = "pa_result r (a\<lparr>pa_client := Some c'\<rparr>)"
  note task = refused_task [OF assms(1) c run assms(2)]
  have "\<not> pa_launching ?a" using assms(3) by (simp add: pa_result_def split: result.split)
  then obtain b where "(proxy_app_step mp)\<^sup>*\<^sup>* ?a b" "pa_main b = Returned 1"
    using refused_broken [OF task(1,2)] by blast
  moreover have "proxy_app_step mp a ?a" by (rule pa_task [OF assms(2) c run task(3)])
  ultimately show ?thesis by (blast intro: converse_rtranclp_into_rtranclp)
qed

lemma refused_running:
  assumes "call_refused os a" and "pa_main a = Io_Running"
  shows "\<exists>b. (proxy_app_step mp)\<^sup>*\<^sup>* a b \<and> pa_main b = Returned 1"
proof (cases "pa_launching a")
  case True
  then obtain c where c: "pa_client a = Some c" "future_get (m_connected c) = Some (Ok False)"
    using assms(1) by (auto simp: call_refused_def future_get_def)
  obtain r a' where launched: "proxy_caller_launched mp (Ok False) (a\<lparr>pa_launching := False\<rparr>) = (r, a')"
    by fastforce
  have "call_refused os a'" "\<not> pa_launching a'" "pa_main a' = Io_Running"
    using refused_launched [OF assms(1) True c launched] assms(2) by simp_all
  then obtain b where "(proxy_app_step mp)\<^sup>*\<^sup>* a' b" "pa_main b = Returned 1"
    using refused_queued by blast
  moreover have "proxy_app_step mp a a'" by (rule pa_launched [OF True c launched])
  ultimately show ?thesis by (blast intro: converse_rtranclp_into_rtranclp)
qed (rule refused_queued [OF assms])

text \<open>C38: A proxy caller whose connection fails.  The continuation of the launch does not look at whether the
  connection succeeded: it calls in any case.  In every state the program then reaches it has sent and
  printed nothing, and it never returns 0.  Everything depends on a race.  When the queued function of
  the call runs, it is refused: the exception leaves \<open>io->run()\<close>, the promise of the call breaks, its
  continuation fails with \<open>broken_promise\<close> and \<open>main\<close> returns 1; from every state in which the main
  thread is in \<open>io->run()\<close>, or has left it by that exception, this is what can still happen.  When the
  main thread has left \<open>io->run()\<close> for lack of work before, \<open>main\<close> never returns: it waits for the
  continuation of a call that no thread will run.\<close>

theorem refused_caller_fate:
  assumes "(proxy_app_step mp)\<^sup>*\<^sup>* (refused e os params) a"
  shows "pa_printed a = [] \<and> (\<exists>c. pa_client a = Some c \<and> m_out (m_pSession c) = os) \<and>
    (\<forall>n. pa_main a = Returned n \<longrightarrow> n = 1) \<and>
    (pa_main a = Io_Running \<or> pa_main a = Returning 1 \<longrightarrow>
      (\<exists>b. (proxy_app_step mp)\<^sup>*\<^sup>* a b \<and> pa_main b = Returned 1)) \<and>
    (pa_main a = Returning 0 \<longrightarrow> (\<forall>b. (proxy_app_step mp)\<^sup>*\<^sup>* a b \<longrightarrow> pa_main b = Returning 0))"
proof -
  have a: "call_refused os a"
    using assms refused_start(1) by (induction rule: rtranclp_induct) (metis refused_step)+
  have "call_refused os b \<and> pa_main b = Returning 0"
    if "(proxy_app_step mp)\<^sup>*\<^sup>* a b" "pa_main a = Returning 0" for b
    using that a by (induction rule: rtranclp_induct) (metis refused_step)+
  moreover have "\<not> pa_launching a" if "pa_main a = Returning 1"
    using a that by (auto simp: call_refused_def split: if_splits)
  moreover have "\<forall>n. pa_main a = Returned n \<longrightarrow> n = 1"
    using a by (auto simp: call_refused_def split: if_splits)
  ultimately show ?thesis
    using a refused_running refused_broken by (auto simp: call_refused_def)
qed

text \<open>Both ways: the call is run and refused, or the main thread is faster.\<close>

theorem refused_caller_fate_witness:
  "\<exists>a b. (proxy_app_step demo_mp)\<^sup>*\<^sup>* (refused (Io_Error 111) healthy new_parameters) a \<and>
     pa_main a = Returning 0 \<and> (\<forall>c. \<not> (proxy_app_step demo_mp)\<^sup>*\<^sup>* a c \<or> pa_main c = Returning 0) \<and>
     (proxy_app_step demo_mp)\<^sup>*\<^sup>* (refused (Io_Error 111) healthy new_parameters) b \<and> pa_main b = Returned 1"
proof -
  let ?a = "refused (Io_Error 111) healthy new_parameters"
  have "pa_main ?a = Io_Running" "pa_idle ?a" by code_simp+
  then have "proxy_app_step demo_mp ?a (?a\<lparr>pa_main := Returning 0\<rparr>)" by (rule pa_out_of_work)
  then have steps: "(proxy_app_step demo_mp)\<^sup>*\<^sup>* ?a (?a\<lparr>pa_main := Returning 0\<rparr>)" ..
  obtain b where "(proxy_app_step demo_mp)\<^sup>*\<^sup>* ?a b" "pa_main b = Returned 1"
    using refused_caller_fate [where mp = demo_mp, OF rtranclp.rtrancl_refl]
      \<open>pa_main ?a = Io_Running\<close> by blast
  with refused_caller_fate [OF steps] steps show ?thesis
    by (intro exI [of _ "?a\<lparr>pa_main := Returning 0\<rparr>"] exI [of _ b]) auto
qed

end
