(* ===== verification/Future_Tests.thy ===== *)
theory Future_Tests
  imports Promise
begin

text \<open>
  The two test programs of \<open>test/\<close>, which try out Boost futures.  \<open>test_future_with_asio.cpp\<close> is a
  service that answers each request after a delay, from a timer of the io thread;
  \<open>test_when_all.cpp\<close> chains two asynchronous computations.  Multiplication of \<open>float\<close> values is a
  parameter.
\<close>

section \<open>The service\<close>

text \<open>
  A promise and its future share a state, which outlives the promise; \<open>shared\<close> holds these states.
  \<open>timers\<close> are the outstanding waits: the time they are due, and what the handler captured by value,
  the call id and the argument.  It also captures \<open>this\<close>, so \<open>m_call_id\<close> is read when it runs.
  \<open>printed\<close> are the pairs of ids it writes.
\<close>

record Call =
  m_timer :: "nat option"
  m_promise :: nat

record 'f rpcsvc =
  m_call_id :: int
  m_calls :: "int \<rightharpoonup> Call"
  shared :: "nat \<rightharpoonup> 'f promise"
  next_shared :: nat
  timers :: "(nat \<times> int \<times> 'f) list"
  now :: nat
  printed :: "(int \<times> int) list"

definition new_rpcsvc :: "'f rpcsvc" where
  "new_rpcsvc = \<lparr>m_call_id = 0, m_calls = Map.empty, shared = Map.empty, next_shared = 0, timers = [],
     now = 0, printed = []\<rparr>"

definition INT_MAX :: int where
  "INT_MAX = 2 ^ 31 - 1"

definition new_Call :: "('f rpcsvc, Call) action" where
  "new_Call r = (Ok \<lparr>m_timer = None, m_promise = next_shared r\<rparr>,
     r\<lparr>shared := (shared r)(next_shared r \<mapsto> new_promise), next_shared := Suc (next_shared r)\<rparr>)"

text \<open>\<open>m_calls[i]\<close>, which inserts a new entry when there is none.\<close>

definition call_at :: "int \<Rightarrow> ('f rpcsvc, Call) action" where
  "call_at i = with_state (\<lambda>r. case m_calls r i of
     Some c \<Rightarrow> ret c
   | None \<Rightarrow> bind_act new_Call (\<lambda>c. and_then (update (\<lambda>r. r\<lparr>m_calls := (m_calls r)(i \<mapsto> c)\<rparr>)) (ret c)))"

definition on_shared :: "nat \<Rightarrow> ('f promise, 'a) action \<Rightarrow> ('f rpcsvc, 'a) action" where
  "on_shared p f r =
     (case shared r p of
        None \<Rightarrow> (Undefined_Behaviour, r)
      | Some s \<Rightarrow> (case f s of (v, s') \<Rightarrow> (v, r\<lparr>shared := (shared r)(p \<mapsto> s')\<rparr>)))"

text \<open>The result is the address of the state the future shares.  Overflow of \<open>int\<close> is undefined.\<close>

definition slowsquare :: "'f \<Rightarrow> nat \<Rightarrow> ('f rpcsvc, nat) action" where
  "slowsquare x delay =
     with_state (\<lambda>r. if m_call_id r = INT_MAX then lift_result Undefined_Behaviour else
       and_then (update (\<lambda>r. r\<lparr>m_call_id := m_call_id r + 1\<rparr>))
      (and_then (bind_act new_Call (\<lambda>c. update (\<lambda>r. r\<lparr>m_calls := (m_calls r)(m_call_id r \<mapsto> c)\<rparr>)))
      (with_state (\<lambda>r. bind_act (call_at (m_call_id r)) (\<lambda>c.
       and_then (update (\<lambda>r. r\<lparr>m_calls := (m_calls r)(m_call_id r \<mapsto> c\<lparr>m_timer := Some (now r + delay)\<rparr>),
                   timers := timers r @ [(now r + delay, m_call_id r, x)]\<rparr>))
         (and_then (on_shared (m_promise c) get_future) (ret (m_promise c))))))))"

text \<open>The handler of the timer, with the error code it completes with.\<close>

definition on_timer :: "('f \<Rightarrow> 'f \<Rightarrow> 'f) \<Rightarrow> int \<Rightarrow> 'f \<Rightarrow> bool \<Rightarrow> ('f rpcsvc, unit) action" where
  "on_timer mult call_id x ec =
     (if \<not> ec then
        and_then (update (\<lambda>r. r\<lparr>printed := printed r @ [(m_call_id r, call_id)]\<rparr>))
          (bind_act (call_at call_id) (\<lambda>c.
             and_then (on_shared (m_promise c) (set_value (mult x x)))
               (update (\<lambda>r. r\<lparr>m_calls := map_erase (m_calls r) call_id\<rparr>))))
      else ret ())"

text \<open>
  \<open>io.run()\<close> runs the handlers of the timers as they fall due; of timers due at the same time any
  may be the first.
\<close>

inductive expires :: "('f \<Rightarrow> 'f \<Rightarrow> 'f) \<Rightarrow> 'f rpcsvc \<Rightarrow> 'f rpcsvc \<Rightarrow> bool" for mult where
  expires: "(due, i, x) \<in> set (timers r) \<Longrightarrow> \<forall>t \<in> set (timers r). due \<le> fst t \<Longrightarrow>
    on_timer mult i x False (r\<lparr>timers := remove1 (due, i, x) (timers r), now := max (now r) due\<rparr>) = (v, r') \<Longrightarrow>
    expires mult r r'"

text \<open>The two requests of \<open>main\<close>; their continuations only print the result of their future.\<close>

definition rpc_main :: "'f \<Rightarrow> 'f \<Rightarrow> ('f rpcsvc, nat \<times> nat) action" where
  "rpc_main two four =
     bind_act (slowsquare two 2) (\<lambda>f1. bind_act (slowsquare four 1) (\<lambda>f3. ret (f1, f3)))"

section \<open>What it promises\<close>

text \<open>
  A state in which the requests \<open>qs\<close> have been made, each an argument and the time it is due; request
  \<open>i\<close> has the future \<open>i - 1\<close>.  The entries are those of the waiting timers, the future of a waiting
  request is pending, and every other one has the square.
\<close>

definition waiting_ids :: "'f rpcsvc \<Rightarrow> int set" where
  "waiting_ids r = set (map (fst \<circ> snd) (timers r))"

definition rpc_ok :: "('f \<Rightarrow> 'f \<Rightarrow> 'f) \<Rightarrow> ('f \<times> nat) list \<Rightarrow> 'f rpcsvc \<Rightarrow> bool" where
  "rpc_ok mult qs r \<longleftrightarrow>
     m_call_id r = int (length qs) \<and> next_shared r = length qs \<and>
     distinct (map (fst \<circ> snd) (timers r)) \<and>
     (\<forall>t \<in> set (timers r). \<exists>p < length qs. fst (snd t) = int p + 1 \<and> qs ! p = (snd (snd t), fst t)) \<and>
     dom (m_calls r) = waiting_ids r \<and> (\<forall>i c. m_calls r i = Some c \<longrightarrow> m_promise c = nat (i - 1)) \<and>
     (\<forall>p < length qs. \<exists>s. shared r p = Some s \<and>
        shared_state s = (if int p + 1 \<in> waiting_ids r then Pending
                          else Has_Value (mult (fst (qs ! p)) (fst (qs ! p)))))"

lemma rpc_ok_new: "rpc_ok mult [] new_rpcsvc"
  by (simp add: rpc_ok_def new_rpcsvc_def waiting_ids_def)

lemma waiting_id_bounds:
  assumes "rpc_ok mult qs r" and "i \<in> waiting_ids r"
  shows "0 < i" and "i \<le> int (length qs)"
proof -
  obtain p where "p < length qs" "i = int p + 1"
    using assms unfolding rpc_ok_def waiting_ids_def by fastforce
  then show "0 < i" "i \<le> int (length qs)" by simp_all
qed

lemma slowsquare_effect:
  assumes "m_call_id r < INT_MAX"
  shows "slowsquare x delay r = (Ok (next_shared r), r\<lparr>m_call_id := m_call_id r + 1,
    m_calls := (m_calls r)(m_call_id r + 1 \<mapsto> \<lparr>m_timer = Some (now r + delay), m_promise = next_shared r\<rparr>),
    shared := (shared r)(next_shared r \<mapsto> new_promise\<lparr>future_retrieved := True\<rparr>),
    next_shared := Suc (next_shared r),
    timers := timers r @ [(now r + delay, m_call_id r + 1, x)]\<rparr>)"
  using assms by (simp add: slowsquare_def action_defs new_Call_def call_at_def on_shared_def get_future_def)

lemma slowsquare_ok:
  assumes "rpc_ok mult qs r" and "int (length qs) < INT_MAX"
  shows "\<exists>r'. slowsquare x delay r = (Ok (length qs), r') \<and> rpc_ok mult (qs @ [(x, now r + delay)]) r' \<and>
    now r' = now r \<and> printed r' = printed r \<and> length (timers r') = Suc (length (timers r))"
proof -
  have id: "m_call_id r = int (length qs)" "next_shared r = length qs"
    using assms(1) by (simp_all add: rpc_ok_def)
  have new: "int (length qs) + 1 \<notin> waiting_ids r"
    using waiting_id_bounds(2) [OF assms(1), of "int (length qs) + 1"] by auto
  let ?r = "snd (slowsquare x delay r)"
  note effect = slowsquare_effect [of r x delay, unfolded id, OF assms(2)]
  have "waiting_ids ?r = insert (int (length qs) + 1) (waiting_ids r)"
    by (simp add: effect waiting_ids_def)
  then have "rpc_ok mult (qs @ [(x, now r + delay)]) ?r"
    using assms(1) new
    by (auto simp: rpc_ok_def effect nth_append less_Suc_eq waiting_ids_def [symmetric] simp del: set_map)
  then show ?thesis by (simp add: effect)
qed

text \<open>Any requests, made one after the other; the result are their futures.\<close>

fun request_all :: "('f \<times> nat) list \<Rightarrow> ('f rpcsvc, nat list) action" where
  "request_all [] = ret []"
| "request_all ((x, delay) # qs) =
     bind_act (slowsquare x delay) (\<lambda>f. bind_act (request_all qs) (\<lambda>fs. ret (f # fs)))"

lemma request_all_ok:
  assumes "rpc_ok mult qs r" and "now r = 0" and "printed r = []"
    and "int (length qs + length rs) \<le> INT_MAX"
  shows "\<exists>r'. request_all rs r = (Ok [length qs ..< length qs + length rs], r') \<and> rpc_ok mult (qs @ rs) r' \<and>
    now r' = 0 \<and> printed r' = [] \<and> length (timers r') = length (timers r) + length rs"
  using assms
proof (induction rs arbitrary: qs r)
  case Nil
  then show ?case by (simp add: ret_def)
next
  case (Cons q rs)
  obtain x delay where q: "q = (x, delay)" by (cases q)
  obtain r1 where r1: "slowsquare x delay r = (Ok (length qs), r1)" "rpc_ok mult (qs @ [q]) r1"
    "now r1 = 0" "printed r1 = []" "length (timers r1) = Suc (length (timers r))"
    using slowsquare_ok [OF Cons.prems(1), of x delay] Cons.prems by (auto simp: q)
  obtain r2 where "request_all rs r1 = (Ok [Suc (length qs) ..< Suc (length qs + length rs)], r2)"
    "rpc_ok mult (qs @ q # rs) r2" "now r2 = 0" "printed r2 = []"
    "length (timers r2) = length (timers r1) + length rs"
    using Cons.IH [OF r1(2-4)] Cons.prems(4) by auto
  with r1 show ?case
    by (simp add: q action_defs upt_conv_Cons del: upt_Suc)
qed

lemma remove1_distinct:
  assumes "distinct (map f xs)" and "x \<in> set xs"
  shows "set (map f (remove1 x xs)) = set (map f xs) - {f x}" and "distinct (map f (remove1 x xs))"
    and "set (remove1 x xs) \<subseteq> set xs" and "Suc (length (remove1 x xs)) = length xs"
  using assms set_remove1_eq [of xs x] length_pos_if_in_set [OF assms(2)]
  by (auto simp: distinct_map inj_on_def length_remove1)

lemma expiry_ok:
  assumes "rpc_ok mult qs r" and "(due, i, x) \<in> set (timers r)"
  defines "r1 \<equiv> r\<lparr>timers := remove1 (due, i, x) (timers r), now := max (now r) due\<rparr>"
  shows "\<exists>r'. on_timer mult i x False r1 = (Ok (), r') \<and> rpc_ok mult qs r' \<and> timers r' = timers r1 \<and>
    now r' = now r1 \<and> printed r' = printed r @ [(int (length qs), i)] \<and> snd (qs ! nat (i - 1)) = due"
proof -
  obtain p where p: "p < length qs" "i = int p + 1" "qs ! p = (x, due)"
    using assms(1,2) by (force simp: rpc_ok_def)
  have waits: "i \<in> waiting_ids r" using assms(2) by (force simp: waiting_ids_def)
  then obtain c where c: "m_calls r i = Some c" "m_promise c = p"
    using assms(1) p(2) unfolding rpc_ok_def by (metis domIff option.exhaust nat_int add_diff_cancel_right')
  obtain s where s: "shared r p = Some s" "shared_state s = Pending"
    using assms(1) p(1,2) waits unfolding rpc_ok_def by metis
  let ?r = "r1\<lparr>printed := printed r @ [(int (length qs), i)],
    shared := (shared r)(p \<mapsto> s\<lparr>shared_state := Has_Value (mult x x)\<rparr>), m_calls := map_erase (m_calls r) i\<rparr>"
  have "on_timer mult i x False r1 = (Ok (), ?r)"
    using assms(1) c s
    by (simp add: on_timer_def r1_def action_defs call_at_def on_shared_def set_value_def rpc_ok_def)
  moreover have "waiting_ids ?r = waiting_ids r - {i}" "distinct (map (fst \<circ> snd) (timers ?r))"
    "set (timers ?r) \<subseteq> set (timers r)"
    using remove1_distinct [OF _ assms(2), of "fst \<circ> snd"] assms(1)
    by (simp_all add: waiting_ids_def r1_def rpc_ok_def)
  then have "rpc_ok mult qs ?r"
    using assms(1) p by (auto simp: rpc_ok_def r1_def)
  ultimately show ?thesis using p by (intro exI [of _ ?r]) simp
qed

text \<open>After \<open>k\<close> expiries: the answered requests, in the order they were answered, and when they were due.\<close>

definition answered_dues :: "('f \<times> nat) list \<Rightarrow> 'f rpcsvc \<Rightarrow> nat list" where
  "answered_dues qs r = map (\<lambda>(c, i). snd (qs ! nat (i - 1))) (printed r)"

definition run_ok :: "('f \<Rightarrow> 'f \<Rightarrow> 'f) \<Rightarrow> ('f \<times> nat) list \<Rightarrow> nat \<Rightarrow> 'f rpcsvc \<Rightarrow> bool" where
  "run_ok mult qs k r \<longleftrightarrow> rpc_ok mult qs r \<and> k + length (timers r) = length qs \<and> length (printed r) = k \<and>
     sorted (answered_dues qs r) \<and> (\<forall>d \<in> set (answered_dues qs r). d \<le> now r) \<and>
     (\<forall>t \<in> set (timers r). now r \<le> fst t) \<and> (\<forall>c \<in> fst ` set (printed r). c = int (length qs))"

lemma expires_run_ok:
  assumes "run_ok mult qs k r" and "expires mult r r'"
  shows "run_ok mult qs (Suc k) r'"
  using assms(2)
proof cases
  case (expires due i x v)
  have ok: "rpc_ok mult qs r" using assms(1) by (simp add: run_ok_def)
  then have "distinct (map (fst \<circ> snd) (timers r))" by (simp add: rpc_ok_def)
  note removed = remove1_distinct [OF this expires(1)]
  have "now r \<le> due" using assms(1) expires(1) by (force simp: run_ok_def)
  then have now: "max (now r) due = due" by simp
  obtain r'' where "on_timer mult i x False
      (r\<lparr>timers := remove1 (due, i, x) (timers r), now := max (now r) due\<rparr>) = (Ok (), r'')"
    and after: "rpc_ok mult qs r''" "timers r'' = remove1 (due, i, x) (timers r)" "now r'' = due"
      "printed r'' = printed r @ [(int (length qs), i)]" "snd (qs ! nat (i - 1)) = due"
    using expiry_ok [OF ok expires(1)] by (auto simp: now)
  then have "r' = r''" using expires(3) by simp
  moreover have "answered_dues qs r'' = answered_dues qs r @ [due]"
    using after by (simp add: answered_dues_def)
  moreover have "\<forall>d \<in> set (answered_dues qs r). d \<le> due"
    using assms(1) \<open>now r \<le> due\<close> by (force simp: run_ok_def)
  ultimately show ?thesis
    using assms(1) after expires(2) removed(3,4) by (auto simp: run_ok_def sorted_append)
qed

lemma run_goes_on:
  assumes "run_ok mult qs k r"
  shows "(\<exists>r'. expires mult r r') \<longleftrightarrow> k < length qs"
proof
  assume "\<exists>r'. expires mult r r'"
  then obtain t where "t \<in> set (timers r)" by (auto elim: expires.cases)
  then show "k < length qs" using assms by (cases "timers r") (auto simp: run_ok_def)
next
  assume "k < length qs"
  then have "timers r \<noteq> []" using assms by (auto simp: run_ok_def)
  then obtain t where "t \<in> set (timers r)" "\<forall>t' \<in> set (timers r). fst t \<le> fst t'"
    by (metis arg_min_if_finite(1) arg_min_least finite_set set_empty)
  moreover obtain due i x where "t = (due, i, x)" by (rule prod_cases3)
  ultimately show "\<exists>r'. expires mult r r'"
    using expires.intros [of due i x r mult, OF _ _ surjective_pairing] by auto
qed

text \<open>C39: The service of the asio test.  Requests made before \<open>io.run()\<close> get one future each.  Every run of the
  timers ends, after exactly one expiry for each request; they are answered in the order of their
  delays; and in the end every future has the square of its argument and no entry is left.  Every
  handler reads the id of the last request where its own was expected.\<close>

theorem service_answers_all:
  assumes "int (length qs) \<le> INT_MAX"
  shows "\<exists>r0. request_all qs new_rpcsvc = (Ok [0 ..< length qs], r0) \<and>
    (\<forall>k r. (expires mult ^^ k) r0 r \<longrightarrow>
      k \<le> length qs \<and> ((\<exists>r'. expires mult r r') \<longleftrightarrow> k < length qs) \<and> length (printed r) = k \<and>
      sorted (answered_dues qs r) \<and> (\<forall>c \<in> fst ` set (printed r). c = int (length qs)) \<and>
      (k = length qs \<longrightarrow> m_calls r = Map.empty \<and>
        (\<forall>p < length qs. \<exists>s. shared r p = Some s \<and>
          shared_state s = Has_Value (mult (fst (qs ! p)) (fst (qs ! p))))))"
proof -
  obtain r0 where r0: "request_all qs new_rpcsvc = (Ok [0 ..< length qs], r0)" "rpc_ok mult qs r0"
    "now r0 = 0" "printed r0 = []" "length (timers r0) = length qs"
    using request_all_ok [OF rpc_ok_new, of qs mult] assms by (auto simp: new_rpcsvc_def)
  then have start: "run_ok mult qs 0 r0" by (simp add: run_ok_def answered_dues_def)
  have run: "run_ok mult qs k r" if "(expires mult ^^ k) r0 r" for k r
    using that by (induction k arbitrary: r) (auto simp: start intro: expires_run_ok)
  have "k \<le> length qs \<and> ((\<exists>r'. expires mult r r') \<longleftrightarrow> k < length qs) \<and> length (printed r) = k \<and>
      sorted (answered_dues qs r) \<and> (\<forall>c \<in> fst ` set (printed r). c = int (length qs)) \<and>
      (k = length qs \<longrightarrow> m_calls r = Map.empty \<and>
        (\<forall>p < length qs. \<exists>s. shared r p = Some s \<and>
          shared_state s = Has_Value (mult (fst (qs ! p)) (fst (qs ! p)))))"
    if "(expires mult ^^ k) r0 r" for k r
    using run [OF that] unfolding run_goes_on [OF run [OF that]]
    by (auto simp: run_ok_def rpc_ok_def waiting_ids_def)
  with r0(1) show ?thesis by blast
qed

lemma rpc_main_requests:
  "rpc_main two four = bind_act (request_all [(two, 2), (four, 1)]) (\<lambda>fs. ret (fs ! 0, fs ! 1))"
  by (rule ext) (auto simp: rpc_main_def action_defs split: prod.splits result.splits)

text \<open>The two requests of the program, over the natural numbers.\<close>

theorem service_answers_all_witness:
  "\<exists>r0 r. request_all [(2 :: nat, 2), (4, 1)] new_rpcsvc = (Ok [0, 1], r0) \<and> (expires (*) ^^ 2) r0 r \<and>
    m_calls r = Map.empty \<and> (\<exists>s. shared r 0 = Some s \<and> shared_state s = Has_Value 4) \<and>
    (\<exists>s. shared r 1 = Some s \<and> shared_state s = Has_Value 16)"
proof -
  define qs :: "(nat \<times> nat) list" where "qs = [(2, 2), (4, 1)]"
  have len: "length qs = 2" "[0 ..< 2 :: nat] = [0, 1]" by (simp_all add: qs_def upt_rec)
  then have "int (length qs) \<le> INT_MAX" by (simp add: INT_MAX_def)
  from service_answers_all [OF this, where mult = "(*)", unfolded len]
  obtain r0 where r0: "request_all qs new_rpcsvc = (Ok [0, 1], r0)" and
    runs: "\<forall>k r. (expires (*) ^^ k) r0 r \<longrightarrow>
      k \<le> 2 \<and> ((\<exists>r'. expires (*) r r') \<longleftrightarrow> k < 2) \<and> length (printed r) = k \<and>
      sorted (answered_dues qs r) \<and> (\<forall>c \<in> fst ` set (printed r). c = int 2) \<and>
      (k = 2 \<longrightarrow> m_calls r = Map.empty \<and> (\<forall>p < 2. \<exists>s. shared r p = Some s \<and>
          shared_state s = Has_Value (fst (qs ! p) * fst (qs ! p))))" by (elim exE conjE)
  have goes_on: "\<exists>r'. expires (*) r r'" if "(expires (*) ^^ k) r0 r" "k < 2" for k r
    using runs that by simp
  have ends: "m_calls r = Map.empty \<and> (\<forall>p < 2. \<exists>s. shared r p = Some s \<and>
      shared_state s = Has_Value (fst (qs ! p) * fst (qs ! p)))" if "(expires (*) ^^ 2) r0 r" for r
    using runs that by simp
  obtain r1 where r1: "expires (*) r0 r1" using goes_on [of 0 r0] by auto
  then have once: "(expires (*) ^^ 1) r0 r1" by (simp only: relpowp_1)
  then obtain r where "expires (*) r1 r" using goes_on [of 1 r1] by auto
  with once have "(expires (*) ^^ Suc 1) r0 r" by (rule relpowp_Suc_I)
  then have run: "(expires (*) ^^ 2) r0 r" by (simp only: Suc_1)
  from ends [OF this] have "\<exists>s. shared r p = Some s \<and> shared_state s = Has_Value (fst (qs ! p) * fst (qs ! p))"
    if "p < 2" for p using that by blast
  from this [of 0] this [of 1] show ?thesis
    using r0 run ends [OF run] by (intro exI [of _ r0] exI [of _ r]) (simp add: qs_def)
qed

section \<open>Chained computations\<close>

text \<open>
  \<open>test_when_all.cpp\<close>: \<open>async\<close> gives a future of its function's result, and a continuation that
  itself returns a future is waited for twice.  The second computation that the continuation starts,
  with the same result, is not waited for.
\<close>

definition f1_continuation :: "int \<Rightarrow> int result" where
  "f1_continuation ires = Ok (11 + ires)"

definition when_all_main :: "int result" where
  "when_all_main =
     (let f1 = Ok 1; chained = (case f1 of Ok ires \<Rightarrow> Ok (f1_continuation ires) | Throw e \<Rightarrow> Throw e
        | Undefined_Behaviour \<Rightarrow> Undefined_Behaviour)
      in case chained of Ok inner \<Rightarrow> inner | Throw e \<Rightarrow> Throw e | Undefined_Behaviour \<Rightarrow> Undefined_Behaviour)"

lemma when_all_main_result: "when_all_main = Ok 12"
  by (simp add: when_all_main_def f1_continuation_def)

end
