(* ===== verification/Spec2Isabelle.thy ===== *)
theory Spec2Isabelle
  imports Accessors Protocol_Checks Session_Futures Backplane_Routing Caller_Results Proxy_Caller
    Future_Tests
begin

text \<open>
  Autobahn|Cpp is a client library for WAMP, the Web Application Messaging Protocol: an
  application joins a realm on a router, subscribes to topics, publishes events, calls remote
  procedures and provides procedures of its own.  This development models the library under
  \<open>autobahn/\<close>: the session (\<open>wamp_session.hpp\<close>, \<open>.ipp\<close>), the classes it hands to the application
  and the TCP client around it; on top of it the backplane under \<open>examples/acs\<close>, which connects the
  routers of a network with each other, the example programs under \<open>examples\<close>, and the two programs
  under \<open>test\<close>.

  Parts and their interaction.  The application calls the session's operations from any thread;
  each packs a message, draws a request id and dispatches a function to the io thread, which
  enters the request into a table and writes a frame (length prefix, then the MsgPack bytes).  The
  io thread reads frames, decodes them and hands each object to \<open>got_message\<close>, which resolves the
  promises of requests, calls event handlers and runs procedures; a procedure answers its caller
  through the invocation object, from any thread.  A TCP client connects a socket, starts a session
  on it and joins a realm, each step in a continuation of the one before.  The backplane announces
  its domain by multicast on every interface, listens for the announcements of others, keeps a TCP
  client for each domain it discovers and for its own router, and forwards invocations to them.  An
  example program connects one session, works through its stages in continuations of the session's
  futures, and ends when its last stage stops the io thread or an exception leaves a handler.

  Theories and code, in the order of the imports.

    \<^item> \<open>Prelude\<close>: machine words, exceptions (\<open>exceptions.hpp\<close>), results (a value, an exception, or
      undefined behaviour), actions on a state with \<open>bind_act\<close>, \<open>try_catch\<close>; \<open>keeps\<close> (an action
      keeps an invariant) with its \<open>keep_intros\<close> rules; reachable states; \<open>std::map\<close> as a partial
      map, \<open>std::multimap\<close> as a sorted list (\<open>mm_insert\<close>, \<open>mm_lower_bound\<close>, \<open>mm_upper_bound\<close>).
    \<^item> \<open>Msgpack\<close>: the objects, the calls of the packer, and the record \<open>msgpack\<close> of what the code
      uses of the MsgPack library.  The library is a parameter \<open>mp\<close> of the model: \<open>msgpack_ok\<close>
      states that conversions of integers and strings work as documented, \<open>unpack_consumes\<close> that
      the decoder consumes input for each object it returns.  \<open>msgpack_example\<close> satisfies both.
    \<^item> \<open>Promise\<close>: \<open>boost::promise\<close>, by the contract of \<open>std::promise\<close>: set once, its future taken
      once; a promise destroyed before it was set leaves \<open>broken_promise\<close> in its future (\<open>abandon\<close>).
      Locale \<open>one_shot\<close>.
    \<^item> \<open>Message_Type\<close> (\<open>wamp_message_type.hpp\<close>), \<open>Arguments\<close> (\<open>wamp_arguments.hpp\<close> and the keyword
      loop; locale \<open>argument_holder\<close>), \<open>Event\<close> (\<open>wamp_event.*\<close>), \<open>Call_Result\<close>
      (\<open>wamp_call_result.*\<close>, with the lifetime of results on a store of zones), \<open>Invocation\<close>
      (\<open>wamp_invocation.*\<close>), \<open>Requests\<close> (\<open>wamp_call\<close>, \<open>wamp_*_request\<close>, \<open>wamp_subscription\<close>,
      \<open>wamp_registration\<close>, \<open>wamp_publication\<close>).
    \<^item> \<open>Session_State\<close>: the data members of \<open>wamp_session\<close> as the record \<open>session\<close>, objects behind
      \<open>std::shared_ptr\<close> on heaps by pointer, the io thread's queue and outstanding reads, the
      output stream; \<open>send\<close>.
    \<^item> \<open>Client_Messages\<close>: the packed message of every operation; \<open>client_message\<close> describes what a
      WAMP client may send.
    \<^item> \<open>Session_Api\<close>: every public operation.  An argument says whether the caller is the io thread,
      where \<open>dispatch\<close> runs the function at once, or another thread, where it is queued as a \<open>task\<close>.
      The function owns the request object: it enters it into its table (\<open>enter_call\<close> and the like)
      or, when the session is gone or not joined or the id is in use, lets go of it
      (\<open>release_call\<close> and the like), which breaks the promise of the request.
      User code is a parameter: handlers and procedures are programs (\<open>prog\<close>) that call operations,
      answer invocations and may throw.
    \<^item> \<open>Session_Receive\<close>: \<open>got_message\<close> and all \<open>process_*\<close> handlers.  \<open>Session_Loop\<close>: the handshake
      reply, header, body and decoder loop, read errors, and \<open>session_step\<close>, one step of a session:
      a call by the application on some thread (\<open>start\<close> included, as often as it likes), the next
      queued function, the completion of any outstanding read, an answer to an invocation, or the end
      of its lifetime (\<open>destroy_session\<close>), when its promises and those of the requests in its tables
      break.  When the output stream fails is fixed by the initial state and arbitrary.
    \<^item> \<open>Session_Requests\<close>: the locale \<open>request_op\<close> of a request (what an operation does on the
      io thread, in and outside a joined session), interpreted for every request operation.
    \<^item> \<open>Session_Invariants\<close>: what an invariant must keep, as locales.  \<open>api_updates\<close> asks it of the
      small updates behind the operations, \<open>message_updates\<close> also of those behind the handlers,
      \<open>field_invariant\<close> field by field; from these follow \<open>api_invariant\<close> (operations and user code),
      \<open>handler_invariant\<close> (received messages), \<open>read_invariant\<close> (completed reads), \<open>io_invariant\<close> (the
      io thread) and \<open>step_invariant\<close>: the invariant holds in every reachable session.  It also
      shows what a completion handler arms (\<open>arms\<close>): at most one header or body read is outstanding, and
      once the loop has ended it never starts again (\<open>loop_ended\<close>).  \<open>Session_Safety\<close> and
      \<open>Request_Tables\<close> interpret them: \<open>wire\<close> (what is on the wire), \<open>flags\<close> (flags, promises and
      streams), \<open>closed\<close> (nothing after stop), \<open>answered\<close> (an answered invocation stays answered),
      \<open>requests\<close> (tables and heaps).
    \<^item> \<open>Session_Runs\<close>: concrete runs, for the examples that show hypotheses can hold.
    \<^item> \<open>Session_Futures\<close>: the futures of a session as a board of outcomes.  The session refines a board
      that is written once (\<open>extends\<close>), by an interpretation of the same locales on the relation
      \<open>later\<close> between an earlier and a later session; and what resolves the future of a request: its
      answer (\<open>answers\<close>), or the end of the object that holds its promise.
    \<^item> \<open>Framing\<close>, \<open>Session_Handlers\<close>, \<open>Callee\<close>, \<open>Protocol_Checks\<close>, \<open>Session_Lifecycle\<close>, \<open>Accessors\<close>:
      the properties of the session and of the value classes.
    \<^item> \<open>Ip_Address\<close>: IPv4 addresses; the conversions from and to text are the parameter \<open>ip_library\<close>.
      \<open>Tcp_Client\<close> (\<open>wamp_tcp_client.hpp\<close>): the client as a record around a session, \<open>launch\<close> and its
      continuations, the steps \<open>client_step\<close> of a client in its environment.
    \<^item> \<open>Domain_Info\<close> (\<open>CDomainInfo.*\<close>), \<open>Interfaces\<close> (\<open>getInterfaceAddresses.*\<close>,
      \<open>CInterfaceChangeNotifier.*\<close>), \<open>Announcer\<close> and \<open>Listener\<close> (\<open>CDomainDiscoveryManager.*\<close>),
      \<open>Parameters\<close> (\<open>examples/parameters.*\<close>).  What \<open>getifaddrs\<close> returns, whether a socket option can
      be set and what an asynchronous operation completes with are arguments; the decoding of
      datagrams is the parameter \<open>datagrams\<close>, with \<open>datagrams_ok\<close> as its documented behaviour.
    \<^item> \<open>Backplane\<close> (\<open>CBackplane.*\<close>): its record extends the listener's, which extends the notifier's,
      and adds the store of clients; the slots of the signals are arguments of the operations that
      emit them.  \<open>Backplane_Safety\<close>: \<open>backplane_step\<close>, one step of the whole program (a datagram, a
      step of any client, a continuation, a poll of the interfaces, a forwarded invocation, a
      thread that waits for its answer), and its invariant.  The locale \<open>backplane_updates\<close> lists the
      updates an invariant must keep; \<open>Backplane_Routes\<close> interprets it a second time, to show that a
      domain keeps its client until that client is lost.  \<open>Backplane_Routing\<close>: its properties.
    \<^item> \<open>Example_Programs\<close> (\<open>caller.cpp\<close>, \<open>publisher.cpp\<close>, \<open>callee2.cpp\<close>, \<open>subscriber.cpp\<close>): a program is a
      record of its completion handler, continuations and callbacks, its execution the relation
      \<open>app_step\<close> on the session, the waiting continuations and the state of \<open>main\<close>.
      \<open>Example_Behaviour\<close>: the contract of a program's stages (each leads to a later one) as the
      locale \<open>example_program\<close>, interpreted for all four.  \<open>Example_Results\<close>: their runs and
      properties.  \<open>Caller_Results\<close>: what the caller makes of the answer to its call, and what becomes
      of it when there is none.  \<open>Proxy_Caller\<close> (\<open>proxyCaller.cpp\<close>): the program that calls through the
      backplane, with a TCP client, and what becomes of it when the connection fails.
    \<^item> \<open>Future_Tests\<close> (\<open>test/*.cpp\<close>): the service of timers and promises of
      \<open>test_future_with_asio.cpp\<close>, as a record with the states its futures share, its execution the
      relation \<open>expires\<close>; and the chained computations of \<open>test_when_all.cpp\<close>.

  The properties are numbered C1 to C40 by importance.

  What the properties show.  Invariants of every reachable session: the bytes written are frames
  of messages a client may send; the request tables and the objects behind them are consistent;
  flags, promises and streams agree; a stopped session is silent; nothing the router sends, apart
  from two short messages, leads to undefined behaviour.  Functional behaviour of every operation
  and every message, the error branches included; the decoder loop refines a specification that
  lists the objects in the received bytes; framing and packing are what the protocol prescribes;
  call results survive any legal sequence of copies and moves; an outcome a future shows never
  changes, and an open request is resolved by nothing but its answer, its refusal or the end of the
  session.  Composition: the session of every
  reachable client is a reachable session, and every client of a reachable backplane a reachable
  client, so the session's properties hold inside the whole program; what an announcer sends, a
  listener discovers; what a listener discovers, the backplane connects to; what it is connected
  to, it forwards to, by the same client until that is lost; the session of every reachable example program is a reachable session, and
  what the caller asks the callee answers.  Several properties state behaviour that is surprising: handlers survive
  unsubscribing, answered calls stay in their table, an exception in a handler of a message ends
  reception, a keyword fallback is thrown, a client that failed to connect counts as connected, an
  announcer that skips an interface may fall silent, a malformed datagram deafens the listener, the
  answer to a forwarded invocation is lost, a program whose handler throws hangs, a queued request
  that is refused fails with \<open>broken_promise\<close>.

  Bounds.  \<open>unpack_loop\<close> takes a bound on the number of objects; \<open>unpack_all\<close> uses one more than the
  number of buffered bytes, which is enough because every object consumes a byte
  (\<open>unpack_all_refines\<close>).  Request ids are kept as a natural number \<open>m_request_id\<close> and cut to 64
  bits where they are used; freshness of an id is stated for fewer than \<open>2 ^ 64\<close> requests.

  Not modelled.  Debug output and the messages on \<open>std::cerr\<close>; memory exhaustion and the allocation
  in \<open>reserve_buffer\<close>; the zones behind events and invocations (those of call results are modelled);
  data races: functions run one at a time on the io thread, and the operations of other threads
  and continuations are atomic steps between them; the Windows branch of \<open>getInterfaceAddresses\<close>,
  which does not compile; the clock readings of the callers; the multiplication of \<open>float\<close> values and
  the delays that are no whole numbers of seconds in the tests; \<open>autobahn.hpp\<close>, which only includes
  the other headers, and the build files.  What a program does once undefined behaviour
  has occurred (a thread of \<open>proxy\<close> using its dead variable) is not modelled: there is no such step.
  An output stream that has failed stays failed, so nothing is written after a partial write.  A client of the
  backplane that nobody refers to any more is not destroyed in the model: it stays in the store, and its session
  may go on making steps.  An application launches a TCP client once and does not start its session before the
  client has.  Two reads outstanding on one socket may share the bytes that arrive in any way: a completed read
  delivers arbitrary bytes of the right number.
  Conversions of payloads to C++ types are a parameter of the accessors and of \<open>proxy\<close>.
\<close>

end
